(* ===== verification/Prelude.thy ===== *)
theory Prelude
  imports Main "HOL-Library.Word" "HOL-Library.Multiset"
begin

text \<open>
  Shared vocabulary of the development: the machine integers of the Rust
  sources with their saturating and checked operations, the result type of
  fallible calls, the transactional layer FRAME puts around a dispatched
  call, and the facts on lists and maps that several components use.

  Release builds of the workspace do not enable overflow checks, so the
  operators \<open>+\<close>, \<open>*\<close> and \<open>-\<close> of the sources are the wrapping operations of
  the word type; \<open>saturating_add\<close> and its relatives are the definitions below.
\<close>

section \<open>Machine integers\<close>

type_synonym u8 = "8 word"
type_synonym u16 = "16 word"
type_synonym u32 = "32 word"
type_synonym u64 = "64 word"
type_synonym u128 = "128 word"

definition saturating_add :: "'a::len word \<Rightarrow> 'a word \<Rightarrow> 'a word" where
  "saturating_add a b = (if unat a + unat b < 2 ^ LENGTH('a) then a + b else - 1)"

definition saturating_sub :: "'a::len word \<Rightarrow> 'a word \<Rightarrow> 'a word" where
  "saturating_sub a b = (if b \<le> a then a - b else 0)"

definition saturating_mul :: "'a::len word \<Rightarrow> 'a word \<Rightarrow> 'a word" where
  "saturating_mul a b = (if unat a * unat b < 2 ^ LENGTH('a) then a * b else - 1)"

definition checked_add :: "'a::len word \<Rightarrow> 'a word \<Rightarrow> 'a word option" where
  "checked_add a b = (if unat a + unat b < 2 ^ LENGTH('a) then Some (a + b) else None)"

definition checked_sub :: "'a::len word \<Rightarrow> 'a word \<Rightarrow> 'a word option" where
  "checked_sub a b = (if b \<le> a then Some (a - b) else None)"

definition checked_mul :: "'a::len word \<Rightarrow> 'a word \<Rightarrow> 'a word option" where
  "checked_mul a b = (if unat a * unat b < 2 ^ LENGTH('a) then Some (a * b) else None)"

section \<open>Results and the transactional layer\<close>

text \<open>
  A fallible call returns a value of type \<open>'e + 'a\<close>, the error on the left.
  FRAME runs every dispatched call in a storage layer that is discarded when
  the call returns an error; \<open>storage_layer\<close> is that layer for a call written
  as a function of the storage.
\<close>

type_synonym ('e, 'a) result = "'e + 'a"

definition bind_result :: "('e, 'a) result \<Rightarrow> ('a \<Rightarrow> ('e, 'b) result) \<Rightarrow> ('e, 'b) result" where
  "bind_result r f = (case r of Inl e \<Rightarrow> Inl e | Inr x \<Rightarrow> f x)"

definition ok_or :: "'e \<Rightarrow> 'a option \<Rightarrow> ('e, 'a) result" where
  "ok_or e v = (case v of None \<Rightarrow> Inl e | Some x \<Rightarrow> Inr x)"

definition is_ok :: "('e, 'a) result \<Rightarrow> bool" where
  "is_ok r = (case r of Inl _ \<Rightarrow> False | Inr _ \<Rightarrow> True)"

definition storage_layer :: "('s \<Rightarrow> ('e, 's) result) \<Rightarrow> 's \<Rightarrow> ('e, unit) result \<times> 's" where
  "storage_layer f s = (case f s of Inl e \<Rightarrow> (Inl e, s) | Inr s' \<Rightarrow> (Inr (), s'))"

section \<open>Weights\<close>

text \<open>A FRAME weight has a computation and a storage-proof component.\<close>

record weight =
  ref_time :: u64
  proof_size :: u64

definition all_lte :: "weight \<Rightarrow> weight \<Rightarrow> bool" where
  "all_lte a b \<longleftrightarrow> ref_time a \<le> ref_time b \<and> proof_size a \<le> proof_size b"

section \<open>Collections of facts\<close>

named_theorems sat_simps \<open>values of the saturating and checked operations\<close>

section \<open>Lemmas on words\<close>

lemma unat_saturating_add [sat_simps]:
  "unat (saturating_add a b) = min (unat a + unat b) (2 ^ LENGTH('a) - 1)"
  for a b :: "'a::len word"
proof (cases "unat a + unat b < 2 ^ LENGTH('a)")
  case True
  then show ?thesis
    by (simp add: saturating_add_def unat_word_ariths)
next
  case False
  then show ?thesis
    by (simp add: saturating_add_def unsigned_minus_1_eq_mask mask_eq_exp_minus_1)
qed

lemma unat_saturating_sub [sat_simps]:
  "unat (saturating_sub a b) = unat a - unat b"
  for a b :: "'a::len word"
  by (simp add: saturating_sub_def unat_sub word_le_nat_alt)

lemma unat_saturating_mul [sat_simps]:
  "unat (saturating_mul a b) = min (unat a * unat b) (2 ^ LENGTH('a) - 1)"
  for a b :: "'a::len word"
proof (cases "unat a * unat b < 2 ^ LENGTH('a)")
  case True
  then show ?thesis
    by (simp add: saturating_mul_def unat_word_ariths)
next
  case False
  then show ?thesis
    by (simp add: saturating_mul_def unsigned_minus_1_eq_mask mask_eq_exp_minus_1)
qed

lemma checked_add_Some:
  "checked_add a b = Some c \<longleftrightarrow> unat a + unat b = unat c"
  for a b c :: "'a::len word"
proof
  assume "checked_add a b = Some c"
  then show "unat a + unat b = unat c"
    by (auto simp: checked_add_def unat_word_ariths split: if_splits)
next
  assume sum: "unat a + unat b = unat c"
  then have "unat a + unat b < 2 ^ LENGTH('a)"
    using unsigned_less [of c] by simp
  moreover from this have "a + b = c"
    using sum by (simp add: word_unat_eq_iff unat_word_ariths)
  ultimately show "checked_add a b = Some c"
    by (simp add: checked_add_def)
qed

lemma checked_mul_Some:
  "checked_mul a b = Some c \<longleftrightarrow> unat a * unat b = unat c"
  for a b c :: "'a::len word"
proof
  assume "checked_mul a b = Some c"
  then show "unat a * unat b = unat c"
    by (auto simp: checked_mul_def unat_word_ariths split: if_splits)
next
  assume prod: "unat a * unat b = unat c"
  then have "unat a * unat b < 2 ^ LENGTH('a)"
    using unsigned_less [of c] by simp
  moreover from this have "a * b = c"
    using prod by (simp add: word_unat_eq_iff unat_word_ariths)
  ultimately show "checked_mul a b = Some c"
    by (simp add: checked_mul_def)
qed

lemma checked_sub_Some:
  "checked_sub a b = Some c \<longleftrightarrow> b \<le> a \<and> unat c = unat a - unat b"
  for a b c :: "'a::len word"
  by (auto simp: checked_sub_def unat_sub word_le_nat_alt word_unat_eq_iff)

lemma saturating_sub_le: "saturating_sub a b \<le> a"
  for a b :: "'a::len word"
  by (simp add: word_le_nat_alt unat_saturating_sub)

lemma saturating_add_exact:
  fixes a b m :: "'a::len word"
  assumes "unat a + unat b \<le> unat m"
  shows "unat (saturating_add a b) = unat a + unat b"
proof -
  have "unat a + unat b < 2 ^ LENGTH('a)"
    using assms order.strict_trans1 unsigned_less [of m] by blast
  then show ?thesis
    by (simp add: unat_saturating_add)
qed

lemma saturating_add_0: "saturating_add 0 a = a"
  using saturating_add_exact [of 0 a a] by (simp add: word_unat_eq_iff)

text \<open>Below the largest value, a saturated sum is within a limit exactly when the true sum is.\<close>

lemma saturating_add_le_iff:
  fixes a b m :: "'a::len word"
  assumes "m < - 1"
  shows "saturating_add a b \<le> m \<longleftrightarrow> unat a + unat b \<le> unat m"
proof -
  have "unat m < 2 ^ LENGTH('a) - 1"
    using assms by (simp add: word_less_nat_alt unsigned_minus_1_eq_mask mask_eq_exp_minus_1)
  then show ?thesis
    by (auto simp: word_le_nat_alt unat_saturating_add)
qed

lemma unat_plus_1:
  fixes a :: "'a::len word"
  assumes "a \<noteq> - 1"
  shows "unat (a + 1) = unat a + 1"
proof -
  have "unat a \<noteq> 2 ^ LENGTH('a) - 1"
    using assms by (auto simp: word_unat_eq_iff unsigned_minus_1_eq_mask mask_eq_exp_minus_1)
  then have "unat a + 1 < 2 ^ LENGTH('a)"
    using unsigned_less [of a] by (metis Suc_eq_plus1 Suc_lessI diff_Suc_1)
  then show ?thesis
    by (simp add: unat_word_ariths)
qed

lemma word_less_plus_1: "a \<noteq> - 1 \<Longrightarrow> x < a + 1 \<longleftrightarrow> x \<le> a"
  for a x :: "'a::len word"
  by (auto simp: word_less_nat_alt word_le_nat_alt unat_plus_1)

lemma word_not_max: "a < b \<Longrightarrow> a \<noteq> - 1"
  for a b :: "'a::len word"
  by (metis word_order.extremum_strict)

lemma saturating_add_1: "a \<noteq> - 1 \<Longrightarrow> saturating_add a 1 = a + 1"
  for a :: "'a::len word"
proof -
  assume "a \<noteq> - 1"
  then have "unat (saturating_add a 1) = unat (a + 1)"
    using saturating_add_exact [of a 1 "a + 1"] by (simp add: unat_plus_1)
  then show ?thesis
    by (simp only: word_unat_eq_iff)
qed

lemma unat_word_of_nat_le:
  fixes b :: "'a::len word"
  assumes "n \<le> unat b"
  shows "unat (word_of_nat n :: 'a word) = n"
proof -
  have "n < 2 ^ LENGTH('a)"
    using assms order.strict_trans1 unsigned_less [of b] by blast
  then show ?thesis
    by (simp add: unat_of_nat)
qed

lemma next_multiple:
  assumes "d dvd Suc n"
  shows "Suc (n div d) * d = Suc n"
proof -
  have "Suc n div d = Suc (n div d)"
    using assms by (simp add: div_Suc dvd_eq_mod_eq_0)
  then show ?thesis
    using assms by (metis dvd_div_mult_self)
qed

section \<open>Lemmas on sorted lists\<close>

text \<open>On a sorted list the elements below a bound are a prefix.\<close>

lemma takeWhile_sorted_filter:
  "sorted (map f us) \<Longrightarrow> takeWhile (\<lambda>u. f u < d) us = filter (\<lambda>u. f u < d) us"
  for d :: "'k::linorder"
proof (induction us)
  case (Cons u us)
  have "filter (\<lambda>u. f u < d) us = []" if "\<not> f u < d"
    using that Cons.prems by (auto simp: filter_empty_conv not_less)
  with Cons show ?case by simp
qed simp

lemma dropWhile_sorted_filter:
  "sorted (map f us) \<Longrightarrow> dropWhile (\<lambda>u. f u < d) us = filter (\<lambda>u. d \<le> f u) us"
  for d :: "'k::linorder"
proof (induction us)
  case (Cons u us)
  have "filter (\<lambda>u. d \<le> f u) us = us" if "\<not> f u < d"
    using that Cons.prems by (intro filter_True) auto
  with Cons show ?case by (cases "f u < d") (auto simp: not_less)
qed simp

lemma takeWhile_strict_length:
  "sorted_wrt (<) xs \<Longrightarrow> i < length xs \<Longrightarrow> length (takeWhile (\<lambda>k. k < xs ! i) xs) = i"
  for xs :: "'k::linorder list"
proof -
  assume srt: "sorted_wrt (<) xs" and i: "i < length xs"
  have "takeWhile (\<lambda>k. k < xs ! i) (take i xs @ xs ! i # drop (Suc i) xs) = take i xs"
    using srt i by (subst takeWhile_append2) (auto simp: in_set_conv_nth sorted_wrt_iff_nth_less)
  then show ?thesis
    using i by (simp flip: id_take_nth_drop)
qed

lemma sorted_map_mono:
  assumes "sorted (map f us)" "\<And>u v. f u \<le> f v \<Longrightarrow> g u \<le> g v"
  shows "sorted (map g us)"
  using assms by (induction us) auto

lemma sorted_map_last: "sorted (map f us) \<Longrightarrow> u \<in> set us \<Longrightarrow> f u \<le> f (last us)"
  for f :: "'a \<Rightarrow> 'k::linorder"
  by (induction us) auto

lemma find_by_key: "distinct (map f xs) \<Longrightarrow> x \<in> set xs \<Longrightarrow> find (\<lambda>y. f y = f x) xs = Some x"
  by (induction xs) (auto simp: image_iff)

section \<open>Lemmas on results\<close>

lemma bind_result_simps [simp]:
  "bind_result (Inl e) f = Inl e"
  "bind_result (Inr x) f = f x"
  by (simp_all add: bind_result_def)

lemma bind_result_Inr_iff:
  "bind_result r f = Inr y \<longleftrightarrow> (\<exists>x. r = Inr x \<and> f x = Inr y)"
  by (cases r) simp_all

lemma ok_or_simps [simp]:
  "ok_or e None = Inl e"
  "ok_or e (Some x) = Inr x"
  by (simp_all add: ok_or_def)

lemma is_ok_simps [simp]:
  "is_ok (Inl e) \<longleftrightarrow> False"
  "is_ok (Inr x) \<longleftrightarrow> True"
  by (simp_all add: is_ok_def)

lemma storage_layer_error: "fst (storage_layer f s) = Inl e \<Longrightarrow> snd (storage_layer f s) = s"
  by (auto simp: storage_layer_def split: sum.splits)

lemma storage_layer_preserves:
  assumes "P s" and "\<And>s'. f s = Inr s' \<Longrightarrow> P s'"
  shows "P (snd (storage_layer f s))"
  using assms by (auto simp: storage_layer_def split: sum.splits)

section \<open>Stateful computations that may fail\<close>

text \<open>
  Host functions keep what they did to the host's state when they fail, unlike
  a storage layer.  A computation maps a state to a result and a state.
\<close>

type_synonym ('s, 'e, 'a) st_result = "'s \<Rightarrow> ('e, 'a) result \<times> 's"

definition st_return :: "'a \<Rightarrow> ('s, 'e, 'a) st_result" where
  "st_return a s = (Inr a, s)"

definition st_lift :: "('e, 'a) result \<Rightarrow> ('s, 'e, 'a) st_result" where
  "st_lift r s = (r, s)"

definition st_read :: "('s \<Rightarrow> ('e, 'a) result) \<Rightarrow> ('s, 'e, 'a) st_result" where
  "st_read f s = (f s, s)"

definition st_modify :: "('s \<Rightarrow> 's) \<Rightarrow> ('s, 'e, unit) st_result" where
  "st_modify f s = (Inr (), f s)"

definition st_bind :: "('s, 'e, 'a) st_result \<Rightarrow> ('a \<Rightarrow> ('s, 'e, 'b) st_result) \<Rightarrow> ('s, 'e, 'b) st_result" where
  "st_bind m f s = (case m s of (Inl e, s') \<Rightarrow> (Inl e, s') | (Inr a, s') \<Rightarrow> f a s')"

lemma st_simps [simp]:
  "st_return a s = (Inr a, s)" "st_lift r s = (r, s)" "st_read g s = (g s, s)" "st_modify h s = (Inr (), h s)"
  by (simp_all add: st_return_def st_lift_def st_read_def st_modify_def)

lemma st_bind_Inl: "m s = (Inl e, s') \<Longrightarrow> st_bind m f s = (Inl e, s')"
  by (simp add: st_bind_def)

lemma st_bind_Inr: "m s = (Inr a, s') \<Longrightarrow> st_bind m f s = f a s'"
  by (simp add: st_bind_def)

lemma st_bind_lift [simp]:
  "st_bind (st_lift (Inl e)) f s = (Inl e, s)" "st_bind (st_lift (Inr a)) f s = f a s"
  by (simp_all add: st_bind_def)

lemma st_bind_modify [simp]: "st_bind (st_modify g) f s = f () (g s)"
  by (simp add: st_bind_def)

lemma st_bind_return [simp]: "st_bind (st_return a) f = f a" "st_bind m st_return = m"
  by (auto simp: st_bind_def fun_eq_iff split: prod.split sum.split)

lemma st_bind_assoc: "st_bind (st_bind m f) g = st_bind m (\<lambda>a. st_bind (f a) g)"
  by (auto simp: st_bind_def fun_eq_iff split: prod.split sum.split)

lemma st_bind_read: "st_bind (st_read g) f s = (case g s of Inl e \<Rightarrow> (Inl e, s) | Inr a \<Rightarrow> f a s)"
  by (simp add: st_bind_def split: sum.splits)

lemma st_bind_cases:
  assumes "st_bind m f s = (r, s'')"
  obtains (failed) e where "m s = (Inl e, s'')" "r = Inl e"
    | (passed) a s' where "m s = (Inr a, s')" "f a s' = (r, s'')"
  using assms by (auto simp: st_bind_def split: prod.splits sum.splits)

text \<open>An invariant of the state that both parts of a sequence keep.\<close>

lemma st_bind_inv:
  assumes "I (snd (m s))" "\<And>a s'. m s = (Inr a, s') \<Longrightarrow> I s' \<Longrightarrow> I (snd (f a s'))"
  shows "I (snd (st_bind m f s))"
  using assms by (cases "m s"; cases "fst (m s)") (auto simp: st_bind_def)

section \<open>Transition systems\<close>

text \<open>
  Pallets evolve by dispatched calls and block hooks.  Each component gives
  its initial states and a step relation; \<open>reachable\<close> closes the initial states
  under steps.  The locale is the contract of an invariant: it holds
  initially and every step keeps it.
\<close>

inductive reachable :: "('s \<Rightarrow> bool) \<Rightarrow> ('s \<Rightarrow> 's \<Rightarrow> bool) \<Rightarrow> 's \<Rightarrow> bool"
  for init :: "'s \<Rightarrow> bool" and step :: "'s \<Rightarrow> 's \<Rightarrow> bool" where
  reachable_init: "init s \<Longrightarrow> reachable init step s"
| reachable_step: "reachable init step s \<Longrightarrow> step s s' \<Longrightarrow> reachable init step s'"

locale transition_invariant =
  fixes init :: "'s \<Rightarrow> bool"
    and step :: "'s \<Rightarrow> 's \<Rightarrow> bool"
    and inv :: "'s \<Rightarrow> bool"
  assumes inv_init: "init s \<Longrightarrow> inv s"
    and inv_step: "inv s \<Longrightarrow> step s s' \<Longrightarrow> inv s'"
begin

lemma reachable_inv:
  assumes "reachable init step s"
  shows "inv s"
  using assms
proof (induction rule: reachable.induct)
  case (reachable_init s)
  then show ?case by (rule inv_init)
next
  case (reachable_step s s')
  then show ?case by (blast intro: inv_step)
qed

lemma steps_inv:
  assumes "step\<^sup>*\<^sup>* s s'" and "inv s"
  shows "inv s'"
  using assms by (induction rule: rtranclp_induct) (blast intro: inv_step)+

end

end
