(* ===== verification/Federated_Authority.thy ===== *)
theory Federated_Authority
  imports Prelude
begin

text \<open>
  The federated-authority pallet (\<open>pallets/federated-authority/src\<close>): bodies
  approve and revoke motions, anyone may close a motion, and a motion that
  enough bodies approve is dispatched with the root origin.

  The storage of the pallet is the record \<open>fa_state\<close>; its field \<open>world\<close> stands
  for the storage of the rest of the runtime, which only a dispatched motion
  touches.  The runtime's constants and the code of other pallets (origin
  checks, hashing, call weights, dispatch) are fields of \<open>fa_config\<close>.
\<close>

section \<open>Data\<close>

record 'o authority_body =
  try_origin :: "'o \<Rightarrow> bool"
  pallet_index :: u32

record 'c MotionInfo =
  approvals :: "u32 set"
  ends_block :: u32
  call :: 'c

datatype fa_error =
    FaBadOrigin
  | MotionAlreadyApproved
  | MotionApprovalMissing
  | MotionApprovalExceedsBounds
  | MotionNotFound
  | MotionNotEnded
  | MotionHasEnded
  | MotionWeightBoundTooLow

datatype ('h, 'd) fa_event =
    MotionApproved 'h u32
  | MotionDispatched 'h "('d, unit) result"
  | MotionExpired 'h
  | MotionRevoked 'h u32
  | MotionRemoved 'h

text \<open>
  The weight a call reports after the dispatch: the function of the pallet's
  \<open>WeightInfo\<close> and its argument.  Every such report comes with \<open>Pays::No\<close>.
\<close>

datatype fa_weight =
    W_motion_approve u32
  | W_motion_approve_new
  | W_motion_approve_ended
  | W_motion_approve_already_approved u32
  | W_motion_approve_exceeds_bounds
  | W_motion_revoke u32
  | W_motion_revoke_remove
  | W_motion_revoke_not_found
  | W_motion_revoke_ended
  | W_motion_revoke_approval_missing u32
  | W_motion_close_approved weight
  | W_motion_close_expired
  | W_motion_close_not_found
  | W_motion_close_still_ongoing

record ('h, 'c, 'd, 'w) fa_state =
  Motions :: "'h \<Rightarrow> 'c MotionInfo option"
  fa_events :: "('h, 'd) fa_event list"
  block_number :: u32
  world :: 'w

record ('o, 'h, 'c, 'd, 'w) fa_config =
  MaxAuthorityBodies :: u32
  MotionDuration :: u32
  ProportionN :: u32
  ProportionD :: u32
  approval_bodies :: "'o authority_body list"
  revoke_bodies :: "'o authority_body list"
  is_signed :: "'o \<Rightarrow> bool"
  hash_of :: "'c \<Rightarrow> 'h"
  call_weight :: "'c \<Rightarrow> weight"
  dispatch :: "'c \<Rightarrow> ('h, 'c, 'd, 'w) fa_state \<Rightarrow> ('d, ('h, 'c, 'd, 'w) fa_state) result"

section \<open>Origins and the approval proportion\<close>

definition body_ensure_from_bodies :: "'o authority_body \<Rightarrow> 'o \<Rightarrow> ('o, u32) result" where
  "body_ensure_from_bodies b org = (if try_origin b org then Inr (pallet_index b) else Inl org)"

fun ensure_from_bodies :: "'o authority_body list \<Rightarrow> 'o \<Rightarrow> ('o, u32) result" where
  "ensure_from_bodies [] org = Inl org"
| "ensure_from_bodies (b # bs) org =
    (case body_ensure_from_bodies b org of
       Inr auth \<Rightarrow> Inr auth
     | Inl _ \<Rightarrow> ensure_from_bodies bs org)"

definition reached_proportion :: "u32 \<Rightarrow> u32 \<Rightarrow> u32 \<Rightarrow> u32 \<Rightarrow> bool" where
  "reached_proportion N D n d \<longleftrightarrow> n * D \<ge> N * d"

definition is_motion_approved :: "('o, 'h, 'c, 'd, 'w) fa_config \<Rightarrow> u32 \<Rightarrow> bool" where
  "is_motion_approved cfg total_approvals \<longleftrightarrow>
     reached_proportion (ProportionN cfg) (ProportionD cfg) total_approvals (MaxAuthorityBodies cfg)"

section \<open>Operations\<close>

definition fa_deposit_event :: "('h, 'd) fa_event \<Rightarrow> ('h, 'c, 'd, 'w) fa_state \<Rightarrow> ('h, 'c, 'd, 'w) fa_state" where
  "fa_deposit_event e s = s\<lparr>fa_events := fa_events s @ [e]\<rparr>"

definition has_ended :: "('h, 'c, 'd, 'w) fa_state \<Rightarrow> 'c MotionInfo \<Rightarrow> bool" where
  "has_ended s motion \<longleftrightarrow> block_number s \<ge> ends_block motion"

definition motion_remove :: "'h \<Rightarrow> ('h, 'c, 'd, 'w) fa_state \<Rightarrow> ('h, 'c, 'd, 'w) fa_state" where
  "motion_remove h s = fa_deposit_event (MotionRemoved h) (s\<lparr>Motions := (Motions s)(h := None)\<rparr>)"

text \<open>\<open>BoundedBTreeSet::try_insert\<close>: whether the element is new, unless a new element exceeds the bound.\<close>

definition try_insert :: "u32 \<Rightarrow> 'a \<Rightarrow> 'a set \<Rightarrow> ('a, bool \<times> 'a set) result" where
  "try_insert bound x A =
    (if card A < unat bound \<or> x \<in> A then Inr (x \<notin> A, insert x A) else Inl x)"

definition num_approvals :: "'c MotionInfo \<Rightarrow> u32" where
  "num_approvals motion = word_of_nat (card (approvals motion))"

definition motion_approve ::
  "('o, 'h, 'c, 'd, 'w) fa_config \<Rightarrow> 'o \<Rightarrow> 'c \<Rightarrow> ('h, 'c, 'd, 'w) fa_state
    \<Rightarrow> (fa_error \<times> fa_weight option, fa_weight \<times> ('h, 'c, 'd, 'w) fa_state) result" where
  "motion_approve cfg org c s =
    (case ensure_from_bodies (approval_bodies cfg) org of
       Inl _ \<Rightarrow> Inl (FaBadOrigin, None)
     | Inr auth_id \<Rightarrow>
        (let h = hash_of cfg c in
         case Motions s h of
           Some motion \<Rightarrow>
             (let total_approvals = num_approvals motion in
              if has_ended s motion then Inl (MotionHasEnded, Some W_motion_approve_ended)
              else case try_insert (MaxAuthorityBodies cfg) auth_id (approvals motion) of
                  Inr (True, A) \<Rightarrow>
                    Inr (W_motion_approve total_approvals,
                         fa_deposit_event (MotionApproved h auth_id)
                           (s\<lparr>Motions := (Motions s)(h \<mapsto> motion\<lparr>approvals := A\<rparr>)\<rparr>))
                | Inr (False, _) \<Rightarrow>
                    Inl (MotionAlreadyApproved, Some (W_motion_approve_already_approved total_approvals))
                | Inl _ \<Rightarrow> Inl (MotionApprovalExceedsBounds, Some W_motion_approve_exceeds_bounds))
         | None \<Rightarrow>
             (case try_insert (MaxAuthorityBodies cfg) auth_id {} of
                Inl _ \<Rightarrow> Inl (MotionApprovalExceedsBounds, Some W_motion_approve_exceeds_bounds)
              | Inr (_, A) \<Rightarrow>
                  Inr (W_motion_approve_new,
                       fa_deposit_event (MotionApproved h auth_id)
                         (s\<lparr>Motions := (Motions s)(h \<mapsto>
                             \<lparr>approvals = A,
                              ends_block = saturating_add (block_number s) (MotionDuration cfg),
                              call = c\<rparr>)\<rparr>)))))"

definition motion_revoke ::
  "('o, 'h, 'c, 'd, 'w) fa_config \<Rightarrow> 'o \<Rightarrow> 'h \<Rightarrow> ('h, 'c, 'd, 'w) fa_state
    \<Rightarrow> (fa_error \<times> fa_weight option, fa_weight \<times> ('h, 'c, 'd, 'w) fa_state) result" where
  "motion_revoke cfg org h s =
    (case ensure_from_bodies (revoke_bodies cfg) org of
       Inl _ \<Rightarrow> Inl (FaBadOrigin, None)
     | Inr auth_id \<Rightarrow>
        (case Motions s h of
           None \<Rightarrow> Inl (MotionNotFound, Some W_motion_revoke_not_found)
         | Some motion \<Rightarrow>
            (let initial_count = num_approvals motion in
             if has_ended s motion then Inl (MotionHasEnded, Some W_motion_revoke_ended)
             else if auth_id \<notin> approvals motion
             then Inl (MotionApprovalMissing, Some (W_motion_revoke_approval_missing initial_count))
             else
               (let motion' = motion\<lparr>approvals := approvals motion - {auth_id}\<rparr>;
                    s' = fa_deposit_event (MotionRevoked h auth_id)
                           (s\<lparr>Motions := (Motions s)(h \<mapsto> motion')\<rparr>)
                in if num_approvals motion' = 0
                   then Inr (W_motion_revoke_remove, motion_remove h s')
                   else Inr (W_motion_revoke initial_count, s')))))"

definition motion_close ::
  "('o, 'h, 'c, 'd, 'w) fa_config \<Rightarrow> 'o \<Rightarrow> 'h \<Rightarrow> weight \<Rightarrow> ('h, 'c, 'd, 'w) fa_state
    \<Rightarrow> (fa_error \<times> fa_weight option, fa_weight \<times> ('h, 'c, 'd, 'w) fa_state) result" where
  "motion_close cfg org h proposal_weight_bound s =
    (if \<not> is_signed cfg org then Inl (FaBadOrigin, None)
     else case Motions s h of
         None \<Rightarrow> Inl (MotionNotFound, Some W_motion_close_not_found)
       | Some motion \<Rightarrow>
          (if is_motion_approved cfg (num_approvals motion) then
             (let dispatch_weight = call_weight cfg (call motion) in
              if \<not> all_lte dispatch_weight proposal_weight_bound
              then Inl (MotionWeightBoundTooLow, Some W_motion_close_still_ongoing)
              else
                (let (motion_result, s') = storage_layer (dispatch cfg (call motion)) s
                 in Inr (W_motion_close_approved dispatch_weight,
                         motion_remove h
                           (fa_deposit_event (MotionDispatched h motion_result) s'))))
           else if \<not> has_ended s motion
           then Inl (MotionNotEnded, Some W_motion_close_still_ongoing)
           else Inr (W_motion_close_expired,
                     motion_remove h (fa_deposit_event (MotionExpired h) s))))"

section \<open>Runs of the pallet\<close>

text \<open>
  A dispatched motion runs with the root origin, which none of this pallet's
  calls accepts: it does not change the motions, the pallet's events or the
  block number.
\<close>

definition dispatch_isolated :: "('o, 'h, 'c, 'd, 'w) fa_config \<Rightarrow> bool" where
  "dispatch_isolated cfg \<longleftrightarrow>
    (\<forall>c s s'. dispatch cfg c s = Inr s' \<longrightarrow>
       Motions s' = Motions s \<and> fa_events s' = fa_events s \<and> block_number s' = block_number s)"

definition fa_init :: "('o, 'h, 'c, 'd, 'w) fa_config \<Rightarrow> ('h, 'c, 'd, 'w) fa_state \<Rightarrow> bool" where
  "fa_init cfg s \<longleftrightarrow> dispatch_isolated cfg \<and> Motions s = Map.empty \<and> fa_events s = []"

inductive fa_step ::
  "('o, 'h, 'c, 'd, 'w) fa_config \<Rightarrow> ('h, 'c, 'd, 'w) fa_state \<Rightarrow> ('h, 'c, 'd, 'w) fa_state \<Rightarrow> bool"
  for cfg :: "('o, 'h, 'c, 'd, 'w) fa_config" where
  step_approve: "motion_approve cfg org c s = Inr (w, s') \<Longrightarrow> fa_step cfg s s'"
| step_revoke: "motion_revoke cfg org h s = Inr (w, s') \<Longrightarrow> fa_step cfg s s'"
| step_close: "motion_close cfg org h b s = Inr (w, s') \<Longrightarrow> fa_step cfg s s'"
| step_block: "fa_step cfg s (s\<lparr>block_number := block_number s + 1\<rparr>)"
| step_other: "fa_step cfg s (s\<lparr>world := v\<rparr>)"

text \<open>
  The abstract view of the pallet: the bodies standing behind each motion, as
  the event log tells it.
\<close>

fun record_vote :: "('h, 'd) fa_event \<Rightarrow> ('h \<Rightarrow> u32 set) \<Rightarrow> 'h \<Rightarrow> u32 set" where
  "record_vote (MotionApproved h a) V = V(h := insert a (V h))"
| "record_vote (MotionRevoked h a) V = V(h := V h - {a})"
| "record_vote (MotionRemoved h) V = V(h := {})"
| "record_vote (MotionDispatched h r) V = V"
| "record_vote (MotionExpired h) V = V"

definition votes :: "('h, 'd) fa_event list \<Rightarrow> 'h \<Rightarrow> u32 set" where
  "votes es = fold record_vote es (\<lambda>_. {})"

definition stored_votes :: "('h, 'c, 'd, 'w) fa_state \<Rightarrow> 'h \<Rightarrow> u32 set" where
  "stored_votes s h = (case Motions s h of None \<Rightarrow> {} | Some m \<Rightarrow> approvals m)"

definition body_ids :: "'o authority_body list \<Rightarrow> u32 set" where
  "body_ids bs = pallet_index ` set bs"

definition motion_ok :: "('o, 'h, 'c, 'd, 'w) fa_config \<Rightarrow> 'h \<Rightarrow> 'c MotionInfo \<Rightarrow> bool" where
  "motion_ok cfg h m \<longleftrightarrow>
     approvals m \<noteq> {} \<and> approvals m \<subseteq> body_ids (approval_bodies cfg)
     \<and> card (approvals m) \<le> unat (MaxAuthorityBodies cfg) \<and> hash_of cfg (call m) = h"

definition motions_ok :: "('o, 'h, 'c, 'd, 'w) fa_config \<Rightarrow> ('h, 'c, 'd, 'w) fa_state \<Rightarrow> bool" where
  "motions_ok cfg s \<longleftrightarrow> (\<forall>h m. Motions s h = Some m \<longrightarrow> motion_ok cfg h m)"

definition fa_inv :: "('o, 'h, 'c, 'd, 'w) fa_config \<Rightarrow> ('h, 'c, 'd, 'w) fa_state \<Rightarrow> bool" where
  "fa_inv cfg s \<longleftrightarrow>
     dispatch_isolated cfg \<and> motions_ok cfg s \<and> stored_votes s = votes (fa_events s)"

section \<open>Lemmas\<close>

lemma ensure_from_bodies_in:
  "ensure_from_bodies bs org = Inr a \<Longrightarrow> a \<in> body_ids bs"
  by (induction bs) (auto simp: body_ensure_from_bodies_def body_ids_def split: if_splits)

lemma finite_body_ids [simp]: "finite (body_ids bs)"
  by (simp add: body_ids_def)

lemma motion_ok_finite: "motion_ok cfg h m \<Longrightarrow> finite (approvals m)"
  unfolding motion_ok_def by (meson finite_body_ids finite_subset)

lemma unat_num_approvals:
  "motion_ok cfg h m \<Longrightarrow> unat (num_approvals m) = card (approvals m)"
  by (auto simp: num_approvals_def motion_ok_def intro: unat_word_of_nat_le)

lemma votes_append: "votes (es @ es') = fold record_vote es' (votes es)"
  by (simp add: votes_def)

lemma stored_votes_ok:
  assumes "motions_ok cfg s"
  shows "finite (stored_votes s h)" "stored_votes s h \<subseteq> body_ids (approval_bodies cfg)"
proof -
  show sub: "stored_votes s h \<subseteq> body_ids (approval_bodies cfg)"
    using assms by (auto simp: motions_ok_def motion_ok_def stored_votes_def split: option.splits)
  then show "finite (stored_votes s h)"
    by (rule finite_subset) simp
qed

lemma fa_deposit_event_simps [simp]:
  "Motions (fa_deposit_event e s) = Motions s"
  "fa_events (fa_deposit_event e s) = fa_events s @ [e]"
  "block_number (fa_deposit_event e s) = block_number s"
  "world (fa_deposit_event e s) = world s"
  by (simp_all add: fa_deposit_event_def)

lemma motion_remove_simps [simp]:
  "Motions (motion_remove h s) = (Motions s)(h := None)"
  "fa_events (motion_remove h s) = fa_events s @ [MotionRemoved h]"
  "block_number (motion_remove h s) = block_number s"
  "world (motion_remove h s) = world s"
  by (simp_all add: motion_remove_def)

lemma stored_votes_upd:
  "Motions s' = (Motions s)(h := v) \<Longrightarrow>
   stored_votes s' = (stored_votes s)(h := case v of None \<Rightarrow> {} | Some m \<Rightarrow> approvals m)"
  by (auto simp: stored_votes_def fun_eq_iff)

text \<open>The successful outcomes of the three calls.\<close>

lemma motion_approve_Inr:
  assumes "motion_approve cfg org c s = Inr (w, s')"
  obtains a m where
    "ensure_from_bodies (approval_bodies cfg) org = Inr a"
    "a \<notin> stored_votes s (hash_of cfg c)"
    "card (insert a (stored_votes s (hash_of cfg c))) \<le> unat (MaxAuthorityBodies cfg)
       \<or> infinite (stored_votes s (hash_of cfg c))"
    "m = (case Motions s (hash_of cfg c) of
            None \<Rightarrow> \<lparr>approvals = {a}, ends_block = saturating_add (block_number s) (MotionDuration cfg), call = c\<rparr>
          | Some m0 \<Rightarrow> m0\<lparr>approvals := insert a (approvals m0)\<rparr>)"
    "s' = fa_deposit_event (MotionApproved (hash_of cfg c) a)
            (s\<lparr>Motions := (Motions s)(hash_of cfg c \<mapsto> m)\<rparr>)"
  using assms
  by (auto simp: motion_approve_def try_insert_def Let_def stored_votes_def card_insert_if
      split: sum.splits option.splits if_splits prod.splits bool.splits)

lemma motion_revoke_Inr:
  assumes "motion_revoke cfg org h s = Inr (w, s')"
  obtains a m m' where
    "ensure_from_bodies (revoke_bodies cfg) org = Inr a"
    "Motions s h = Some m" "\<not> has_ended s m" "a \<in> approvals m"
    "m' = m\<lparr>approvals := approvals m - {a}\<rparr>"
    "s' = (let s1 = fa_deposit_event (MotionRevoked h a) (s\<lparr>Motions := (Motions s)(h \<mapsto> m')\<rparr>)
           in if num_approvals m' = 0 then motion_remove h s1 else s1)"
  using assms
  by (auto simp: motion_revoke_def Let_def split: sum.splits option.splits if_splits)

lemma motion_close_Inr:
  assumes "motion_close cfg org h b s = Inr (w, s')"
  obtains (dispatched) m r s1 where
    "is_signed cfg org" "Motions s h = Some m" "is_motion_approved cfg (num_approvals m)"
    "w = W_motion_close_approved (call_weight cfg (call m))"
    "all_lte (call_weight cfg (call m)) b"
    "storage_layer (dispatch cfg (call m)) s = (r, s1)"
    "s' = motion_remove h (fa_deposit_event (MotionDispatched h r) s1)"
  | (expired) m where
    "is_signed cfg org" "Motions s h = Some m" "\<not> is_motion_approved cfg (num_approvals m)"
    "has_ended s m" "w = W_motion_close_expired"
    "s' = motion_remove h (fa_deposit_event (MotionExpired h) s)"
  using assms
  by (auto simp: motion_close_def Let_def split: option.splits if_splits prod.splits)

lemma storage_layer_isolated:
  assumes "dispatch_isolated cfg" "storage_layer (dispatch cfg c) s = (r, s1)"
  shows "Motions s1 = Motions s" "fa_events s1 = fa_events s" "block_number s1 = block_number s"
  using assms by (auto simp: dispatch_isolated_def storage_layer_def split: sum.splits)

lemma votes_of_stored:
  assumes "fa_inv cfg s" "Motions s h = Some m"
  shows "votes (fa_events s) h = approvals m"
proof -
  have "votes (fa_events s) h = stored_votes s h"
    using assms(1) by (simp add: fa_inv_def)
  then show ?thesis
    using assms(2) by (simp add: stored_votes_def)
qed

text \<open>Each call keeps the invariant.\<close>

lemma approve_inv:
  assumes inv: "fa_inv cfg s" and ok: "motion_approve cfg org c s = Inr (w, s')"
  shows "fa_inv cfg s'"
  using ok
proof (cases rule: motion_approve_Inr)
  case (1 a m)
  let ?h = "hash_of cfg c"
  have fin: "finite (stored_votes s ?h)" and sub: "stored_votes s ?h \<subseteq> body_ids (approval_bodies cfg)"
    using inv stored_votes_ok [of cfg s ?h] by (simp_all add: fa_inv_def)
  have mok: "motions_ok cfg s"
    using inv by (simp add: fa_inv_def)
  have m: "approvals m = insert a (stored_votes s ?h)" "hash_of cfg (call m) = ?h"
    using 1(4) mok by (auto simp: stored_votes_def motions_ok_def motion_ok_def split: option.splits)
  have "motion_ok cfg ?h m"
    using 1(1,3) m sub fin ensure_from_bodies_in by (auto simp: motion_ok_def)
  then have "motions_ok cfg s'"
    using inv 1(5) by (auto simp: motions_ok_def fa_inv_def)
  moreover have "stored_votes s' = votes (fa_events s')"
    using inv 1(5) m(1) stored_votes_upd [of s' s ?h "Some m"]
    by (simp add: votes_append fa_inv_def)
  ultimately show ?thesis
    using inv by (simp add: fa_inv_def)
qed

lemma revoke_inv:
  assumes inv: "fa_inv cfg s" and ok: "motion_revoke cfg org h s = Inr (w, s')"
  shows "fa_inv cfg s'"
  using ok
proof (cases rule: motion_revoke_Inr)
  case (1 a m m')
  have mok: "motion_ok cfg h m"
    using inv 1(2) by (simp add: fa_inv_def motions_ok_def)
  have less: "card (approvals m') \<le> card (approvals m)"
    using 1(5) motion_ok_finite [OF mok] by (simp add: card_mono)
  have cnt: "unat (num_approvals m') = card (approvals m')"
    using less mok unfolding num_approvals_def motion_ok_def
    by (intro unat_word_of_nat_le [of _ "MaxAuthorityBodies cfg"]) simp
  have empty: "num_approvals m' = 0 \<longleftrightarrow> approvals m' = {}"
    using cnt 1(5) motion_ok_finite [OF mok] by (simp flip: unat_eq_zero)
  have "motions_ok cfg s'"
    using inv 1(5,6) mok empty less
    by (auto simp: motions_ok_def fa_inv_def motion_ok_def Let_def)
  moreover have "stored_votes s' = votes (fa_events s')"
    using inv 1(5,6) empty votes_of_stored [OF inv 1(2)] stored_votes_upd [of s' s h "if approvals m' = {} then None else Some m'"]
    by (auto simp: votes_append fa_inv_def Let_def)
  ultimately show ?thesis
    using inv by (simp add: fa_inv_def)
qed

lemma close_inv:
  assumes inv: "fa_inv cfg s" and ok: "motion_close cfg org h b s = Inr (w, s')"
  shows "fa_inv cfg s'"
  using ok
proof (cases rule: motion_close_Inr)
  case (dispatched m r s1)
  note iso = storage_layer_isolated [OF _ dispatched(6)]
  show ?thesis
    using inv dispatched(7) iso
    by (auto simp: fa_inv_def motions_ok_def votes_append stored_votes_def fun_eq_iff)
next
  case (expired m)
  then show ?thesis
    using inv by (auto simp: fa_inv_def motions_ok_def votes_append stored_votes_def fun_eq_iff)
qed

lemma fa_step_inv:
  assumes "fa_inv cfg s" "fa_step cfg s s'"
  shows "fa_inv cfg s'"
  using assms(2)
proof (cases rule: fa_step.cases)
  case (step_approve org c w)
  then show ?thesis using assms(1) by (blast intro: approve_inv)
next
  case (step_revoke org h w)
  then show ?thesis using assms(1) by (blast intro: revoke_inv)
next
  case (step_close org h b w)
  then show ?thesis using assms(1) by (blast intro: close_inv)
qed (use assms(1) in \<open>auto simp: fa_inv_def motions_ok_def stored_votes_def fun_eq_iff\<close>)

interpretation fa: transition_invariant "fa_init cfg" "fa_step cfg" "fa_inv cfg"
proof unfold_locales
  show "fa_init cfg s \<Longrightarrow> fa_inv cfg s" for s
    by (auto simp: fa_init_def fa_inv_def motions_ok_def stored_votes_def votes_def)
qed (rule fa_step_inv)

section \<open>A concrete run\<close>

text \<open>
  Two bodies, indices 40 and 41, and three-argument runs: origin 1 and origin 2
  are the bodies' collectives, origin 7 is a signed account, call 0 fails and
  any other call writes itself into the rest of the storage.
\<close>

definition fa_ex_bodies :: "nat authority_body list" where
  "fa_ex_bodies = [\<lparr>try_origin = (\<lambda>org. org = 1), pallet_index = 40\<rparr>,
                   \<lparr>try_origin = (\<lambda>org. org = 2), pallet_index = 41\<rparr>]"

definition fa_ex_cfg :: "(nat, nat, nat, unit, nat) fa_config" where
  "fa_ex_cfg = \<lparr>MaxAuthorityBodies = 2, MotionDuration = 10, ProportionN = 1, ProportionD = 1,
     approval_bodies = fa_ex_bodies, revoke_bodies = fa_ex_bodies, is_signed = (\<lambda>org. org = 7),
     hash_of = (\<lambda>c. c + 100), call_weight = (\<lambda>_. \<lparr>ref_time = 5, proof_size = 5\<rparr>),
     dispatch = (\<lambda>c s. if c = 0 then Inl () else Inr (s\<lparr>world := c\<rparr>))\<rparr>"

definition fa_ex0 :: "(nat, nat, unit, nat) fa_state" where
  "fa_ex0 = \<lparr>Motions = Map.empty, fa_events = [], block_number = 3, world = 0\<rparr>"

definition fa_ex1 :: "(nat, nat, unit, nat) fa_state" where
  "fa_ex1 = \<lparr>Motions = [105 \<mapsto> \<lparr>approvals = {40}, ends_block = 13, call = 5\<rparr>],
     fa_events = [MotionApproved 105 40], block_number = 3, world = 0\<rparr>"

definition fa_ex2 :: "(nat, nat, unit, nat) fa_state" where
  "fa_ex2 = \<lparr>Motions = [105 \<mapsto> \<lparr>approvals = {41, 40}, ends_block = 13, call = 5\<rparr>],
     fa_events = [MotionApproved 105 40, MotionApproved 105 41], block_number = 3, world = 0\<rparr>"

definition fa_ex3 :: "(nat, nat, unit, nat) fa_state" where
  "fa_ex3 = \<lparr>Motions = Map.empty,
     fa_events = [MotionApproved 105 40, MotionApproved 105 41,
       MotionDispatched 105 (Inr ()), MotionRemoved 105], block_number = 3, world = 5\<rparr>"

lemmas fa_ex_defs = fa_ex_cfg_def fa_ex_bodies_def fa_ex0_def fa_ex1_def fa_ex2_def fa_ex3_def

lemma fa_ex_isolated: "dispatch_isolated fa_ex_cfg"
  by (auto simp: dispatch_isolated_def fa_ex_cfg_def split: if_splits)

lemma fa_ex_step1: "motion_approve fa_ex_cfg 1 5 fa_ex0 = Inr (W_motion_approve_new, fa_ex1)"
  by (simp add: motion_approve_def fa_ex_defs body_ensure_from_bodies_def try_insert_def
      fa_deposit_event_def saturating_add_def)

lemma fa_ex_step2: "motion_approve fa_ex_cfg 2 5 fa_ex1 = Inr (W_motion_approve 1, fa_ex2)"
  by (simp add: motion_approve_def fa_ex_defs body_ensure_from_bodies_def try_insert_def
      fa_deposit_event_def has_ended_def num_approvals_def)

lemma fa_ex_step3:
  "motion_close fa_ex_cfg 7 105 \<lparr>ref_time = 9, proof_size = 9\<rparr> fa_ex2 =
    Inr (W_motion_close_approved \<lparr>ref_time = 5, proof_size = 5\<rparr>, fa_ex3)"
  by (simp add: motion_close_def fa_ex_defs is_motion_approved_def reached_proportion_def
      num_approvals_def all_lte_def storage_layer_def motion_remove_def fa_deposit_event_def)

lemma fa_ex_reachable: "reachable (fa_init fa_ex_cfg) (fa_step fa_ex_cfg) fa_ex2"
proof -
  have "fa_init fa_ex_cfg fa_ex0"
    using fa_ex_isolated by (simp add: fa_init_def fa_ex0_def)
  then show ?thesis
    using fa_ex_step1 fa_ex_step2 by (meson reachable.intros fa_step.intros)
qed

section \<open>Properties\<close>

text \<open>
  C27: in every state the pallet can reach, each stored motion has at least one
  approval, at most \<open>MaxAuthorityBodies\<close> of them, all from configured bodies,
  and is stored under the hash of its own call; and the approvals in storage
  are exactly those the event log records as given and not withdrawn.
\<close>

theorem motions_match_event_log:
  assumes "reachable (fa_init cfg) (fa_step cfg) s"
  shows "motions_ok cfg s \<and> stored_votes s h = votes (fa_events s) h"
proof -
  have "fa_inv cfg s"
    using assms by (rule fa.reachable_inv)
  then show ?thesis
    by (simp add: fa_inv_def)
qed

text \<open>
  C28: with the runtime's one-to-one proportion and no more bodies than
  \<open>MaxAuthorityBodies\<close>, a motion is dispatched only when every configured body
  has a recorded approval that it has not withdrawn.
\<close>

theorem dispatch_needs_every_body:
  assumes "reachable (fa_init cfg) (fa_step cfg) s"
    and "ProportionN cfg = 1" "ProportionD cfg = 1"
    and "card (body_ids (approval_bodies cfg)) \<le> unat (MaxAuthorityBodies cfg)"
    and "motion_close cfg org h b s = Inr (W_motion_close_approved w, s')"
  shows "votes (fa_events s) h = body_ids (approval_bodies cfg)"
  using assms(5)
proof (cases rule: motion_close_Inr)
  case (dispatched m r s1)
  have inv: "fa_inv cfg s"
    using assms(1) by (rule fa.reachable_inv)
  then have mok: "motion_ok cfg h m"
    using dispatched(2) by (simp add: fa_inv_def motions_ok_def)
  have "unat (MaxAuthorityBodies cfg) \<le> card (approvals m)"
    using dispatched(3) assms(2,3) unat_num_approvals [OF mok]
    by (simp add: is_motion_approved_def reached_proportion_def word_le_nat_alt)
  with assms(4) mok have "approvals m = body_ids (approval_bodies cfg)"
    by (intro card_seteq) (simp_all add: motion_ok_def)
  then show ?thesis
    using votes_of_stored [OF inv dispatched(2)] by simp
qed simp

text \<open>
  closing a motion removes it and only it, whatever the dispatch returns.
  The storage of the rest of the runtime is the dispatch's when the motion is
  approved and its dispatch succeeds, and is untouched when the dispatch fails
  or the motion expired.
\<close>

lemma motion_close_effect:
  assumes "dispatch_isolated cfg" "motion_close cfg org h b s = Inr (w, s')"
  shows "\<exists>m. Motions s h = Some m \<and> Motions s' = (Motions s)(h := None) \<and>
    (if is_motion_approved cfg (num_approvals m)
     then (case dispatch cfg (call m) s of
             Inr s1 \<Rightarrow> world s' = world s1
               \<and> fa_events s' = fa_events s @ [MotionDispatched h (Inr ()), MotionRemoved h]
           | Inl e \<Rightarrow> world s' = world s
               \<and> fa_events s' = fa_events s @ [MotionDispatched h (Inl e), MotionRemoved h])
     else has_ended s m \<and> world s' = world s
       \<and> fa_events s' = fa_events s @ [MotionExpired h, MotionRemoved h])"
  using assms(2)
proof (cases rule: motion_close_Inr)
  case (dispatched m r s1)
  note iso = storage_layer_isolated [OF assms(1) dispatched(6)]
  show ?thesis
  proof (cases "dispatch cfg (call m) s")
    case (Inl e)
    then have "r = Inl e" "s1 = s"
      using dispatched(6) by (simp_all add: storage_layer_def)
    then show ?thesis
      using dispatched(2,3,7) Inl by simp
  next
    case (Inr s2)
    then have "r = Inr ()" "s1 = s2"
      using dispatched(6) by (simp_all add: storage_layer_def)
    then show ?thesis
      using dispatched(2,3,7) Inr iso by simp
  qed
qed simp

text \<open>
  an approval can be taken back: if a body approves a motion and revokes
  it in the same block, before the motion ends, the stored motions are the
  same as before the approval.
\<close>

lemma approve_then_revoke:
  assumes "fa_inv cfg s"
    and "ensure_from_bodies (revoke_bodies cfg) org' = ensure_from_bodies (approval_bodies cfg) org"
    and "motion_approve cfg org c s = Inr (w, s')"
    and "0 < unat (saturating_add (block_number s) (MotionDuration cfg)) - unat (block_number s)"
  shows "\<exists>w' s''. motion_revoke cfg org' (hash_of cfg c) s' = Inr (w', s'') \<and> Motions s'' = Motions s"
  using assms(3)
proof (cases rule: motion_approve_Inr)
  case (1 a m)
  let ?h = "hash_of cfg c" and ?m' = "m\<lparr>approvals := approvals m - {a}\<rparr>"
  have open_: "\<not> has_ended s' m"
    using assms(3,4) 1(1,4,5)
    by (auto simp: has_ended_def word_le_nat_alt motion_approve_def Let_def
        split: option.splits if_splits)
  show ?thesis
  proof (cases "Motions s ?h")
    case None
    then have m: "m = \<lparr>approvals = {a}, ends_block = saturating_add (block_number s) (MotionDuration cfg), call = c\<rparr>"
      using 1(4) by simp
    have "num_approvals ?m' = 0"
      by (simp add: m num_approvals_def)
    then show ?thesis
      using open_ 1(1,5) assms(2) None m
      by (auto simp: motion_revoke_def Let_def fun_eq_iff)
  next
    case (Some m0)
    then have m: "m = m0\<lparr>approvals := insert a (approvals m0)\<rparr>" and fresh: "a \<notin> approvals m0"
      using 1(2,4) by (simp_all add: stored_votes_def)
    have mok: "motion_ok cfg ?h m0"
      using assms(1) Some by (simp add: fa_inv_def motions_ok_def)
    have same: "?m' = m0"
      using m fresh by simp
    have "unat (num_approvals m0) \<noteq> 0"
      using unat_num_approvals [OF mok] mok motion_ok_finite [OF mok] by (simp add: motion_ok_def)
    then show ?thesis
      using open_ 1(1,5) assms(2) Some same m
      by (auto simp: motion_revoke_def Let_def fun_eq_iff)
  qed
qed

theorem motions_match_event_log_witness:
  "reachable (fa_init fa_ex_cfg) (fa_step fa_ex_cfg) fa_ex2 \<and> motions_ok fa_ex_cfg fa_ex2
   \<and> stored_votes fa_ex2 105 = votes (fa_events fa_ex2) 105 \<and> 41 \<in> votes (fa_events fa_ex2) 105"
  using motions_match_event_log [OF fa_ex_reachable, of 105] fa_ex_reachable
  by (simp add: votes_def fa_ex2_def)

theorem dispatch_needs_every_body_witness:
  "votes (fa_events fa_ex2) 105 = {40, 41}
   \<and> motion_close fa_ex_cfg 7 105 \<lparr>ref_time = 9, proof_size = 9\<rparr> fa_ex2 =
      Inr (W_motion_close_approved \<lparr>ref_time = 5, proof_size = 5\<rparr>, fa_ex3)"
  using dispatch_needs_every_body [OF fa_ex_reachable _ _ _ fa_ex_step3] fa_ex_step3
  by (simp add: fa_ex_cfg_def fa_ex_bodies_def body_ids_def)

lemma motion_close_effect_example:
  "Motions fa_ex3 = (Motions fa_ex2)(105 := None) \<and> world fa_ex3 = 5"
  using motion_close_effect [OF fa_ex_isolated fa_ex_step3]
  by (auto simp: fa_ex3_def simp del: fun_upd_apply)

lemma approve_then_revoke_example:
  "\<exists>w s. motion_revoke fa_ex_cfg 2 105 fa_ex2 = Inr (w, s) \<and> Motions s = Motions fa_ex1"
proof -
  have "fa_inv fa_ex_cfg fa_ex1"
    using fa_ex_isolated
    by (auto simp: fa_inv_def motions_ok_def motion_ok_def fa_ex_cfg_def fa_ex_bodies_def
        body_ids_def fa_ex1_def stored_votes_def votes_def fun_eq_iff)
  moreover have "hash_of fa_ex_cfg 5 = 105"
    by (simp add: fa_ex_cfg_def)
  ultimately show ?thesis
    using approve_then_revoke [OF _ _ fa_ex_step2, of 2]
    by (simp add: fa_ex_cfg_def fa_ex1_def saturating_add_def)
qed

end
