(* ===== verification/Throttle.thy ===== *)
theory Throttle
  imports Prelude
begin

text \<open>
  The throttle pallet (\<open>pallets/throttle/src\<close>): a transaction extension that
  limits the bytes and the number of transactions a signed account submits in
  a window of blocks.  \<open>validate\<close> reads the account's usage and rejects,
  \<open>prepare\<close> records the usage when the transaction is executed in a block.

  The window is the one the code keeps per account: it starts at the first
  transaction after the previous window expired.
\<close>

section \<open>Data\<close>

record UsageStats =
  bytes_used :: u64
  txs_used :: u64
  window_start :: u32

record throttle_config =
  MaxBytes :: u64
  MaxTxs :: u64
  WindowSize :: u32

record 'a throttle_state =
  AccountUsage :: "'a \<Rightarrow> UsageStats"
  current_block :: u32

datatype validity_error = ExhaustsResources

section \<open>Operations\<close>

definition UsageStats_default :: UsageStats where
  "UsageStats_default = \<lparr>bytes_used = 0, txs_used = 0, window_start = 0\<rparr>"

definition window_expired :: "throttle_config \<Rightarrow> u32 \<Rightarrow> UsageStats \<Rightarrow> bool" where
  "window_expired cfg now usage \<longleftrightarrow> saturating_sub now (window_start usage) \<ge> WindowSize cfg"

definition validate ::
  "throttle_config \<Rightarrow> 'a option \<Rightarrow> u64 \<Rightarrow> 'a throttle_state \<Rightarrow> (validity_error, 'a option) result" where
  "validate cfg signer len s =
    (case signer of
       None \<Rightarrow> Inr None
     | Some who \<Rightarrow>
        (let usage = AccountUsage s who;
             (effective_bytes, effective_txs) =
               (if window_expired cfg (current_block s) usage then (0, 0)
                else (bytes_used usage, txs_used usage))
         in if saturating_add effective_bytes len > MaxBytes cfg then Inl ExhaustsResources
            else if saturating_add effective_txs 1 > MaxTxs cfg then Inl ExhaustsResources
            else Inr (Some who)))"

definition charge_usage :: "throttle_config \<Rightarrow> u32 \<Rightarrow> u64 \<Rightarrow> UsageStats \<Rightarrow> UsageStats" where
  "charge_usage cfg now len usage =
    (let usage = (if window_expired cfg now usage
                  then usage\<lparr>bytes_used := 0, txs_used := 0, window_start := now\<rparr> else usage)
     in usage\<lparr>bytes_used := saturating_add (bytes_used usage) len,
              txs_used := saturating_add (txs_used usage) 1\<rparr>)"

definition prepare :: "throttle_config \<Rightarrow> 'a option \<Rightarrow> u64 \<Rightarrow> 'a throttle_state \<Rightarrow> 'a throttle_state" where
  "prepare cfg val len s =
    (case val of
       None \<Rightarrow> s
     | Some who \<Rightarrow>
         s\<lparr>AccountUsage := (AccountUsage s)
             (who := charge_usage cfg (current_block s) len (AccountUsage s who))\<rparr>)"

definition throttle_upgrade_v1 :: "'a throttle_state \<Rightarrow> 'a throttle_state" where
  "throttle_upgrade_v1 s = s\<lparr>AccountUsage := (\<lambda>_. UsageStats_default)\<rparr>"

section \<open>Runs\<close>

text \<open>
  A run records every accepted submission of a signed account: who, in which
  block, and its length.
\<close>

type_synonym 'a submissions = "('a \<times> nat \<times> nat) list"

inductive throttle_step ::
  "throttle_config \<Rightarrow> 'a throttle_state \<times> 'a submissions \<Rightarrow> 'a throttle_state \<times> 'a submissions \<Rightarrow> bool"
  for cfg :: throttle_config where
  th_signed: "validate cfg (Some who) len s = Inr val \<Longrightarrow>
    throttle_step cfg (s, log) (prepare cfg val len s, (who, unat (current_block s), unat len) # log)"
| th_unsigned: "validate cfg None len s = Inr val \<Longrightarrow>
    throttle_step cfg (s, log) (prepare cfg val len s, log)"
| th_block: "unat (current_block s) < unat n \<Longrightarrow>
    throttle_step cfg (s, log) (s\<lparr>current_block := n\<rparr>, log)"

definition throttle_config_ok :: "throttle_config \<Rightarrow> bool" where
  "throttle_config_ok cfg \<longleftrightarrow> 0 < WindowSize cfg \<and> MaxBytes cfg < - 1 \<and> MaxTxs cfg < - 1"

definition throttle_init :: "throttle_config \<Rightarrow> 'a throttle_state \<times> 'a submissions \<Rightarrow> bool" where
  "throttle_init cfg p \<longleftrightarrow>
     throttle_config_ok cfg \<and> AccountUsage (fst p) = (\<lambda>_. UsageStats_default) \<and> snd p = []"

text \<open>What an account submitted in the blocks from \<open>lo\<close> up to but not including \<open>hi\<close>.\<close>

definition bytes_of :: "'a submissions \<Rightarrow> 'a \<Rightarrow> (nat \<times> nat) list" where
  "bytes_of log who = map snd (filter (\<lambda>x. fst x = who) log)"

definition txs_of :: "'a submissions \<Rightarrow> 'a \<Rightarrow> (nat \<times> nat) list" where
  "txs_of log who = map (\<lambda>(b, _). (b, 1)) (bytes_of log who)"

definition cost_in :: "(nat \<times> nat) list \<Rightarrow> nat \<Rightarrow> nat \<Rightarrow> nat" where
  "cost_in log lo hi = sum_list (map snd (filter (\<lambda>(b, _). lo \<le> b \<and> b < hi) log))"

text \<open>The invariant of one meter: a counter and a window start against its log of costs.\<close>

definition meter_inv :: "nat \<Rightarrow> nat \<Rightarrow> nat \<Rightarrow> nat \<Rightarrow> (nat \<times> nat) list \<Rightarrow> bool" where
  "meter_inv W limit used ws log \<longleftrightarrow>
     (\<forall>(b, _) \<in> set log. b < ws + W) \<and> used = cost_in log ws (ws + W) \<and> used \<le> limit
     \<and> cost_in log (ws + 1 - W) ws \<le> limit \<and> (\<forall>b. cost_in log b (b + W) \<le> 2 * limit)"

definition throttle_inv :: "throttle_config \<Rightarrow> 'a throttle_state \<times> 'a submissions \<Rightarrow> bool" where
  "throttle_inv cfg p \<longleftrightarrow> throttle_config_ok cfg \<and>
     (\<forall>who. let u = AccountUsage (fst p) who in
        unat (window_start u) \<le> unat (current_block (fst p)) \<and>
        meter_inv (unat (WindowSize cfg)) (unat (MaxBytes cfg)) (unat (bytes_used u))
          (unat (window_start u)) (bytes_of (snd p) who) \<and>
        meter_inv (unat (WindowSize cfg)) (unat (MaxTxs cfg)) (unat (txs_used u))
          (unat (window_start u)) (txs_of (snd p) who))"

section \<open>Lemmas on meters\<close>

lemma cost_in_Nil [simp]: "cost_in [] lo hi = 0"
  by (simp add: cost_in_def)

lemma cost_in_Cons:
  "cost_in ((b, c) # log) lo hi = (if lo \<le> b \<and> b < hi then c else 0) + cost_in log lo hi"
  by (simp add: cost_in_def)

lemma cost_in_mono: "lo' \<le> lo \<Longrightarrow> hi \<le> hi' \<Longrightarrow> cost_in log lo hi \<le> cost_in log lo' hi'"
  by (induction log) (auto simp: cost_in_Cons)

lemma cost_in_split: "lo \<le> mid \<Longrightarrow> mid \<le> hi \<Longrightarrow> cost_in log lo hi = cost_in log lo mid + cost_in log mid hi"
  by (induction log) (auto simp: cost_in_Cons)

lemma cost_in_beyond:
  "\<forall>(b, _) \<in> set log. b < hi \<Longrightarrow> cost_in log lo hi' \<le> cost_in log lo hi"
  by (induction log) (auto simp: cost_in_Cons)

lemma cost_in_zero: "\<forall>(b, _) \<in> set log. b < lo \<Longrightarrow> cost_in log lo hi = 0"
  by (induction log) (auto simp: cost_in_Cons)

lemma meter_inv_empty: "0 < W \<Longrightarrow> meter_inv W limit 0 ws []"
  by (simp add: meter_inv_def)

lemma meter_inv_charge:
  assumes inv: "meter_inv W limit used ws log" and n: "ws \<le> n" "n < ws + W"
    and lim: "used + c \<le> limit"
  shows "meter_inv W limit (used + c) ws ((n, c) # log)"
proof -
  have span: "cost_in ((n, c) # log) b (b + W) \<le> 2 * limit" for b
  proof (cases "b \<le> n \<and> n < b + W")
    case True
    have "cost_in log b (b + W) \<le> cost_in log (ws + 1 - W) ws + cost_in log ws (ws + W)"
    proof (cases "b \<le> ws")
      case True
      then have "cost_in log b (b + W) = cost_in log b ws + cost_in log ws (b + W)"
        using \<open>b \<le> n \<and> n < b + W\<close> n by (intro cost_in_split) auto
      moreover have "cost_in log b ws \<le> cost_in log (ws + 1 - W) ws"
        using \<open>b \<le> n \<and> n < b + W\<close> n by (intro cost_in_mono) auto
      moreover have "cost_in log ws (b + W) \<le> cost_in log ws (ws + W)"
        using True by (intro cost_in_mono) auto
      ultimately show ?thesis by simp
    next
      case False
      then have "cost_in log b (b + W) \<le> cost_in log ws (b + W)"
        by (intro cost_in_mono) auto
      also have "\<dots> \<le> cost_in log ws (ws + W)"
        using inv by (intro cost_in_beyond) (auto simp: meter_inv_def)
      finally show ?thesis by simp
    qed
    then show ?thesis
      using inv lim by (auto simp: meter_inv_def cost_in_Cons)
  next
    case False
    then show ?thesis
      using inv by (auto simp: meter_inv_def cost_in_Cons)
  qed
  show ?thesis
    using inv n lim span unfolding meter_inv_def by (auto simp: cost_in_Cons)
qed

lemma meter_inv_restart:
  assumes inv: "meter_inv W limit used ws log" and n: "ws + W \<le> n" and W: "0 < W"
    and lim: "c \<le> limit"
  shows "meter_inv W limit c n ((n, c) # log)"
proof -
  have old: "cost_in log b hi \<le> limit" if "ws \<le> b" for b hi
  proof -
    have "cost_in log b hi \<le> cost_in log ws hi"
      using that by (intro cost_in_mono) auto
    also have "\<dots> \<le> cost_in log ws (ws + W)"
      using inv by (intro cost_in_beyond) (auto simp: meter_inv_def)
    finally show ?thesis
      using inv by (simp add: meter_inv_def)
  qed
  have none: "cost_in log n (n + W) = 0"
    using inv n by (intro cost_in_zero) (auto simp: meter_inv_def)
  have span: "cost_in ((n, c) # log) b (b + W) \<le> 2 * limit" for b
  proof (cases "b \<le> n \<and> n < b + W")
    case True
    then show ?thesis
      using old [of b "b + W"] n lim by (auto simp: cost_in_Cons)
  next
    case False
    then show ?thesis
      using inv by (auto simp: meter_inv_def cost_in_Cons)
  qed
  show ?thesis
    using inv n W lim none span old [of "n + 1 - W" n] unfolding meter_inv_def
    by (auto simp: cost_in_Cons)
qed

section \<open>The pallet against its meters\<close>

lemma window_expired_nat:
  "window_expired cfg now u \<longleftrightarrow> unat (WindowSize cfg) \<le> unat now - unat (window_start u)"
  by (simp add: window_expired_def word_le_nat_alt unat_saturating_sub)

text \<open>An accepted transaction fits under both limits, so that nothing saturates.\<close>

lemma validate_accepts:
  assumes "validate cfg (Some who) len s = Inr val" "throttle_config_ok cfg"
  defines "u \<equiv> AccountUsage s who"
  defines "fresh \<equiv> window_expired cfg (current_block s) u"
  shows "val = Some who"
    and "(if fresh then 0 else unat (bytes_used u)) + unat len \<le> unat (MaxBytes cfg)"
    and "(if fresh then 0 else unat (txs_used u)) + 1 \<le> unat (MaxTxs cfg)"
proof -
  have ok: "val = Some who"
    "saturating_add (if fresh then 0 else bytes_used u) len \<le> MaxBytes cfg"
    "saturating_add (if fresh then 0 else txs_used u) 1 \<le> MaxTxs cfg"
    using assms(1) unfolding u_def fresh_def
    by (auto simp: validate_def Let_def not_less split: if_splits prod.splits)
  note le = saturating_add_le_iff [of "MaxBytes cfg"] saturating_add_le_iff [of "MaxTxs cfg"]
  show "val = Some who"
    by (fact ok(1))
  show "(if fresh then 0 else unat (bytes_used u)) + unat len \<le> unat (MaxBytes cfg)"
    using ok(2) assms(2) by (auto simp: le throttle_config_ok_def split: if_splits)
  show "(if fresh then 0 else unat (txs_used u)) + 1 \<le> unat (MaxTxs cfg)"
    using ok(3) assms(2) by (auto simp: le throttle_config_ok_def split: if_splits)
qed

lemma charge_usage_nat:
  assumes "(if window_expired cfg now u then 0 else unat (bytes_used u)) + unat len \<le> unat (MaxBytes cfg)"
    and "(if window_expired cfg now u then 0 else unat (txs_used u)) + 1 \<le> unat (MaxTxs cfg)"
  shows "unat (bytes_used (charge_usage cfg now len u)) =
      (if window_expired cfg now u then 0 else unat (bytes_used u)) + unat len"
    and "unat (txs_used (charge_usage cfg now len u)) =
      (if window_expired cfg now u then 0 else unat (txs_used u)) + 1"
    and "window_start (charge_usage cfg now len u) =
      (if window_expired cfg now u then now else window_start u)"
proof -
  note exact = saturating_add_exact [of _ len "MaxBytes cfg"] saturating_add_exact [of _ 1 "MaxTxs cfg"]
  show "unat (bytes_used (charge_usage cfg now len u)) =
      (if window_expired cfg now u then 0 else unat (bytes_used u)) + unat len"
    using assms(1) by (auto simp: charge_usage_def exact saturating_add_0)
  show "unat (txs_used (charge_usage cfg now len u)) =
      (if window_expired cfg now u then 0 else unat (txs_used u)) + 1"
    using assms(2) by (auto simp: charge_usage_def exact saturating_add_0)
  show "window_start (charge_usage cfg now len u) =
      (if window_expired cfg now u then now else window_start u)"
    by (simp add: charge_usage_def)
qed

lemma bytes_of_Cons: "bytes_of ((a, b, l) # log) who = (if a = who then [(b, l)] else []) @ bytes_of log who"
  by (simp add: bytes_of_def)

lemma txs_of_Cons: "txs_of ((a, b, l) # log) who = (if a = who then [(b, 1)] else []) @ txs_of log who"
  by (simp add: txs_of_def bytes_of_Cons)

lemma meter_step:
  assumes "meter_inv W limit used ws log" "0 < W" "ws \<le> now"
    and "(if W \<le> now - ws then 0 else used) + c \<le> limit"
  shows "meter_inv W limit ((if W \<le> now - ws then 0 else used) + c)
           (if W \<le> now - ws then now else ws) ((now, c) # log)"
proof (cases "W \<le> now - ws")
  case True
  then show ?thesis
    using assms meter_inv_restart [OF assms(1), of now c] by simp
next
  case False
  then show ?thesis
    using assms meter_inv_charge [OF assms(1), of now c] by simp
qed

lemma throttle_invD:
  assumes "throttle_inv cfg (s, log)"
  defines "u \<equiv> AccountUsage s"
  shows "unat (window_start (u who)) \<le> unat (current_block s)"
    and "meter_inv (unat (WindowSize cfg)) (unat (MaxBytes cfg)) (unat (bytes_used (u who)))
      (unat (window_start (u who))) (bytes_of log who)"
    and "meter_inv (unat (WindowSize cfg)) (unat (MaxTxs cfg)) (unat (txs_used (u who)))
      (unat (window_start (u who))) (txs_of log who)"
  using assms by (auto simp: throttle_inv_def Let_def)

lemma throttle_signed_inv:
  assumes inv: "throttle_inv cfg (s, log)" and ok: "validate cfg (Some who) len s = Inr val"
  shows "throttle_inv cfg (prepare cfg val len s, (who, unat (current_block s), unat len) # log)"
proof -
  let ?u = "AccountUsage s who" and ?now = "current_block s" and ?W = "unat (WindowSize cfg)"
  have cfg: "throttle_config_ok cfg" and W: "0 < ?W"
    using inv by (auto simp: throttle_inv_def throttle_config_ok_def word_less_nat_alt)
  note acc = validate_accepts [OF ok cfg] and chg = charge_usage_nat [OF acc(2,3)]
  have start: "unat (window_start ?u) \<le> unat ?now"
    and bytes: "meter_inv ?W (unat (MaxBytes cfg)) (unat (bytes_used ?u)) (unat (window_start ?u)) (bytes_of log who)"
    and txs: "meter_inv ?W (unat (MaxTxs cfg)) (unat (txs_used ?u)) (unat (window_start ?u)) (txs_of log who)"
    using throttle_invD [OF inv] by auto
  let ?u' = "charge_usage cfg ?now len ?u"
  have bytes': "meter_inv ?W (unat (MaxBytes cfg)) (unat (bytes_used ?u')) (unat (window_start ?u'))
      ((unat ?now, unat len) # bytes_of log who)"
    using meter_step [OF bytes W start, of "unat len"] acc(2) chg
    by (simp add: window_expired_nat split: if_splits)
  have txs': "meter_inv ?W (unat (MaxTxs cfg)) (unat (txs_used ?u')) (unat (window_start ?u'))
      ((unat ?now, 1) # txs_of log who)"
    using meter_step [OF txs W start, of 1] acc(3) chg
    by (simp add: window_expired_nat split: if_splits)
  show ?thesis
    using inv acc(1) bytes' txs' chg(3) start
    by (auto simp: throttle_inv_def prepare_def Let_def bytes_of_Cons txs_of_Cons)
qed

lemma throttle_step_inv:
  assumes "throttle_inv cfg p" "throttle_step cfg p p'"
  shows "throttle_inv cfg p'"
  using assms(2)
proof (cases rule: throttle_step.cases)
  case (th_signed who len s val log)
  then show ?thesis
    using assms(1) throttle_signed_inv by simp
next
  case (th_unsigned len s val log)
  then show ?thesis
    using assms(1) by (simp add: validate_def prepare_def)
next
  case (th_block s n log)
  then show ?thesis
    using assms(1) by (simp add: throttle_inv_def Let_def) (meson less_imp_le order.trans)
qed

interpretation th: transition_invariant "throttle_init cfg" "throttle_step cfg" "throttle_inv cfg"
proof unfold_locales
  show "throttle_init cfg p \<Longrightarrow> throttle_inv cfg p" for p :: "'a throttle_state \<times> 'a submissions"
    by (auto simp: throttle_init_def throttle_inv_def throttle_config_ok_def UsageStats_default_def
        bytes_of_def txs_of_def Let_def word_less_nat_alt intro: meter_inv_empty)
qed (rule throttle_step_inv)

section \<open>A concrete run\<close>

text \<open>
  A window of ten blocks and a limit of a hundred bytes: an account fills its
  first window in block 9 and starts the next one in block 10.
\<close>

definition th_ex_cfg :: throttle_config where
  "th_ex_cfg = \<lparr>MaxBytes = 100, MaxTxs = 5, WindowSize = 10\<rparr>"

definition th_ex0 :: "nat throttle_state" where
  "th_ex0 = \<lparr>AccountUsage = (\<lambda>_. UsageStats_default), current_block = 9\<rparr>"

definition th_ex1 :: "nat throttle_state" where
  "th_ex1 = prepare th_ex_cfg (Some 1) 100 th_ex0"

definition th_ex2 :: "nat throttle_state" where
  "th_ex2 = prepare th_ex_cfg (Some 1) 100 (th_ex1\<lparr>current_block := 10\<rparr>)"

definition th_ex_log :: "nat submissions" where
  "th_ex_log = [(1, 10, 100), (1, 9, 100)]"

lemmas th_ex_defs = th_ex_cfg_def th_ex0_def th_ex1_def prepare_def charge_usage_def
  window_expired_def saturating_sub_def saturating_add_def UsageStats_default_def

lemma th_ex_reachable: "reachable (throttle_init th_ex_cfg) (throttle_step th_ex_cfg) (th_ex2, th_ex_log)"
proof -
  have "throttle_init th_ex_cfg (th_ex0, [])"
    by (simp add: throttle_init_def throttle_config_ok_def th_ex_cfg_def th_ex0_def)
  moreover have "throttle_step th_ex_cfg (th_ex0, []) (th_ex1, [(1, 9, 100)])"
  proof -
    have "validate th_ex_cfg (Some 1) 100 th_ex0 = Inr (Some 1)"
      by (simp add: validate_def th_ex_defs)
    from th_signed [OF this, of "[]"] show ?thesis
      by (simp add: th_ex1_def) (simp add: th_ex0_def)
  qed
  moreover have "throttle_step th_ex_cfg (th_ex1, [(1, 9, 100)]) (th_ex1\<lparr>current_block := 10\<rparr>, [(1, 9, 100)])"
    by (rule th_block) (simp add: th_ex_defs)
  moreover have "throttle_step th_ex_cfg (th_ex1\<lparr>current_block := 10\<rparr>, [(1, 9, 100)]) (th_ex2, th_ex_log)"
  proof -
    have "validate th_ex_cfg (Some 1) 100 (th_ex1\<lparr>current_block := 10\<rparr>) = Inr (Some 1)"
      by (simp add: validate_def th_ex_defs)
    from th_signed [OF this, of "[(1, 9, 100)]"] show ?thesis
      by (simp add: th_ex2_def th_ex_log_def)
  qed
  ultimately show ?thesis
    by (meson reachable.intros)
qed

text \<open>
  The limit is not one of a rolling window: the run above carries twice the
  limit in two consecutive blocks.
\<close>

lemma rolling_window_exceeded:
  "reachable (throttle_init th_ex_cfg) (throttle_step th_ex_cfg) (th_ex2, th_ex_log)
   \<and> cost_in (bytes_of th_ex_log 1) 9 11 = 2 * unat (MaxBytes th_ex_cfg)"
  using th_ex_reachable by (simp add: th_ex_log_def th_ex_cfg_def bytes_of_def cost_in_def)

section \<open>Properties\<close>



text \<open>
  no account is locked out: once its window is \<open>WindowSize\<close> blocks old, a
  transaction within the byte limit is accepted again, and its usage starts
  afresh in a window that opens at the current block.
\<close>

lemma throttle_recovers:
  assumes "unat (window_start (AccountUsage s who)) + unat (WindowSize cfg) \<le> unat (current_block s)"
    and "len \<le> MaxBytes cfg" "1 \<le> MaxTxs cfg"
  shows "validate cfg (Some who) len s = Inr (Some who)
    \<and> AccountUsage (prepare cfg (Some who) len s) = (AccountUsage s)
        (who := \<lparr>bytes_used = len, txs_used = 1, window_start = current_block s\<rparr>)"
proof -
  have fresh: "window_expired cfg (current_block s) (AccountUsage s who)"
    using assms(1) by (simp add: window_expired_nat)
  show ?thesis
    using fresh assms(2,3)
    by (auto simp: validate_def prepare_def charge_usage_def Let_def saturating_add_0)
qed

lemma throttle_recovers_example:
  "validate th_ex_cfg (Some 1) 60 (th_ex2\<lparr>current_block := 20\<rparr>) = Inr (Some 1)"
proof -
  have "unat (window_start (AccountUsage th_ex2 1)) + unat (WindowSize th_ex_cfg) \<le> 20"
    by (simp add: th_ex2_def th_ex_defs)
  then show ?thesis
    using throttle_recovers [of "th_ex2\<lparr>current_block := 20\<rparr>" 1 th_ex_cfg 60]
    by (simp add: th_ex_cfg_def)
qed

end
