(* ===== verification/Consensus_Engine.thy ===== *)
theory Consensus_Engine
  imports Prelude
begin

text \<open>
  The consensus-engine pallet (\<open>pallets/consensus-engine/src/lib.rs\<close>): the state
  machine that takes the chain from AURA to BABE, and the guards it puts on
  the pre-runtime digests of every block.

  The storage items of \<open>pallet_aura\<close> and \<open>pallet_babe\<close> the pallet reads and
  writes are fields of \<open>ce_state\<close>; the decoders of the digest payloads and the
  runtime's constants are fields of \<open>ce_config\<close>.  A panic discards the block and
  is the error \<open>CePanic\<close>.
\<close>

section \<open>Data\<close>

datatype engine_id = AURA_ENGINE_ID | BABE_ENGINE_ID | OTHER_ENGINE_ID nat

datatype PreDigest =
    Primary u32 u64
  | SecondaryPlain (authority_index: u32) (plain_slot: u64)
  | SecondaryVRF u32 u64

datatype 'p DigestItem =
    PreRuntime engine_id 'p
  | OtherDigest 'p

datatype State = Aura | ArmedBabe | ScheduledFlip | Babe

datatype ActiveEngine = AuraEngine | BabeEngine

datatype ce_error = CeBadOrigin | InvalidEngineState | CePanic string

record ('p, 'a, 'c) ce_state =
  EngineState :: State
  digest :: "'p DigestItem list"
  aura_authorities :: "'a list"
  aura_CurrentSlot :: u64
  babe_Authorities :: "'a list"
  babe_GenesisSlot :: u64
  babe_CurrentSlot :: u64
  babe_EpochIndex :: u64
  babe_Randomness :: "u8 list"
  babe_NextRandomness :: "u8 list"
  babe_EpochConfig :: "'c option"

record ('o, 'p, 'c) ce_config =
  GovernanceOrigin :: "'o \<Rightarrow> bool"
  EpochDuration :: u64
  EpochConfiguration :: 'c
  aura_pre_digest :: "'p \<Rightarrow> u64 option"
  babe_pre_digest :: "'p \<Rightarrow> PreDigest option"

section \<open>Reading the state and the digest\<close>

fun active_engine :: "State \<Rightarrow> ActiveEngine" where
  "active_engine Aura = AuraEngine"
| "active_engine ArmedBabe = AuraEngine"
| "active_engine ScheduledFlip = AuraEngine"
| "active_engine Babe = BabeEngine"

definition should_emit_babe_preruntime_digest :: "('p, 'a, 'c) ce_state \<Rightarrow> bool" where
  "should_emit_babe_preruntime_digest s \<longleftrightarrow> EngineState s = ArmedBabe \<or> EngineState s = ScheduledFlip"

fun as_pre_runtime :: "'p DigestItem \<Rightarrow> (engine_id \<times> 'p) option" where
  "as_pre_runtime (PreRuntime i p) = Some (i, p)"
| "as_pre_runtime (OtherDigest p) = None"

fun as_aura_pre_digest :: "('o, 'p, 'c) ce_config \<Rightarrow> 'p DigestItem \<Rightarrow> u64 option" where
  "as_aura_pre_digest cfg (PreRuntime AURA_ENGINE_ID p) = aura_pre_digest cfg p"
| "as_aura_pre_digest cfg _ = None"

fun as_babe_pre_digest :: "('o, 'p, 'c) ce_config \<Rightarrow> 'p DigestItem \<Rightarrow> PreDigest option" where
  "as_babe_pre_digest cfg (PreRuntime BABE_ENGINE_ID p) = babe_pre_digest cfg p"
| "as_babe_pre_digest cfg _ = None"

fun find_map :: "('x \<Rightarrow> 'y option) \<Rightarrow> 'x list \<Rightarrow> 'y option" where
  "find_map f [] = None"
| "find_map f (x # xs) = (case f x of Some y \<Rightarrow> Some y | None \<Rightarrow> find_map f xs)"

definition current_slot_from_aura_digest :: "('o, 'p, 'c) ce_config \<Rightarrow> ('p, 'a, 'c) ce_state \<Rightarrow> u64 option" where
  "current_slot_from_aura_digest cfg s = find_map (as_aura_pre_digest cfg) (digest s)"

definition current_slot :: "('p, 'a, 'c) ce_state \<Rightarrow> u64" where
  "current_slot s =
    (case active_engine (EngineState s) of
       AuraEngine \<Rightarrow> aura_CurrentSlot s
     | BabeEngine \<Rightarrow> babe_CurrentSlot s)"

definition has_pre_runtime_for :: "engine_id \<Rightarrow> ('p, 'a, 'c) ce_state \<Rightarrow> bool" where
  "has_pre_runtime_for i s =
    list_ex (\<lambda>log. case as_pre_runtime log of Some (j, _) \<Rightarrow> j = i | None \<Rightarrow> False) (digest s)"

text \<open>
  The loop over the digest items with its two local variables, the AURA slot
  seen so far and whether a correct BABE item was seen.
\<close>

fun pre_digest_loop ::
  "('o, 'p, 'c) ce_config \<Rightarrow> nat \<Rightarrow> 'p DigestItem list \<Rightarrow> u64 option \<Rightarrow> bool \<Rightarrow> bool" where
  "pre_digest_loop cfg n [] aura_slot babe_ok = babe_ok"
| "pre_digest_loop cfg n (log # logs) aura_slot babe_ok =
    (case as_pre_runtime log of
       None \<Rightarrow> pre_digest_loop cfg n logs aura_slot babe_ok
     | Some (engine, _) \<Rightarrow>
         if engine = AURA_ENGINE_ID then
           (case as_aura_pre_digest cfg log of
              None \<Rightarrow> False
            | Some slot \<Rightarrow>
                if aura_slot \<noteq> None then False
                else pre_digest_loop cfg n logs (Some slot) babe_ok)
         else if engine = BABE_ENGINE_ID then
           if babe_ok then False
           else (case as_babe_pre_digest cfg log of
              None \<Rightarrow> False
            | Some babe \<Rightarrow>
                (case aura_slot of
                   None \<Rightarrow> False
                 | Some slot \<Rightarrow>
                     (case babe of
                        SecondaryPlain idx plain \<Rightarrow>
                          if plain \<noteq> slot then False
                          else if n = 0 then False
                          else if idx \<noteq> ucast (slot mod word_of_nat n) then False
                          else pre_digest_loop cfg n logs aura_slot True
                      | _ \<Rightarrow> False)))
         else pre_digest_loop cfg n logs aura_slot babe_ok)"

definition has_aura_pre_digest_before_babe_pre_digest ::
  "('o, 'p, 'c) ce_config \<Rightarrow> ('p, 'a, 'c) ce_state \<Rightarrow> bool" where
  "has_aura_pre_digest_before_babe_pre_digest cfg s =
     pre_digest_loop cfg (length (aura_authorities s)) (digest s) None False"

definition is_last_slot_of_epoch :: "('o, 'p, 'c) ce_config \<Rightarrow> u64 \<Rightarrow> bool" where
  "is_last_slot_of_epoch cfg slot \<longleftrightarrow> (slot + 1) mod max (EpochDuration cfg) 1 = 0"

definition next_epoch_start :: "('o, 'p, 'c) ce_config \<Rightarrow> u64 \<Rightarrow> u64" where
  "next_epoch_start cfg slot =
    (let duration = max (EpochDuration cfg) 1 in (slot div duration + 1) * duration)"

section \<open>Operations\<close>

definition set_sentinel_babe_genesis_slot :: "('p, 'a, 'c) ce_state \<Rightarrow> ('p, 'a, 'c) ce_state" where
  "set_sentinel_babe_genesis_slot s = s\<lparr>babe_GenesisSlot := - 1\<rparr>"

definition arm_babe :: "('o, 'p, 'c) ce_config \<Rightarrow> 'o \<Rightarrow> ('p, 'a, 'c) ce_state \<Rightarrow> (ce_error, ('p, 'a, 'c) ce_state) result" where
  "arm_babe cfg org s =
    (if \<not> GovernanceOrigin cfg org then Inl CeBadOrigin
     else if EngineState s \<noteq> Aura then Inl InvalidEngineState
     else Inr ((set_sentinel_babe_genesis_slot s)\<lparr>EngineState := ArmedBabe\<rparr>))"

definition schedule_flip :: "('o, 'p, 'c) ce_config \<Rightarrow> 'o \<Rightarrow> ('p, 'a, 'c) ce_state \<Rightarrow> (ce_error, ('p, 'a, 'c) ce_state) result" where
  "schedule_flip cfg org s =
    (if \<not> GovernanceOrigin cfg org then Inl CeBadOrigin
     else if EngineState s \<noteq> ArmedBabe then Inl InvalidEngineState
     else Inr (s\<lparr>EngineState := ScheduledFlip\<rparr>))"

text \<open>The writes of \<open>migrate_to_babe\<close>, and the function itself, which ends in a panic.\<close>

definition babe_genesis_writes :: "('o, 'p, 'c) ce_config \<Rightarrow> u64 \<Rightarrow> ('p, 'a, 'c) ce_state \<Rightarrow> ('p, 'a, 'c) ce_state" where
  "babe_genesis_writes cfg slot s =
    s\<lparr>babe_GenesisSlot := next_epoch_start cfg slot,
      babe_CurrentSlot := slot,
      babe_EpochIndex := 0,
      babe_Randomness := replicate 32 0,
      babe_NextRandomness := replicate 32 0,
      babe_EpochConfig := (case babe_EpochConfig s of
          None \<Rightarrow> Some (EpochConfiguration cfg) | Some c \<Rightarrow> Some c)\<rparr>"

definition migrate_to_babe :: "('o, 'p, 'c) ce_config \<Rightarrow> u64 \<Rightarrow> ('p, 'a, 'c) ce_state \<Rightarrow> (ce_error, ('p, 'a, 'c) ce_state) result" where
  "migrate_to_babe cfg slot s =
    bind_result (Inr (babe_genesis_writes cfg slot s))
      (\<lambda>_. Inl (CePanic ''Issue #1742 adds BABE keys to the runtime''))"

definition ce_on_initialize :: "('o, 'p, 'c) ce_config \<Rightarrow> ('p, 'a, 'c) ce_state \<Rightarrow> (ce_error, ('p, 'a, 'c) ce_state) result" where
  "ce_on_initialize cfg s =
    (case EngineState s of
       Aura \<Rightarrow>
         if has_pre_runtime_for BABE_ENGINE_ID s
         then Inl (CePanic ''BABE pre-runtime digest present in state Aura'') else Inr s
     | ArmedBabe \<Rightarrow>
         if \<not> has_aura_pre_digest_before_babe_pre_digest cfg s
         then Inl (CePanic ''BABE pre-runtime digest required in state ArmedBabe'') else Inr s
     | ScheduledFlip \<Rightarrow>
         if \<not> has_aura_pre_digest_before_babe_pre_digest cfg s
         then Inl (CePanic ''BABE pre-runtime digest required in state ScheduledFlip'')
         else (case current_slot_from_aura_digest cfg s of
             Some slot \<Rightarrow>
               if is_last_slot_of_epoch cfg slot then
                 if babe_Authorities s = [] then Inr s
                 else bind_result (migrate_to_babe cfg slot s)
                        (\<lambda>s'. Inr (s'\<lparr>EngineState := Babe\<rparr>))
               else Inr s
           | None \<Rightarrow> Inr s)
     | Babe \<Rightarrow>
         if has_pre_runtime_for AURA_ENGINE_ID s
         then Inl (CePanic ''AURA pre-runtime digest present in state Babe'') else Inr s)"

text \<open>The hooks that follow the active engine.\<close>

definition ce_find_author :: "('d \<Rightarrow> u32 option) \<Rightarrow> ('d \<Rightarrow> u32 option) \<Rightarrow> ('p, 'a, 'c) ce_state \<Rightarrow> 'd \<Rightarrow> u32 option" where
  "ce_find_author aura_find_author babe_find_author s digests =
    (case active_engine (EngineState s) of
       AuraEngine \<Rightarrow> aura_find_author digests
     | BabeEngine \<Rightarrow> babe_find_author digests)"

definition ce_on_timestamp_set ::
  "('m \<Rightarrow> ('p, 'a, 'c) ce_state \<Rightarrow> (ce_error, ('p, 'a, 'c) ce_state) result) \<Rightarrow>
   ('m \<Rightarrow> ('p, 'a, 'c) ce_state \<Rightarrow> (ce_error, ('p, 'a, 'c) ce_state) result) \<Rightarrow>
   'm \<Rightarrow> ('p, 'a, 'c) ce_state \<Rightarrow> (ce_error, ('p, 'a, 'c) ce_state) result" where
  "ce_on_timestamp_set aura_on_timestamp_set babe_on_timestamp_set moment s =
    (case active_engine (EngineState s) of
       AuraEngine \<Rightarrow> aura_on_timestamp_set moment s
     | BabeEngine \<Rightarrow> babe_on_timestamp_set moment s)"

section \<open>Runs\<close>

text \<open>
  A step of the chain as the pallet sees it: the initialisation of a block
  with its digest, a governance call, a session rotation, and what
  \<open>pallet_aura\<close> and \<open>pallet_babe\<close> write to their own storage.  Of the latter the
  pallet relies on one fact: \<open>pallet_babe\<close> sets the genesis slot only while it
  is zero.
\<close>

inductive ce_step :: "('o, 'p, 'c) ce_config \<Rightarrow> ('p, 'a, 'c) ce_state \<Rightarrow> ('p, 'a, 'c) ce_state \<Rightarrow> bool"
  for cfg :: "('o, 'p, 'c) ce_config" where
  ce_block: "ce_on_initialize cfg (s\<lparr>digest := logs\<rparr>) = Inr s' \<Longrightarrow> ce_step cfg s s'"
| ce_arm: "arm_babe cfg org s = Inr s' \<Longrightarrow> ce_step cfg s s'"
| ce_schedule: "schedule_flip cfg org s = Inr s' \<Longrightarrow> ce_step cfg s s'"
| ce_session: "ce_step cfg s (s\<lparr>aura_authorities := as, babe_Authorities := bs\<rparr>)"
| ce_aura: "ce_step cfg s (s\<lparr>aura_CurrentSlot := slot\<rparr>)"
| ce_babe: "ce_step cfg s (s\<lparr>babe_CurrentSlot := slot, babe_EpochIndex := i, babe_Randomness := r,
      babe_NextRandomness := r', babe_GenesisSlot := (if babe_GenesisSlot s = 0 then g else babe_GenesisSlot s)\<rparr>)"

definition ce_init :: "('p, 'a, 'c) ce_state \<Rightarrow> bool" where
  "ce_init s \<longleftrightarrow> EngineState s = Aura"

text \<open>The flip has not happened, and from arming on \<open>pallet_babe\<close> cannot initialise itself.\<close>

definition ce_inv :: "('p, 'a, 'c) ce_state \<Rightarrow> bool" where
  "ce_inv s \<longleftrightarrow> EngineState s \<noteq> Babe \<and> (should_emit_babe_preruntime_digest s \<longrightarrow> babe_GenesisSlot s = - 1)"

fun State_rank :: "State \<Rightarrow> nat" where
  "State_rank Aura = 0"
| "State_rank ArmedBabe = 1"
| "State_rank ScheduledFlip = 2"
| "State_rank Babe = 3"

definition engine_item :: "'p DigestItem \<Rightarrow> bool" where
  "engine_item log \<longleftrightarrow>
    (case as_pre_runtime log of Some (i, _) \<Rightarrow> i = AURA_ENGINE_ID \<or> i = BABE_ENGINE_ID | None \<Rightarrow> False)"

text \<open>What a block must carry while the transition is armed, said without the loop.\<close>

definition babe_item_ok :: "('o, 'p, 'c) ce_config \<Rightarrow> nat \<Rightarrow> u64 \<Rightarrow> 'p \<Rightarrow> bool" where
  "babe_item_ok cfg n slot q \<longleftrightarrow>
     n \<noteq> 0 \<and> babe_pre_digest cfg q = Some (SecondaryPlain (ucast (slot mod word_of_nat n)) slot)"

section \<open>Lemmas\<close>

lemma pre_digest_loop_skip:
  "\<not> engine_item log \<Longrightarrow> pre_digest_loop cfg n (log # logs) a b = pre_digest_loop cfg n logs a b"
  by (auto simp: engine_item_def split: option.splits)

lemma engine_item_cases:
  assumes "engine_item log"
  obtains p where "log = PreRuntime AURA_ENGINE_ID p" | q where "log = PreRuntime BABE_ENGINE_ID q"
  using assms by (cases log) (auto simp: engine_item_def)

lemma engine_item_simps [simp]:
  "engine_item (PreRuntime AURA_ENGINE_ID p)" "engine_item (PreRuntime BABE_ENGINE_ID p)"
  by (simp_all add: engine_item_def)

lemma pre_digest_loop_done:
  "pre_digest_loop cfg n logs (Some slot) True \<longleftrightarrow> filter engine_item logs = []"
proof (induction logs)
  case (Cons log logs)
  then show ?case
    by (cases "engine_item log") (auto simp: pre_digest_loop_skip simp del: pre_digest_loop.simps(2)
        elim!: engine_item_cases, simp_all split: option.splits)
qed simp

lemma pre_digest_loop_aura:
  "pre_digest_loop cfg n logs (Some slot) False \<longleftrightarrow>
     (\<exists>q. filter engine_item logs = [PreRuntime BABE_ENGINE_ID q] \<and> babe_item_ok cfg n slot q)"
proof (induction logs)
  case (Cons log logs)
  show ?case
  proof (cases "engine_item log")
    case False
    then show ?thesis
      using Cons by (simp add: pre_digest_loop_skip del: pre_digest_loop.simps(2))
  next
    case True
    then show ?thesis
    proof (cases rule: engine_item_cases)
      case (2 q)
      then show ?thesis
        by (auto simp: babe_item_ok_def pre_digest_loop_done split: option.splits PreDigest.splits)
    qed (auto split: option.splits)
  qed
qed simp

lemma pre_digest_loop_start:
  "pre_digest_loop cfg n logs None False \<longleftrightarrow>
     (\<exists>p q slot. filter engine_item logs = [PreRuntime AURA_ENGINE_ID p, PreRuntime BABE_ENGINE_ID q]
        \<and> aura_pre_digest cfg p = Some slot \<and> babe_item_ok cfg n slot q)"
proof (induction logs)
  case (Cons log logs)
  show ?case
  proof (cases "engine_item log")
    case False
    then show ?thesis
      using Cons by (simp add: pre_digest_loop_skip del: pre_digest_loop.simps(2))
  next
    case True
    then show ?thesis
    proof (cases rule: engine_item_cases)
      case (1 p)
      then show ?thesis
        by (auto simp: pre_digest_loop_aura split: option.splits)
    qed (auto split: option.splits)
  qed
qed simp

lemma ce_on_initialize_Inr:
  "ce_on_initialize cfg s = Inr s' \<Longrightarrow> s' = s \<and> (should_emit_babe_preruntime_digest s \<longrightarrow>
      has_aura_pre_digest_before_babe_pre_digest cfg s)"
  by (auto simp: ce_on_initialize_def migrate_to_babe_def should_emit_babe_preruntime_digest_def
      split: State.splits if_splits option.splits)

lemma ce_step_inv: "ce_inv s \<Longrightarrow> ce_step cfg s s' \<Longrightarrow> ce_inv s'"
  by (erule ce_step.cases)
    (auto simp: ce_inv_def arm_babe_def schedule_flip_def set_sentinel_babe_genesis_slot_def
      should_emit_babe_preruntime_digest_def split: if_splits dest!: ce_on_initialize_Inr)

interpretation ce: transition_invariant ce_init "ce_step cfg" ce_inv
  by unfold_locales
    (simp add: ce_init_def ce_inv_def should_emit_babe_preruntime_digest_def, erule (1) ce_step_inv)

lemma find_map_filter:
  "(\<And>x. f x \<noteq> None \<Longrightarrow> P x) \<Longrightarrow> find_map f (filter P xs) = find_map f xs"
  by (induction xs) (auto split: option.splits)

lemma as_aura_pre_digest_item: "as_aura_pre_digest cfg log \<noteq> None \<Longrightarrow> engine_item log"
  by (cases "(cfg, log)" rule: as_aura_pre_digest.cases) auto

lemma unat_max_1: "unat (max d 1) = max (unat d) 1"
  for d :: u64
  by (simp add: max_def word_le_nat_alt)

lemma is_last_slot_nat:
  assumes "slot \<noteq> - 1"
  shows "is_last_slot_of_epoch cfg slot \<longleftrightarrow> max (unat (EpochDuration cfg)) 1 dvd unat slot + 1"
  using assms by (simp add: is_last_slot_of_epoch_def word_unat_eq_iff unat_mod_distrib unat_max_1
      unat_plus_1 dvd_eq_mod_eq_0)

lemma next_epoch_start_aligned:
  assumes "is_last_slot_of_epoch cfg slot" "slot \<noteq> - 1"
  shows "next_epoch_start cfg slot = slot + 1"
proof -
  let ?d = "max (unat (EpochDuration cfg)) 1"
  have eq: "(unat slot div ?d + 1) * ?d = unat slot + 1"
    using assms next_multiple [of ?d "unat slot"] by (simp add: is_last_slot_nat)
  have d: "max (EpochDuration cfg) 1 = word_of_nat ?d"
    using arg_cong [OF unat_max_1 [of "EpochDuration cfg"], of "word_of_nat :: nat \<Rightarrow> u64"] by simp
  have q: "slot div max (EpochDuration cfg) 1 = word_of_nat (unat slot div ?d)"
    by (simp add: word_arith_nat_div unat_max_1)
  have "next_epoch_start cfg slot = (word_of_nat (unat slot div ?d) + 1) * word_of_nat ?d"
    unfolding next_epoch_start_def Let_def q by (simp only: d)
  also have "\<dots> = word_of_nat ((unat slot div ?d + 1) * ?d)"
    by (simp only: of_nat_mult of_nat_add of_nat_1)
  also have "\<dots> = slot + 1"
    unfolding eq by simp
  finally show ?thesis .
qed

section \<open>A concrete run\<close>

text \<open>
  Payloads are pairs of a slot and an index; two authorities, epochs of ten
  slots, and a block of slot 19, the last of its epoch.
\<close>

definition ce_ex_cfg :: "(nat, u64 \<times> u32, nat) ce_config" where
  "ce_ex_cfg = \<lparr>GovernanceOrigin = (\<lambda>org. org = 0), EpochDuration = 10, EpochConfiguration = 7,
     aura_pre_digest = (\<lambda>p. Some (fst p)), babe_pre_digest = (\<lambda>p. Some (SecondaryPlain (snd p) (fst p)))\<rparr>"

definition ce_ex0 :: "(u64 \<times> u32, nat, nat) ce_state" where
  "ce_ex0 = \<lparr>EngineState = Aura, digest = [], aura_authorities = [1, 2], aura_CurrentSlot = 17,
     babe_Authorities = [1, 2], babe_GenesisSlot = 0, babe_CurrentSlot = 0, babe_EpochIndex = 0,
     babe_Randomness = [], babe_NextRandomness = [], babe_EpochConfig = None\<rparr>"

definition ce_ex_scheduled :: "(u64 \<times> u32, nat, nat) ce_state" where
  "ce_ex_scheduled = ce_ex0\<lparr>EngineState := ScheduledFlip, babe_GenesisSlot := - 1\<rparr>"

definition ce_ex_flip :: "(u64 \<times> u32, nat, nat) ce_state" where
  "ce_ex_flip = ce_ex_scheduled
     \<lparr>digest := [PreRuntime AURA_ENGINE_ID (19, 0), PreRuntime BABE_ENGINE_ID (19, 1)]\<rparr>"

lemma ce_ex_reachable: "reachable ce_init (ce_step ce_ex_cfg) ce_ex_scheduled"
proof -
  let ?armed = "ce_ex0\<lparr>EngineState := ArmedBabe, babe_GenesisSlot := - 1\<rparr>"
  have "arm_babe ce_ex_cfg 0 ce_ex0 = Inr ?armed"
    "schedule_flip ce_ex_cfg 0 ?armed = Inr ce_ex_scheduled"
    by (simp_all add: arm_babe_def schedule_flip_def ce_ex_cfg_def ce_ex0_def ce_ex_scheduled_def
        set_sentinel_babe_genesis_slot_def)
  moreover have "ce_init ce_ex0"
    by (simp add: ce_init_def ce_ex0_def)
  ultimately show ?thesis
    by (meson reachable.intros ce_arm ce_schedule)
qed

text \<open>
  The scheduled block that carries everything the flip asks for is refused:
  the migration ends in a panic.
\<close>

lemma flip_block_rejected:
  "ce_on_initialize ce_ex_cfg ce_ex_flip = Inl (CePanic ''Issue #1742 adds BABE keys to the runtime'')"
  by (simp add: ce_on_initialize_def ce_ex_flip_def ce_ex_scheduled_def ce_ex0_def ce_ex_cfg_def
      has_aura_pre_digest_before_babe_pre_digest_def current_slot_from_aura_digest_def
      is_last_slot_of_epoch_def migrate_to_babe_def)

section \<open>Properties\<close>

text \<open>
  C30: the digest guard accepts exactly the blocks whose AURA and BABE items
  are one AURA item followed by one BABE item, where the AURA item decodes to
  the block's slot and the BABE item to a secondary plain claim for the same
  slot and for the author AURA assigns to it, with a non-empty authority set.
\<close>

theorem armed_digest_shape:
  "has_aura_pre_digest_before_babe_pre_digest cfg s \<longleftrightarrow>
    (\<exists>p q slot. filter engine_item (digest s) = [PreRuntime AURA_ENGINE_ID p, PreRuntime BABE_ENGINE_ID q]
       \<and> aura_pre_digest cfg p = Some slot \<and> current_slot_from_aura_digest cfg s = Some slot
       \<and> babe_item_ok cfg (length (aura_authorities s)) slot q)"
proof -
  have slot: "current_slot_from_aura_digest cfg s = find_map (as_aura_pre_digest cfg) (filter engine_item (digest s))"
    unfolding current_slot_from_aura_digest_def by (rule find_map_filter [symmetric, OF as_aura_pre_digest_item])
  show ?thesis
    unfolding has_aura_pre_digest_before_babe_pre_digest_def pre_digest_loop_start slot by auto
qed

text \<open>
  C40: starting from AURA, no sequence of blocks, governance calls and session
  rotations reaches the BABE state, AURA stays the active engine, every block
  accepted while the flip is armed passed the digest guard, and \<open>pallet_babe\<close>
  keeps the sentinel genesis slot that stops it from initialising itself.
\<close>

theorem flip_never_commits:
  assumes "reachable ce_init (ce_step cfg) s"
  shows "EngineState s \<noteq> Babe \<and> active_engine (EngineState s) = AuraEngine
    \<and> (should_emit_babe_preruntime_digest s \<longrightarrow> babe_GenesisSlot s = - 1
        \<and> (\<forall>logs s'. ce_on_initialize cfg (s\<lparr>digest := logs\<rparr>) = Inr s' \<longrightarrow>
             has_aura_pre_digest_before_babe_pre_digest cfg s'))"
proof -
  have "ce_inv s"
    using assms by (rule ce.reachable_inv)
  moreover have "has_aura_pre_digest_before_babe_pre_digest cfg s'"
    if "should_emit_babe_preruntime_digest s" "ce_on_initialize cfg (s\<lparr>digest := logs\<rparr>) = Inr s'" for logs s'
    using ce_on_initialize_Inr [OF that(2)] that(1)
    by (auto simp: should_emit_babe_preruntime_digest_def)
  ultimately show ?thesis
    by (cases "EngineState s") (auto simp: ce_inv_def)
qed

theorem flip_never_commits_witness:
  "reachable ce_init (ce_step ce_ex_cfg) ce_ex_scheduled \<and> EngineState ce_ex_scheduled \<noteq> Babe
   \<and> babe_GenesisSlot ce_ex_scheduled = - 1"
  using flip_never_commits [OF ce_ex_reachable] ce_ex_reachable
  by (simp add: should_emit_babe_preruntime_digest_def ce_ex_scheduled_def ce_ex0_def)

text \<open>
  what the migration would write keeps the epochs aligned: at the last
  slot of an epoch the BABE genesis slot is the very next slot, a multiple of
  the epoch duration, while the current slot remains the block's own; a stored
  epoch configuration is kept and an absent one is filled in.
\<close>

lemma babe_genesis_aligned:
  fixes s :: "('p, 'a, 'c) ce_state"
  assumes "is_last_slot_of_epoch cfg slot" "slot \<noteq> - 1" "EpochDuration cfg \<noteq> 0"
  defines "s' \<equiv> babe_genesis_writes cfg slot s"
  shows "babe_GenesisSlot s' = slot + 1 \<and> babe_CurrentSlot s' = slot
    \<and> unat (EpochDuration cfg) dvd unat (babe_GenesisSlot s')
    \<and> babe_EpochConfig s' \<noteq> None
    \<and> (babe_EpochConfig s \<noteq> None \<longrightarrow> babe_EpochConfig s' = babe_EpochConfig s)"
proof -
  have "max (unat (EpochDuration cfg)) 1 = unat (EpochDuration cfg)"
    using assms(3) by (simp add: max_def le_antisym Suc_le_eq unat_gt_0)
  then show ?thesis
    using assms next_epoch_start_aligned [OF assms(1,2)] is_last_slot_nat [OF assms(2), of cfg]
    by (auto simp: babe_genesis_writes_def unat_plus_1 split: option.splits)
qed

lemma babe_genesis_aligned_example:
  "babe_GenesisSlot (babe_genesis_writes ce_ex_cfg 19 ce_ex_flip) = 20"
  using babe_genesis_aligned [of ce_ex_cfg 19 ce_ex_flip]
  by (simp add: is_last_slot_of_epoch_def ce_ex_cfg_def)

end
