(* ===== verification/Cardano_Position.thy ===== *)
theory Cardano_Position
  imports Prelude "HOL-Library.List_Lexorder" "HOL-Library.Product_Lexorder"
begin

text \<open>
  The observation primitives (\<open>primitives/cnight-observation/src/lib.rs\<close>):
  positions on Cardano, observed UTXOs with their headers, and the orders the
  observation code sorts and compares them by.  The comparisons follow the
  source field by field; the lemmas show that they are the order of a key, so
  that sorting and truncation can be reasoned about with linear orders.
\<close>

section \<open>Data\<close>

type_synonym mc_hash = "u8 list"
type_synonym reward_address = "u8 list"
type_synonym dust_key = "u8 list"

record CardanoPosition =
  block_hash :: mc_hash
  block_number :: u32
  block_timestamp :: u64
  tx_index_in_block :: u32

record ObservedUtxoHeader =
  tx_position :: CardanoPosition
  tx_hash :: mc_hash
  utxo_tx_hash :: mc_hash
  utxo_index :: u16

record RegistrationData =
  reg_address :: reward_address
  reg_dust_key :: dust_key

record DeregistrationData =
  dereg_address :: reward_address
  dereg_dust_key :: dust_key

record CreateData =
  create_value :: u128
  create_owner :: reward_address
  create_utxo_tx_hash :: mc_hash
  create_utxo_tx_index :: u16

record SpendData =
  spend_value :: u128
  spend_owner :: reward_address
  spend_utxo_tx_hash :: mc_hash
  spend_utxo_tx_index :: u16
  spending_tx_hash :: mc_hash

datatype ObservedUtxoData =
    Registration RegistrationData
  | Deregistration DeregistrationData
  | AssetCreate CreateData
  | AssetSpend SpendData

record ObservedUtxo =
  header :: ObservedUtxoHeader
  utxo_data :: ObservedUtxoData

record ObservedUtxos =
  obs_start :: CardanoPosition
  obs_end :: CardanoPosition
  obs_utxos :: "ObservedUtxo list"

datatype ordering = Less | Equal | Greater

section \<open>Operations\<close>

definition cmp :: "'a::linorder \<Rightarrow> 'a \<Rightarrow> ordering" where
  "cmp a b = (if a < b then Less else if a = b then Equal else Greater)"

definition increment :: "CardanoPosition \<Rightarrow> CardanoPosition" where
  "increment p = p\<lparr>tx_index_in_block := tx_index_in_block p + 1\<rparr>"

definition min_for_block :: "u32 \<Rightarrow> CardanoPosition" where
  "min_for_block n = \<lparr>block_hash = replicate 32 0, block_number = n, block_timestamp = 0,
     tx_index_in_block = 0\<rparr>"

definition max_for_block :: "u32 \<Rightarrow> CardanoPosition" where
  "max_for_block n = \<lparr>block_hash = replicate 32 0, block_number = n, block_timestamp = 0,
     tx_index_in_block = 2147483647\<rparr>"

definition position_cmp :: "CardanoPosition \<Rightarrow> CardanoPosition \<Rightarrow> ordering" where
  "position_cmp p q =
    (case cmp (block_number p) (block_number q) of
       Equal \<Rightarrow> cmp (tx_index_in_block p) (tx_index_in_block q)
     | ord \<Rightarrow> ord)"

definition is_create :: "ObservedUtxoHeader \<Rightarrow> bool" where
  "is_create h \<longleftrightarrow> tx_hash h = utxo_tx_hash h"

definition header_cmp :: "ObservedUtxoHeader \<Rightarrow> ObservedUtxoHeader \<Rightarrow> ordering" where
  "header_cmp h k =
    (case position_cmp (tx_position h) (tx_position k) of
       Equal \<Rightarrow>
         if is_create h \<and> \<not> is_create k then Less
         else if \<not> is_create h \<and> is_create k then Greater
         else (case cmp (utxo_tx_hash h) (utxo_tx_hash k) of
                 Equal \<Rightarrow> cmp (utxo_index h) (utxo_index k)
               | ord \<Rightarrow> ord)
     | ord \<Rightarrow> ord)"

definition utxo_cmp :: "ObservedUtxo \<Rightarrow> ObservedUtxo \<Rightarrow> ordering" where
  "utxo_cmp u v = header_cmp (header u) (header v)"

text \<open>The comparison operators the source derives from \<open>partial_cmp\<close>.\<close>

definition pos_less :: "CardanoPosition \<Rightarrow> CardanoPosition \<Rightarrow> bool" where
  "pos_less p q \<longleftrightarrow> position_cmp p q = Less"

definition pos_le :: "CardanoPosition \<Rightarrow> CardanoPosition \<Rightarrow> bool" where
  "pos_le p q \<longleftrightarrow> position_cmp p q \<noteq> Greater"

text \<open>The stable sort of the standard library, by a comparison.\<close>

fun insert_by :: "('a \<Rightarrow> 'a \<Rightarrow> ordering) \<Rightarrow> 'a \<Rightarrow> 'a list \<Rightarrow> 'a list" where
  "insert_by c x [] = [x]"
| "insert_by c x (y # ys) = (if c x y = Greater then y # insert_by c x ys else x # y # ys)"

definition sort_by :: "('a \<Rightarrow> 'a \<Rightarrow> ordering) \<Rightarrow> 'a list \<Rightarrow> 'a list" where
  "sort_by c xs = foldr (insert_by c) xs []"

section \<open>The orders as orders of keys\<close>

definition pos_key :: "CardanoPosition \<Rightarrow> u32 \<times> u32" where
  "pos_key p = (block_number p, tx_index_in_block p)"

definition header_key :: "ObservedUtxoHeader \<Rightarrow> (u32 \<times> u32) \<times> bool \<times> mc_hash \<times> u16" where
  "header_key h = (pos_key (tx_position h), \<not> is_create h, utxo_tx_hash h, utxo_index h)"

lemma cmp_simps [simp]:
  "cmp a b = Less \<longleftrightarrow> a < b" "cmp a b = Equal \<longleftrightarrow> a = b" "cmp a b = Greater \<longleftrightarrow> b < a"
  by (auto simp: cmp_def)

lemma cmp_pair:
  "(case cmp a b of Equal \<Rightarrow> cmp c d | ord \<Rightarrow> ord) = cmp (a, c) (b, d)"
  by (auto simp: cmp_def)

lemma position_cmp_key: "position_cmp p q = cmp (pos_key p) (pos_key q)"
  by (simp add: position_cmp_def pos_key_def cmp_pair)

lemma header_cmp_key: "header_cmp h k = cmp (header_key h) (header_key k)"
proof -
  have create: "(if is_create h \<and> \<not> is_create k then Less
         else if \<not> is_create h \<and> is_create k then Greater else c) =
        (case cmp (\<not> is_create h) (\<not> is_create k) of Equal \<Rightarrow> c | ord \<Rightarrow> ord)" for c
    by (simp add: cmp_def)
  show ?thesis
    unfolding header_cmp_def position_cmp_key header_key_def create cmp_pair ..
qed

lemma pos_less_key: "pos_less p q \<longleftrightarrow> pos_key p < pos_key q"
  by (simp add: pos_less_def position_cmp_key)

lemma pos_le_key: "pos_le p q \<longleftrightarrow> pos_key p \<le> pos_key q"
  by (simp add: pos_le_def position_cmp_key not_less)

lemma pos_le_refl [simp]: "pos_le p p"
  by (simp add: pos_le_key)

lemma pos_le_trans: "pos_le p q \<Longrightarrow> pos_le q r \<Longrightarrow> pos_le p r"
  by (simp add: pos_le_key)

lemma pos_less_increment:
  "tx_index_in_block p \<noteq> - 1 \<Longrightarrow> pos_less q (increment p) \<longleftrightarrow> pos_le q p"
  by (auto simp: pos_less_key pos_le_key pos_key_def increment_def word_less_nat_alt word_le_nat_alt
      unat_plus_1)

lemma insert_by_key:
  "insert_by (\<lambda>a b. cmp (f a) (f b)) x ys = insort_key f x ys"
  by (induction ys) (auto simp: not_le)

lemma sort_by_key: "sort_by (\<lambda>a b. cmp (f a) (f b)) xs = sort_key f xs"
  by (simp add: sort_by_def sort_key_def insert_by_key cong: foldr_cong)

lemma sort_by_utxo: "sort_by utxo_cmp us = sort_key (header_key \<circ> header) us"
proof -
  have eq: "utxo_cmp = (\<lambda>u v. cmp ((header_key \<circ> header) u) ((header_key \<circ> header) v))"
    by (simp add: fun_eq_iff utxo_cmp_def header_cmp_key)
  show ?thesis
    unfolding eq by (rule sort_by_key)
qed

end
