(* ===== verification/CNight_Window.thy ===== *)
theory CNight_Window
  imports Cardano_Position
begin

text \<open>
  The pure functions the cNIGHT observation data sources share
  (\<open>primitives/mainchain-follower/src/data_source/cnight_observation_bulk.rs\<close>):
  cutting a sorted event list to a transaction capacity, slicing it by
  position, sliding the in-memory window and planning a refresh.

  \<open>upos\<close> is the position of an event; event lists are sorted by it.
\<close>

section \<open>Operations\<close>

definition upos :: "ObservedUtxo \<Rightarrow> CardanoPosition" where
  "upos u = tx_position (header u)"

text \<open>The loop of \<open>truncate_to_tx_capacity\<close>: the events it pushes and the final \<open>num_txs\<close>.\<close>

fun truncate_loop :: "nat \<Rightarrow> ObservedUtxo list \<Rightarrow> nat \<Rightarrow> CardanoPosition option \<Rightarrow> ObservedUtxo list \<times> nat" where
  "truncate_loop tx_capacity [] num_txs cur_tx = ([], num_txs)"
| "truncate_loop tx_capacity (u # us) num_txs cur_tx =
    (let fresh = (case cur_tx of None \<Rightarrow> True | Some tx \<Rightarrow> pos_less tx (upos u));
         num_txs' = (if fresh then num_txs + 1 else num_txs);
         cur_tx' = (if fresh then Some (upos u) else cur_tx)
     in if num_txs' = tx_capacity then ([], num_txs')
        else (let (truncated, n) = truncate_loop tx_capacity us num_txs' cur_tx' in (u # truncated, n)))"

definition truncate_to_tx_capacity ::
  "ObservedUtxo list \<Rightarrow> nat \<Rightarrow> CardanoPosition \<Rightarrow> CardanoPosition \<Rightarrow> ObservedUtxos \<times> bool" where
  "truncate_to_tx_capacity events tx_capacity start_position fallback_end =
    (let (truncated, num_txs) = truncate_loop tx_capacity events 0 None;
         full_window = num_txs < tx_capacity;
         end_position = (if full_window then fallback_end
           else increment (if truncated = [] then start_position else upos (last truncated)))
     in (\<lparr>obs_start = start_position, obs_end = end_position, obs_utxos = truncated\<rparr>, full_window))"

text \<open>\<open>partition_point\<close> of a list whose elements satisfying the predicate come first.\<close>

definition partition_point :: "('a \<Rightarrow> bool) \<Rightarrow> 'a list \<Rightarrow> nat" where
  "partition_point P xs = length (takeWhile P xs)"

text \<open>The slice panics when its start index is past its end index.\<close>

definition slice_range :: "ObservedUtxo list \<Rightarrow> CardanoPosition \<Rightarrow> CardanoPosition \<Rightarrow> ObservedUtxo list option" where
  "slice_range vec s e =
    (let a = partition_point (\<lambda>u. pos_less (upos u) s) vec;
         b = partition_point (\<lambda>u. pos_less (upos u) e) vec
     in if a \<le> b then Some (drop a (take b vec)) else None)"

definition slide_events :: "ObservedUtxo list \<Rightarrow> ObservedUtxo list \<Rightarrow> u32 \<Rightarrow> ObservedUtxo list" where
  "slide_events existing extension new_window_start =
    (let trim_at = partition_point (\<lambda>u. block_number (upos u) < new_window_start) existing
     in drop trim_at existing @ extension)"

definition plan_refresh :: "u32 \<Rightarrow> u32 \<Rightarrow> u32 \<Rightarrow> u32 option \<Rightarrow> u32 \<Rightarrow> u32 \<times> u32" where
  "plan_refresh old_end follower_anchor existing_start trim_anchor window_size =
    (let contiguous_from = saturating_add old_end 1
     in if follower_anchor > contiguous_from then (follower_anchor, follower_anchor)
        else (contiguous_from,
              (case trim_anchor of
                 Some anchor \<Rightarrow> max existing_start (saturating_sub anchor window_size)
               | None \<Rightarrow> existing_start)))"

text \<open>
  How the runtime consumes the source: each block asks for the events of the
  chain from the position the previous answer ended at, until an answer
  covers the rest of the range.
\<close>

definition in_range :: "CardanoPosition \<Rightarrow> CardanoPosition \<Rightarrow> ObservedUtxo list \<Rightarrow> ObservedUtxo list" where
  "in_range s e chain = filter (\<lambda>u. pos_le s (upos u) \<and> pos_less (upos u) e) chain"

fun pages :: "nat \<Rightarrow> ObservedUtxo list \<Rightarrow> nat \<Rightarrow> CardanoPosition \<Rightarrow> CardanoPosition \<Rightarrow> ObservedUtxos list option" where
  "pages 0 chain tx_capacity s e = None"
| "pages (Suc fuel) chain tx_capacity s e =
    (let (r, full) = truncate_to_tx_capacity (in_range s e chain) tx_capacity s e
     in if full then Some [r]
        else (case pages fuel chain tx_capacity (obs_end r) e of
                None \<Rightarrow> None | Some rs \<Rightarrow> Some (r # rs)))"

section \<open>Truncation\<close>

abbreviation ukey :: "ObservedUtxo \<Rightarrow> u32 \<times> u32" where
  "ukey u \<equiv> pos_key (upos u)"

text \<open>
  The positions, each once, of the transactions of a sorted event list that
  come after a given position.
\<close>

definition later_keys :: "u32 \<times> u32 \<Rightarrow> ObservedUtxo list \<Rightarrow> (u32 \<times> u32) list" where
  "later_keys c us = tl (remdups_adj (c # map ukey us))"

definition tx_keys :: "ObservedUtxo list \<Rightarrow> (u32 \<times> u32) list" where
  "tx_keys us = remdups_adj (map ukey us)"

abbreviation events_sorted :: "ObservedUtxo list \<Rightarrow> bool" where
  "events_sorted us \<equiv> sorted (map ukey us)"

lemma remdups_adj_hd_tl: "remdups_adj (x # xs) = x # tl (remdups_adj (x # xs))"
  by (induction xs arbitrary: x) auto

lemma later_keys_Nil [simp]: "later_keys c [] = []"
  by (simp add: later_keys_def)

lemma tx_keys_Cons: "tx_keys (u # us) = ukey u # later_keys (ukey u) us"
  unfolding tx_keys_def later_keys_def by (simp only: list.map remdups_adj_hd_tl [symmetric])

lemma later_keys_Cons:
  "later_keys c (u # us) = (if c = ukey u then later_keys c us else tx_keys (u # us))"
  by (simp add: later_keys_def tx_keys_def)

lemma later_keys_greater:
  "sorted (c # map ukey us) \<Longrightarrow> d \<in> set (later_keys c us) \<Longrightarrow> c < d"
proof (induction us arbitrary: c)
  case (Cons u us)
  have "c \<le> ukey u" and rest: "d \<in> set (later_keys (ukey u) us) \<Longrightarrow> ukey u < d"
    using Cons.prems(1) Cons.IH [of "ukey u"] by simp_all
  then show ?case
    using Cons.prems(2) by (cases "c = ukey u") (auto simp: later_keys_Cons tx_keys_Cons)
qed simp

text \<open>
  What the loop keeps when at least one more transaction fits: everything if
  the remaining transactions stay below the capacity, otherwise the events
  before the transaction that reaches it.
\<close>

lemma truncate_loop_spec:
  assumes "sorted (pos_key p # map ukey us)" "n < cap"
  shows "truncate_loop cap us n (Some p) =
    (let ds = later_keys (pos_key p) us in
     if n + length ds < cap then (us, n + length ds)
     else (takeWhile (\<lambda>u. ukey u < ds ! (cap - n - 1)) us, cap))"
  using assms
proof (induction us arbitrary: p n)
  case (Cons u us)
  let ?c = "pos_key p" and ?k = "ukey u"
  have srt: "sorted (?k # map ukey us)" and le: "?c \<le> ?k"
    using Cons.prems(1) by simp_all
  show ?case
  proof (cases "?c = ?k")
    case True
    let ?ds = "later_keys ?c us"
    have keep: "?k < ?ds ! (cap - n - 1)" if "\<not> n + length ?ds < cap"
      using later_keys_greater [of ?c us "?ds ! (cap - n - 1)"] srt True Cons.prems(2) that by auto
    show ?thesis
      using Cons.IH [of p n] Cons.prems(2) srt True keep
      by (auto simp: later_keys_Cons pos_less_key Let_def)
  next
    case False
    let ?ds = "later_keys ?k us"
    have new: "pos_less p (upos u)"
      using False le by (simp add: pos_less_key)
    show ?thesis
    proof (cases "n + 1 = cap")
      case True
      then show ?thesis
        using False new by (simp add: later_keys_Cons tx_keys_Cons Let_def)
    next
      case n: False
      have keep: "?k < ?ds ! (cap - Suc n - 1)" if "\<not> Suc n + length ?ds < cap"
        using later_keys_greater [of ?k us "?ds ! (cap - Suc n - 1)"] srt Cons.prems(2) n that by auto
      have idx: "(?k # ?ds) ! (cap - n - 1) = ?ds ! (cap - Suc n - 1)"
        using n Cons.prems(2) by (cases "cap - n - 1") auto
      show ?thesis
        using Cons.IH [of "upos u" "Suc n"] Cons.prems(2) srt False new n keep idx
        by (auto simp: later_keys_Cons tx_keys_Cons Let_def)
    qed
  qed
qed simp

text \<open>The whole loop, from an empty accumulator.\<close>

lemma truncate_loop_start:
  assumes "events_sorted us" "2 \<le> cap"
  shows "truncate_loop cap us 0 None =
    (let ds = tx_keys us in
     if length ds < cap then (us, length ds) else (takeWhile (\<lambda>u. ukey u < ds ! (cap - 1)) us, cap))"
proof (cases us)
  case (Cons u us')
  let ?ds = "later_keys (ukey u) us'"
  have keep: "ukey u < ?ds ! (cap - 2)" if "\<not> Suc (length ?ds) < cap"
    using later_keys_greater [of "ukey u" us' "?ds ! (cap - 2)"] assms that Cons by auto
  have idx: "(ukey u # ?ds) ! (cap - 1) = ?ds ! (cap - 2)"
    using assms(2) by (cases cap) (auto simp: numeral_2_eq_2 nth_Cons')
  show ?thesis
    using truncate_loop_spec [of "upos u" us' 1 cap] assms Cons keep idx
    by (auto simp: tx_keys_Cons Let_def numeral_2_eq_2)
qed (use assms(2) in \<open>simp add: tx_keys_def\<close>)

lemma later_keys_takeWhile:
  "c < d \<Longrightarrow> sorted (c # map ukey us) \<Longrightarrow>
   later_keys c (takeWhile (\<lambda>u. ukey u < d) us) = takeWhile (\<lambda>k. k < d) (later_keys c us)"
proof (induction us arbitrary: c)
  case (Cons u us)
  have IH: "ukey u < d \<Longrightarrow> later_keys (ukey u) (takeWhile (\<lambda>u. ukey u < d) us) =
      takeWhile (\<lambda>k. k < d) (later_keys (ukey u) us)"
    using Cons.prems Cons.IH [of "ukey u"] by simp
  then show ?case
    using Cons.prems by (auto simp: later_keys_Cons tx_keys_Cons)
qed simp

lemma tx_keys_takeWhile:
  "events_sorted us \<Longrightarrow> tx_keys (takeWhile (\<lambda>u. ukey u < d) us) = takeWhile (\<lambda>k. k < d) (tx_keys us)"
  by (cases us) (auto simp: tx_keys_Cons later_keys_takeWhile, simp_all add: tx_keys_def)

lemma tx_keys_strict: "events_sorted us \<Longrightarrow> sorted_wrt (<) (tx_keys us)"
proof (induction us)
  case (Cons u us)
  have later: "sorted_wrt (<) (later_keys (ukey u) us)"
  proof (cases us)
    case us: (Cons v vs)
    then show ?thesis
      using Cons.prems Cons.IH by (auto simp: later_keys_Cons tx_keys_Cons)
  qed simp
  then show ?case
    using later_keys_greater [of "ukey u" us] Cons.prems by (auto simp: tx_keys_Cons)
qed (simp add: tx_keys_def)

section \<open>What a truncated answer contains\<close>

lemma in_range_sorted: "events_sorted chain \<Longrightarrow> events_sorted (in_range s e chain)"
  by (simp add: in_range_def sorted_filter)

text \<open>No event is at the last transaction index a block could have.\<close>

definition indices_ok :: "ObservedUtxo list \<Rightarrow> bool" where
  "indices_ok us = list_all (\<lambda>u. tx_index_in_block (upos u) \<noteq> - 1) us"

lemma truncate_cases [consumes 2, case_names full cut]:
  assumes "events_sorted us" "2 \<le> cap"
  obtains (full) "length (tx_keys us) < cap"
      "truncate_to_tx_capacity us cap s e = (\<lparr>obs_start = s, obs_end = e, obs_utxos = us\<rparr>, True)"
  | (cut) d l where "cap \<le> length (tx_keys us)" "d = tx_keys us ! (cap - 1)"
      "takeWhile (\<lambda>u. ukey u < d) us \<noteq> []" "l = last (takeWhile (\<lambda>u. ukey u < d) us)" "ukey l < d" "l \<in> set us"
      "truncate_to_tx_capacity us cap s e =
        (\<lparr>obs_start = s, obs_end = increment (upos l), obs_utxos = takeWhile (\<lambda>u. ukey u < d) us\<rparr>, False)"
proof (cases "length (tx_keys us) < cap")
  case True
  then show ?thesis
    using truncate_loop_start [OF assms] full by (simp add: truncate_to_tx_capacity_def Let_def)
next
  case False
  let ?d = "tx_keys us ! (cap - 1)" and ?t = "takeWhile (\<lambda>u. ukey u < tx_keys us ! (cap - 1)) us"
  have "length (tx_keys ?t) = cap - 1"
    using False assms tx_keys_strict [OF assms(1)]
    by (simp add: tx_keys_takeWhile takeWhile_strict_length)
  then have ne: "?t \<noteq> []"
    using assms(2) by (auto simp: tx_keys_def)
  then have "last ?t \<in> set ?t"
    by simp
  then have "ukey (last ?t) < ?d" "last ?t \<in> set us"
    by (auto dest: set_takeWhileD)
  then show ?thesis
    using truncate_loop_start [OF assms] False cut [of ?d "last ?t"] ne
    by (simp add: truncate_to_tx_capacity_def Let_def)
qed

text \<open>The kept prefix is what lies before the end position of the answer.\<close>

lemma takeWhile_before_last:
  assumes srt: "events_sorted us" and t: "takeWhile (\<lambda>u. ukey u < d) us \<noteq> []"
    and idx: "indices_ok us"
  defines "l \<equiv> last (takeWhile (\<lambda>u. ukey u < d) us)"
  shows "filter (\<lambda>u. pos_less (upos u) (increment (upos l))) us = takeWhile (\<lambda>u. ukey u < d) us"
proof -
  let ?t = "takeWhile (\<lambda>u. ukey u < d) us"
  have l: "l \<in> set ?t"
    using t by (simp add: l_def)
  then have "ukey l < d" "tx_index_in_block (upos l) \<noteq> - 1"
    using idx by (auto simp: indices_ok_def list_all_iff dest: set_takeWhileD)
  moreover have "events_sorted ?t"
    using srt by (simp add: takeWhile_sorted_filter sorted_filter)
  then have "ukey u \<le> ukey l" if "u \<in> set ?t" for u
    using that t unfolding l_def by (intro sorted_map_last)
  ultimately have "pos_less (upos u) (increment (upos l)) \<longleftrightarrow> ukey u < d" if "u \<in> set us" for u
    using that srt by (auto simp: pos_less_increment pos_le_key takeWhile_sorted_filter)
  then show ?thesis
    by (simp add: takeWhile_sorted_filter [OF srt] cong: filter_cong)
qed

text \<open>The answer that follows a cut answer starts where it ended.\<close>

lemma in_range_resume:
  assumes srt: "events_sorted chain" and idx: "indices_ok chain"
    and l: "l \<in> set (in_range s e chain)"
  defines "m \<equiv> increment (upos l)"
  shows "in_range s e chain =
    filter (\<lambda>u. pos_less (upos u) m) (in_range s e chain) @ in_range m e chain"
proof -
  let ?w = "in_range s e chain"
  have "pos_le s (upos l)" "tx_index_in_block (upos l) \<noteq> - 1"
    using l idx by (auto simp: in_range_def indices_ok_def list_all_iff)
  then have "pos_less s m"
    by (simp add: m_def pos_less_increment)
  then have "in_range m e chain = filter (\<lambda>u. pos_key m \<le> ukey u) ?w"
    by (auto simp: in_range_def pos_le_key pos_less_key intro!: filter_cong)
  also have "\<dots> = dropWhile (\<lambda>u. ukey u < pos_key m) ?w"
    using in_range_sorted [OF srt] by (simp add: dropWhile_sorted_filter)
  finally show ?thesis
    using in_range_sorted [OF srt] by (simp add: pos_less_key flip: takeWhile_sorted_filter)
qed

lemma indices_ok_in_range: "indices_ok chain \<Longrightarrow> indices_ok (in_range s e chain)"
  by (auto simp: indices_ok_def in_range_def list_all_iff)

lemma pages_complete:
  assumes srt: "events_sorted chain" and cap: "2 \<le> cap" and idx: "indices_ok chain"
  shows "length (in_range s e chain) < fuel \<Longrightarrow>
    \<exists>rs. pages fuel chain cap s e = Some rs \<and> concat (map obs_utxos rs) = in_range s e chain
      \<and> list_all (\<lambda>r. length (tx_keys (obs_utxos r)) < cap) rs \<and> obs_end (last rs) = e \<and> rs \<noteq> []"
proof (induction fuel arbitrary: s)
  case (Suc fuel)
  let ?w = "in_range s e chain"
  note w = in_range_sorted [OF srt, of s e]
  show ?case
    using w cap
  proof (cases rule: truncate_cases [where s = s and e = e])
    case full
    then show ?thesis by simp
  next
    case (cut d l)
    let ?m = "increment (upos l)"
    have prefix: "takeWhile (\<lambda>u. ukey u < d) ?w = filter (\<lambda>u. pos_less (upos u) ?m) ?w"
      using takeWhile_before_last [OF w cut(3) indices_ok_in_range [OF idx]] cut(4) by simp
    note split = in_range_resume [OF srt idx cut(6)]
    have "length (in_range ?m e chain) < length ?w"
      using cut(3) prefix arg_cong [OF split, of length] by simp
    then obtain rs where rs: "pages fuel chain cap ?m e = Some rs"
      "concat (map obs_utxos rs) = in_range ?m e chain"
      "list_all (\<lambda>r. length (tx_keys (obs_utxos r)) < cap) rs" "obs_end (last rs) = e" "rs \<noteq> []"
      using Suc.IH [of ?m] Suc.prems by auto
    have "length (tx_keys (takeWhile (\<lambda>u. ukey u < d) ?w)) < cap"
      using cut(1,2) cap tx_keys_strict [OF w] by (simp add: tx_keys_takeWhile [OF w] takeWhile_strict_length)
    then show ?thesis
      using rs cut(7) prefix split by simp
  qed
qed simp

section \<open>A concrete chain\<close>

definition cw_utxo :: "u32 \<Rightarrow> u32 \<Rightarrow> u16 \<Rightarrow> ObservedUtxo" where
  "cw_utxo b i k = \<lparr>header = \<lparr>tx_position = \<lparr>block_hash = [], block_number = b, block_timestamp = 0,
      tx_index_in_block = i\<rparr>, tx_hash = [1], utxo_tx_hash = [1], utxo_index = k\<rparr>,
     utxo_data = Registration \<lparr>reg_address = [], reg_dust_key = []\<rparr>\<rparr>"

definition cw_pos :: "u32 \<Rightarrow> u32 \<Rightarrow> CardanoPosition" where
  "cw_pos b i = \<lparr>block_hash = [], block_number = b, block_timestamp = 0, tx_index_in_block = i\<rparr>"

definition cw_chain :: "ObservedUtxo list" where
  "cw_chain = [cw_utxo 1 0 0, cw_utxo 1 0 1, cw_utxo 1 4 0, cw_utxo 2 1 0]"

lemma cw_chain_ok: "events_sorted cw_chain" "indices_ok cw_chain"
  by (simp_all add: cw_chain_def cw_utxo_def upos_def pos_key_def indices_ok_def)

section \<open>Properties\<close>

text \<open>
  an answer cut to a capacity of at least two transactions is exactly the
  part of the sorted events that lies before the answer's end position, so
  that no transaction is split and none is skipped; it holds fewer
  transactions than the capacity, and it is reported as covering the window
  exactly when all of the window's transactions fit.
\<close>

lemma truncate_whole_transactions:
  assumes "events_sorted us" "2 \<le> cap" "indices_ok us" "list_all (\<lambda>u. pos_less (upos u) e) us"
    and "truncate_to_tx_capacity us cap s e = (r, full)"
  shows "obs_utxos r = filter (\<lambda>u. pos_less (upos u) (obs_end r)) us
    \<and> length (tx_keys (obs_utxos r)) < cap
    \<and> (full \<longleftrightarrow> length (tx_keys us) < cap) \<and> (full \<longrightarrow> obs_end r = e)
    \<and> (\<not> full \<longrightarrow> length (tx_keys (obs_utxos r)) = cap - 1)"
  using assms(1,2)
proof (cases rule: truncate_cases [where s = s and e = e])
  case full
  then show ?thesis
    using assms(4,5) by (auto simp: list_all_iff)
next
  case (cut d l)
  have "length (tx_keys (takeWhile (\<lambda>u. ukey u < d) us)) = cap - 1"
    using cut(1,2) assms(2) tx_keys_strict [OF assms(1)]
    by (simp add: tx_keys_takeWhile [OF assms(1)] takeWhile_strict_length)
  then show ?thesis
    using cut assms(2,5) takeWhile_before_last [OF assms(1) cut(3) assms(3)] by auto
qed

lemma truncate_whole_transactions_example:
  "filter (\<lambda>u. pos_less (upos u) (cw_pos 1 5)) cw_chain = [cw_utxo 1 0 0, cw_utxo 1 0 1, cw_utxo 1 4 0]"
proof -
  have cut: "truncate_to_tx_capacity cw_chain 3 (cw_pos 1 0) (cw_pos 9 0) =
    (\<lparr>obs_start = cw_pos 1 0, obs_end = cw_pos 1 5,
      obs_utxos = [cw_utxo 1 0 0, cw_utxo 1 0 1, cw_utxo 1 4 0]\<rparr>, False)"
    by (simp add: truncate_to_tx_capacity_def cw_chain_def cw_utxo_def cw_pos_def upos_def
        pos_less_key pos_key_def increment_def)
  have before: "list_all (\<lambda>u. pos_less (upos u) (cw_pos 9 0)) cw_chain"
    by (simp add: cw_chain_def cw_utxo_def cw_pos_def upos_def pos_less_key pos_key_def)
  show ?thesis
    using truncate_whole_transactions [OF cw_chain_ok(1) _ cw_chain_ok(2) before cut] by simp
qed



text \<open>
  A capacity of one transaction accepts no event of a non-empty window,
  but still moves the end one transaction past the start: an event at the
  start position is skipped.
\<close>

lemma capacity_one_skips:
  "truncate_to_tx_capacity (u # us) 1 (upos u) e =
    (\<lparr>obs_start = upos u, obs_end = increment (upos u), obs_utxos = []\<rparr>, False)"
  by (simp add: truncate_to_tx_capacity_def)

end
