(* ===== verification/CNight_Source.thy ===== *)
theory CNight_Source
  imports CNight_Window
begin

text \<open>
  The two cNIGHT observation data sources of the node
  (\<open>primitives/mainchain-follower/src/data_source\<close>): the one that queries
  db-sync for every call and the one that answers from a sliding window kept
  in memory.  A query is the rows its SQL text selects: the rows of the joined
  tables in the order of its \<open>ORDER BY\<close>, restricted to the half-open range of
  its \<open>WHERE\<close> clause and cut by its \<open>LIMIT\<close>.  The tables themselves are the
  record \<open>cnight_db\<close> and the Cardano address library is the record \<open>csl\<close>.
\<close>

section \<open>Data\<close>

datatype PlutusData =
    ConstrPlutusData u64 "PlutusData list"
  | PlutusBytes "u8 list"
  | PlutusOther nat

record RegistrationRow =
  rr_datum :: PlutusData
  rr_position :: CardanoPosition
  rr_tx_hash :: mc_hash
  rr_utxo_index :: u16

record DeregistrationRow =
  dr_datum :: PlutusData
  dr_position :: CardanoPosition
  dr_tx_hash :: mc_hash
  dr_utxo_tx_hash :: mc_hash
  dr_utxo_index :: u16

record AssetCreateRow =
  cr_position :: CardanoPosition
  cr_quantity :: u64
  cr_holder_address :: string
  cr_tx_hash :: mc_hash
  cr_utxo_index :: u16

record AssetSpendRow =
  sr_position :: CardanoPosition
  sr_quantity :: u64
  sr_holder_address :: string
  sr_utxo_tx_hash :: mc_hash
  sr_utxo_index :: u16
  sr_spending_tx_hash :: mc_hash

record DbBlock =
  db_block_number :: u32
  db_hash :: mc_hash
  db_time :: u64
  db_tx_count :: u64

record cnight_db =
  db_blocks :: "DbBlock list"
  db_multi_asset :: "u8 list \<Rightarrow> string \<Rightarrow> u64 option"
  registration_rows :: "string \<Rightarrow> u64 \<Rightarrow> RegistrationRow list"
  deregistration_rows :: "string \<Rightarrow> DeregistrationRow list"
  create_rows :: "u64 \<Rightarrow> AssetCreateRow list"
  spend_rows :: "u64 \<Rightarrow> AssetSpendRow list"

record CNightAddresses =
  mapping_validator_address :: string
  auth_token_asset_name :: string
  cnight_policy_id :: "u8 list"
  cnight_asset_name :: string

record ('addr, 'cred) csl =
  from_bech32 :: "string \<Rightarrow> 'addr option"
  network_id :: "'addr \<Rightarrow> u8 option"
  enterprise_payment_cred :: "'addr \<Rightarrow> 'cred option"
  to_scripthash :: "'cred \<Rightarrow> u8 list option"
  base_stake_cred :: "'addr \<Rightarrow> 'cred option"
  keyhash_cred :: "u8 list \<Rightarrow> 'cred option"
  scripthash_cred :: "u8 list \<Rightarrow> 'cred option"
  reward_address_bytes :: "u8 \<Rightarrow> 'cred \<Rightarrow> reward_address"

datatype RegistrationDatumDecodeError =
    CardanoCredentialNotBytes
  | CardanoCredentialInvalidTag u64
  | CardanoCredentialInvalidKeyHash
  | CardanoCredentialInvalidScriptHash
  | DustAddressNotBytes
  | DustAddressInvalidLength nat

datatype source_error =
    MissingBlockReference mc_hash
  | InvalidMappingValidatorAddress
  | NetworkId
  | NotEnterpriseAddress
  | MissingScriptHash
  | MissingHighBounds u32
  | SourcePanic string

section \<open>Decoding rows\<close>

fun as_constr_plutus_data :: "PlutusData \<Rightarrow> (u64 \<times> PlutusData list) option" where
  "as_constr_plutus_data (ConstrPlutusData a ds) = Some (a, ds)"
| "as_constr_plutus_data _ = None"

fun as_bytes :: "PlutusData \<Rightarrow> u8 list option" where
  "as_bytes (PlutusBytes bs) = Some bs"
| "as_bytes _ = None"

definition list_first :: "'a list \<Rightarrow> 'a option" where
  "list_first xs = (case xs of [] \<Rightarrow> None | x # _ \<Rightarrow> Some x)"

definition decode_registration_datum ::
  "('addr, 'cred) csl \<Rightarrow> PlutusData list \<Rightarrow> (RegistrationDatumDecodeError, 'cred \<times> dust_key) result" where
  "decode_registration_datum lib datum =
    (case Option.bind (list_first datum) as_constr_plutus_data of
       None \<Rightarrow> Inl CardanoCredentialNotBytes
     | Some (alternative, data) \<Rightarrow>
        bind_result
          (if alternative = 0 then
             ok_or CardanoCredentialInvalidKeyHash
               (Option.bind (Option.bind (list_first data) as_bytes) (keyhash_cred lib))
           else if alternative = 1 then
             ok_or CardanoCredentialInvalidScriptHash
               (Option.bind (Option.bind (list_first data) as_bytes) (scripthash_cred lib))
           else Inl (CardanoCredentialInvalidTag alternative))
          (\<lambda>credential.
             case Option.bind (list_first (drop 1 datum)) as_bytes of
               None \<Rightarrow> Inl DustAddressNotBytes
             | Some dust \<Rightarrow>
                 if length dust \<le> 33 then Inr (credential, dust)
                 else Inl (DustAddressInvalidLength (length dust))))"

text \<open>The loops over the rows skip what does not decode.\<close>

definition registration_utxo :: "('addr, 'cred) csl \<Rightarrow> u8 \<Rightarrow> RegistrationRow \<Rightarrow> ObservedUtxo option" where
  "registration_utxo lib network row =
    (case as_constr_plutus_data (rr_datum row) of
       None \<Rightarrow> None
     | Some (_, datum) \<Rightarrow>
        (case decode_registration_datum lib datum of
           Inl _ \<Rightarrow> None
         | Inr (credential, dust) \<Rightarrow> Some
            \<lparr>header = \<lparr>tx_position = rr_position row, tx_hash = rr_tx_hash row,
               utxo_tx_hash = rr_tx_hash row, utxo_index = rr_utxo_index row\<rparr>,
             utxo_data = Registration \<lparr>reg_address = reward_address_bytes lib network credential,
               reg_dust_key = dust\<rparr>\<rparr>))"

definition deregistration_utxo :: "('addr, 'cred) csl \<Rightarrow> u8 \<Rightarrow> DeregistrationRow \<Rightarrow> ObservedUtxo option" where
  "deregistration_utxo lib network row =
    (case as_constr_plutus_data (dr_datum row) of
       None \<Rightarrow> None
     | Some (_, datum) \<Rightarrow>
        (case decode_registration_datum lib datum of
           Inl _ \<Rightarrow> None
         | Inr (credential, dust) \<Rightarrow> Some
            \<lparr>header = \<lparr>tx_position = dr_position row, tx_hash = dr_tx_hash row,
               utxo_tx_hash = dr_utxo_tx_hash row, utxo_index = dr_utxo_index row\<rparr>,
             utxo_data = Deregistration \<lparr>dereg_address = reward_address_bytes lib network credential,
               dereg_dust_key = dust\<rparr>\<rparr>))"

definition asset_create_utxo :: "('addr, 'cred) csl \<Rightarrow> u8 \<Rightarrow> AssetCreateRow \<Rightarrow> ObservedUtxo option" where
  "asset_create_utxo lib network row =
    (case Option.bind (from_bech32 lib (cr_holder_address row)) (base_stake_cred lib) of
       None \<Rightarrow> None
     | Some cred \<Rightarrow> Some
        \<lparr>header = \<lparr>tx_position = cr_position row, tx_hash = cr_tx_hash row,
           utxo_tx_hash = cr_tx_hash row, utxo_index = cr_utxo_index row\<rparr>,
         utxo_data = AssetCreate \<lparr>create_value = scast (cr_quantity row),
           create_owner = reward_address_bytes lib network cred,
           create_utxo_tx_hash = cr_tx_hash row, create_utxo_tx_index = cr_utxo_index row\<rparr>\<rparr>)"

definition asset_spend_utxo :: "('addr, 'cred) csl \<Rightarrow> u8 \<Rightarrow> AssetSpendRow \<Rightarrow> ObservedUtxo option" where
  "asset_spend_utxo lib network row =
    (case Option.bind (from_bech32 lib (sr_holder_address row)) (base_stake_cred lib) of
       None \<Rightarrow> None
     | Some cred \<Rightarrow> Some
        \<lparr>header = \<lparr>tx_position = sr_position row, tx_hash = sr_spending_tx_hash row,
           utxo_tx_hash = sr_utxo_tx_hash row, utxo_index = sr_utxo_index row\<rparr>,
         utxo_data = AssetSpend \<lparr>spend_value = scast (sr_quantity row),
           spend_owner = reward_address_bytes lib network cred,
           spend_utxo_tx_hash = sr_utxo_tx_hash row, spend_utxo_tx_index = sr_utxo_index row,
           spending_tx_hash = sr_spending_tx_hash row\<rparr>\<rparr>)"

section \<open>Queries\<close>

definition select_rows ::
  "('r \<Rightarrow> CardanoPosition) \<Rightarrow> CardanoPosition \<Rightarrow> CardanoPosition \<Rightarrow> nat \<Rightarrow> 'r list \<Rightarrow> 'r list" where
  "select_rows pos s e limit rows =
     take limit (filter (\<lambda>r. pos_le s (pos r) \<and> pos_less (pos r) e) rows)"

definition get_registration_utxos ::
  "('addr, 'cred) csl \<Rightarrow> cnight_db \<Rightarrow> u8 \<Rightarrow> u64 \<Rightarrow> string \<Rightarrow> CardanoPosition \<Rightarrow> CardanoPosition \<Rightarrow> nat \<Rightarrow> ObservedUtxo list" where
  "get_registration_utxos lib db network ident address s e limit =
     List.map_filter (registration_utxo lib network)
       (select_rows rr_position s e limit (registration_rows db address ident))"

definition get_deregistration_utxos ::
  "('addr, 'cred) csl \<Rightarrow> cnight_db \<Rightarrow> u8 \<Rightarrow> string \<Rightarrow> CardanoPosition \<Rightarrow> CardanoPosition \<Rightarrow> nat \<Rightarrow> ObservedUtxo list" where
  "get_deregistration_utxos lib db network address s e limit =
     List.map_filter (deregistration_utxo lib network)
       (select_rows dr_position s e limit (deregistration_rows db address))"

definition get_asset_create_utxos ::
  "('addr, 'cred) csl \<Rightarrow> cnight_db \<Rightarrow> u8 \<Rightarrow> u64 \<Rightarrow> CardanoPosition \<Rightarrow> CardanoPosition \<Rightarrow> nat \<Rightarrow> ObservedUtxo list" where
  "get_asset_create_utxos lib db network ident s e limit =
     List.map_filter (asset_create_utxo lib network)
       (select_rows cr_position s e limit (create_rows db ident))"

definition get_asset_spend_utxos ::
  "('addr, 'cred) csl \<Rightarrow> cnight_db \<Rightarrow> u8 \<Rightarrow> u64 \<Rightarrow> CardanoPosition \<Rightarrow> CardanoPosition \<Rightarrow> nat \<Rightarrow> ObservedUtxo list" where
  "get_asset_spend_utxos lib db network ident s e limit =
     List.map_filter (asset_spend_utxo lib network)
       (select_rows sr_position s e limit (spend_rows db ident))"

definition block_position :: "DbBlock \<Rightarrow> CardanoPosition" where
  "block_position b = \<lparr>block_hash = db_hash b, block_number = db_block_number b,
     block_timestamp = db_time b, tx_index_in_block = ucast (db_tx_count b)\<rparr>"

definition get_block_by_hash :: "cnight_db \<Rightarrow> mc_hash \<Rightarrow> DbBlock option" where
  "get_block_by_hash db h = find (\<lambda>b. db_hash b = h) (db_blocks db)"

fun list_max :: "'a::linorder list \<Rightarrow> 'a option" where
  "list_max [] = None"
| "list_max (x # xs) = (case list_max xs of None \<Rightarrow> Some x | Some m \<Rightarrow> Some (max x m))"

definition get_highest_stable_block_le :: "cnight_db \<Rightarrow> u32 \<Rightarrow> u32 \<Rightarrow> u32 option" where
  "get_highest_stable_block_le db upper stability_margin =
    (let numbers = map db_block_number (db_blocks db) in
     case list_max numbers of
       None \<Rightarrow> None
     | Some latest \<Rightarrow>
         (let stable_upper = saturating_sub latest stability_margin;
              bounded_upper = min upper stable_upper
          in list_max (filter (\<lambda>n. n \<le> bounded_upper) numbers)))"

definition bulk_pull ::
  "('addr, 'cred) csl \<Rightarrow> cnight_db \<Rightarrow> CNightAddresses \<Rightarrow> CardanoPosition \<Rightarrow> CardanoPosition \<Rightarrow> nat
    \<Rightarrow> (source_error, ObservedUtxo list) result" where
  "bulk_pull lib db cfg s e limit =
    bind_result (ok_or InvalidMappingValidatorAddress (from_bech32 lib (mapping_validator_address cfg))) (\<lambda>addr.
    bind_result (ok_or NetworkId (network_id lib addr)) (\<lambda>network.
    bind_result (ok_or NotEnterpriseAddress (enterprise_payment_cred lib addr)) (\<lambda>cred.
    bind_result (ok_or MissingScriptHash (to_scripthash lib cred)) (\<lambda>policy.
    let auth_token_ident = db_multi_asset db policy (auth_token_asset_name cfg);
        cnight_ident = db_multi_asset db (cnight_policy_id cfg) (cnight_asset_name cfg)
    in if \<not> list_ex (\<lambda>b. db_block_number b = block_number e) (db_blocks db)
       then Inl (MissingHighBounds (block_number e))
       else if \<not> limit < 2147483647 then Inl (SourcePanic ''query.limit < i32::MAX'')
       else
         (let registrations = (case auth_token_ident of None \<Rightarrow> []
                | Some ident \<Rightarrow> get_registration_utxos lib db network ident (mapping_validator_address cfg) s e limit);
              deregistrations = get_deregistration_utxos lib db network (mapping_validator_address cfg) s e limit;
              assets = (case cnight_ident of None \<Rightarrow> []
                | Some ident \<Rightarrow> get_asset_create_utxos lib db network ident s e limit
                    @ get_asset_spend_utxos lib db network ident s e limit)
          in Inr (sort_by utxo_cmp (registrations @ deregistrations @ assets)))))))"

text \<open>The source that asks db-sync for every call.\<close>

definition db_get_utxos_up_to_capacity ::
  "('addr, 'cred) csl \<Rightarrow> cnight_db \<Rightarrow> CNightAddresses \<Rightarrow> CardanoPosition \<Rightarrow> mc_hash \<Rightarrow> nat \<Rightarrow> nat
    \<Rightarrow> (source_error, ObservedUtxos) result" where
  "db_get_utxos_up_to_capacity lib db cfg start_position current_tip tx_capacity utxo_overestimate =
    bind_result (ok_or (MissingBlockReference current_tip) (get_block_by_hash db current_tip)) (\<lambda>block.
    let e = increment (block_position block) in
    bind_result (bulk_pull lib db cfg start_position e utxo_overestimate) (\<lambda>utxos.
    Inr (fst (truncate_to_tx_capacity utxos tx_capacity start_position e))))"

section \<open>The sliding-window source\<close>

record LastObservation =
  lo_start_position :: CardanoPosition
  lo_current_tip :: mc_hash
  lo_result :: ObservedUtxos

record cache_config =
  cc_addresses :: CNightAddresses
  cc_stability_margin :: u32
  cc_window_size :: u32

record cache_state =
  all_events :: "ObservedUtxo list"
  block_position_cache :: "mc_hash \<Rightarrow> CardanoPosition option"
  last_observation :: "LastObservation option"
  snapshot_start_block :: "u32 option"
  snapshot_end_block :: "u32 option"

definition LARGE_LIMIT :: nat where
  "LARGE_LIMIT = 5000000"

definition REFRESH_THRESHOLD :: u32 where
  "REFRESH_THRESHOLD = 10000"

definition cache_new :: "ObservedUtxo list \<Rightarrow> u32 \<Rightarrow> u32 \<Rightarrow> cache_state" where
  "cache_new events window_start_block window_end_block =
    \<lparr>all_events = events, block_position_cache = Map.empty, last_observation = None,
     snapshot_start_block = Some window_start_block, snapshot_end_block = Some window_end_block\<rparr>"

text \<open>A refresh writes three locked fields one after the other.\<close>

definition refresh_slide :: "ObservedUtxo list \<Rightarrow> u32 \<Rightarrow> cache_state \<Rightarrow> cache_state" where
  "refresh_slide extension new_window_start st =
     st\<lparr>all_events := slide_events (all_events st) extension new_window_start\<rparr>"

definition refresh_set_start :: "u32 \<Rightarrow> cache_state \<Rightarrow> cache_state" where
  "refresh_set_start n st = st\<lparr>snapshot_start_block := Some n\<rparr>"

definition refresh_set_end :: "u32 \<Rightarrow> cache_state \<Rightarrow> cache_state" where
  "refresh_set_end n st = st\<lparr>snapshot_end_block := Some n\<rparr>"

definition cache_refresh ::
  "('addr, 'cred) csl \<Rightarrow> cnight_db \<Rightarrow> cache_config \<Rightarrow> u32 \<Rightarrow> u32 \<Rightarrow> cache_state \<Rightarrow> (source_error, cache_state) result" where
  "cache_refresh lib db cc follower_anchor target_end st =
    (case get_highest_stable_block_le db target_end (cc_stability_margin cc) of
       None \<Rightarrow> Inr st
     | Some target \<Rightarrow>
        (let old_end = (case snapshot_end_block st of None \<Rightarrow> 0 | Some e \<Rightarrow> e) in
         if target \<le> old_end then Inr st
         else
           (let existing_start = (case snapshot_start_block st of
                   None \<Rightarrow> saturating_add old_end 1 | Some b \<Rightarrow> b);
                trim_anchor = map_option (\<lambda>prev. block_number (lo_start_position prev)) (last_observation st);
                (from_block, new_window_start) =
                   plan_refresh old_end follower_anchor existing_start trim_anchor (cc_window_size cc)
            in if target < from_block then Inr st
               else bind_result
                 (bulk_pull lib db (cc_addresses cc) (min_for_block from_block) (max_for_block target) LARGE_LIMIT)
                 (\<lambda>extension. Inr (refresh_set_end target (refresh_set_start new_window_start
                    (refresh_slide extension new_window_start st)))))))"

text \<open>Whether the window covers a query, and what it then answers.\<close>

definition cache_covers :: "cache_state \<Rightarrow> CardanoPosition \<Rightarrow> CardanoPosition \<Rightarrow> bool" where
  "cache_covers st start_position tip_pos =
    (case snapshot_end_block st of
       None \<Rightarrow> False
     | Some snapshot_end \<Rightarrow>
         \<not> (block_number tip_pos > snapshot_end
            \<or> (case snapshot_start_block st of None \<Rightarrow> False
                 | Some snapshot_start \<Rightarrow> block_number start_position < snapshot_start)))"

definition cache_answer :: "cache_state \<Rightarrow> CardanoPosition \<Rightarrow> CardanoPosition \<Rightarrow> nat \<Rightarrow> (source_error, ObservedUtxos) result" where
  "cache_answer st start_position tip_pos tx_capacity =
    (let e = increment tip_pos in
     case slice_range (all_events st) start_position e of
       None \<Rightarrow> Inl (SourcePanic ''slice index starts past its end'')
     | Some window \<Rightarrow> Inr (fst (truncate_to_tx_capacity window tx_capacity start_position e)))"

definition refresh_kick :: "cache_config \<Rightarrow> cache_state \<Rightarrow> CardanoPosition \<Rightarrow> CardanoPosition \<Rightarrow> (u32 \<times> u32) option" where
  "refresh_kick cc st start_position tip_pos =
    (case snapshot_end_block st of
       None \<Rightarrow> None
     | Some snapshot_end \<Rightarrow>
         if saturating_add (block_number tip_pos) REFRESH_THRESHOLD \<ge> snapshot_end
         then Some (block_number start_position,
                saturating_add (saturating_add (block_number tip_pos) REFRESH_THRESHOLD) (cc_stability_margin cc))
         else None)"

definition same_tip_hit :: "cache_state \<Rightarrow> CardanoPosition \<Rightarrow> mc_hash \<Rightarrow> ObservedUtxos option" where
  "same_tip_hit st start_position current_tip =
    (case last_observation st of
       Some prev \<Rightarrow>
         if lo_current_tip prev = current_tip \<and> lo_start_position prev = start_position
         then Some (lo_result prev) else None
     | None \<Rightarrow> None)"

definition resolve_tip :: "cnight_db \<Rightarrow> mc_hash \<Rightarrow> cache_state \<Rightarrow> (CardanoPosition \<times> cache_state) option" where
  "resolve_tip db current_tip st =
    (case block_position_cache st current_tip of
       Some pos \<Rightarrow> Some (pos, st)
     | None \<Rightarrow>
        (case get_block_by_hash db current_tip of
           None \<Rightarrow> None
         | Some block \<Rightarrow> Some (block_position block,
             st\<lparr>block_position_cache := (block_position_cache st)(current_tip \<mapsto> block_position block)\<rparr>)))"

definition cached_get_utxos_up_to_capacity ::
  "('addr, 'cred) csl \<Rightarrow> cnight_db \<Rightarrow> cache_config \<Rightarrow> CNightAddresses \<Rightarrow> CardanoPosition \<Rightarrow> mc_hash \<Rightarrow> nat \<Rightarrow> nat
    \<Rightarrow> cache_state \<Rightarrow> (source_error, ObservedUtxos) result \<times> cache_state \<times> (u32 \<times> u32) option" where
  "cached_get_utxos_up_to_capacity lib db cc cfg start_position current_tip tx_capacity utxo_overestimate st =
    (case same_tip_hit st start_position current_tip of
       Some r \<Rightarrow> (Inr r, st, None)
     | None \<Rightarrow>
        (case resolve_tip db current_tip st of
           None \<Rightarrow> (Inl (MissingBlockReference current_tip), st, None)
         | Some (tip_pos, st) \<Rightarrow>
            (let kick = refresh_kick cc st start_position tip_pos in
             if \<not> cache_covers st start_position tip_pos
             then (db_get_utxos_up_to_capacity lib db cfg start_position current_tip tx_capacity utxo_overestimate,
                   st, kick)
             else (case cache_answer st start_position tip_pos tx_capacity of
                 Inl err \<Rightarrow> (Inl err, st, kick)
               | Inr result \<Rightarrow>
                   (Inr result,
                    st\<lparr>last_observation := Some \<lparr>lo_start_position = start_position,
                        lo_current_tip = current_tip, lo_result = result\<rparr>\<rparr>, kick)))))"

section \<open>What the sources observe\<close>

text \<open>
  The events of the chain under a configuration: all rows of the four queries,
  decoded and sorted.  A configuration resolves when its validator address
  gives a network and a policy.
\<close>

definition resolves :: "('addr, 'cred) csl \<Rightarrow> CNightAddresses \<Rightarrow> u8 \<Rightarrow> u8 list \<Rightarrow> bool" where
  "resolves lib cfg network policy \<longleftrightarrow>
    (\<exists>addr cred. from_bech32 lib (mapping_validator_address cfg) = Some addr
       \<and> network_id lib addr = Some network \<and> enterprise_payment_cred lib addr = Some cred
       \<and> to_scripthash lib cred = Some policy)"

definition registration_table :: "cnight_db \<Rightarrow> CNightAddresses \<Rightarrow> u8 list \<Rightarrow> RegistrationRow list" where
  "registration_table db cfg policy =
    (case db_multi_asset db policy (auth_token_asset_name cfg) of
       None \<Rightarrow> [] | Some ident \<Rightarrow> registration_rows db (mapping_validator_address cfg) ident)"

definition create_table :: "cnight_db \<Rightarrow> CNightAddresses \<Rightarrow> AssetCreateRow list" where
  "create_table db cfg =
    (case db_multi_asset db (cnight_policy_id cfg) (cnight_asset_name cfg) of
       None \<Rightarrow> [] | Some ident \<Rightarrow> create_rows db ident)"

definition spend_table :: "cnight_db \<Rightarrow> CNightAddresses \<Rightarrow> AssetSpendRow list" where
  "spend_table db cfg =
    (case db_multi_asset db (cnight_policy_id cfg) (cnight_asset_name cfg) of
       None \<Rightarrow> [] | Some ident \<Rightarrow> spend_rows db ident)"

definition chain_events :: "('addr, 'cred) csl \<Rightarrow> cnight_db \<Rightarrow> CNightAddresses \<Rightarrow> u8 \<Rightarrow> u8 list \<Rightarrow> ObservedUtxo list" where
  "chain_events lib db cfg network policy = sort_by utxo_cmp
     (List.map_filter (registration_utxo lib network) (registration_table db cfg policy)
      @ List.map_filter (deregistration_utxo lib network) (deregistration_rows db (mapping_validator_address cfg))
      @ List.map_filter (asset_create_utxo lib network) (create_table db cfg)
      @ List.map_filter (asset_spend_utxo lib network) (spend_table db cfg))"

text \<open>A row limit that no query of the range can reach.\<close>

definition rows_fit :: "cnight_db \<Rightarrow> CNightAddresses \<Rightarrow> u8 list \<Rightarrow> nat \<Rightarrow> bool" where
  "rows_fit db cfg policy limit \<longleftrightarrow> limit < 2147483647
     \<and> length (registration_table db cfg policy) \<le> limit
     \<and> length (deregistration_rows db (mapping_validator_address cfg)) \<le> limit
     \<and> length (create_table db cfg) \<le> limit \<and> length (spend_table db cfg) \<le> limit"

section \<open>Lemmas\<close>

lemma map_filter_select:
  assumes "\<And>r u. f r = Some u \<Longrightarrow> upos u = pos r" "length rows \<le> limit"
  shows "List.map_filter f (select_rows pos s e limit rows) = in_range s e (List.map_filter f rows)"
proof -
  have "take limit (filter (\<lambda>r. pos_le s (pos r) \<and> pos_less (pos r) e) rows) =
      filter (\<lambda>r. pos_le s (pos r) \<and> pos_less (pos r) e) rows"
    using assms(2) by (simp add: le_trans [OF length_filter_le])
  moreover have "List.map_filter f (filter (\<lambda>r. pos_le s (pos r) \<and> pos_less (pos r) e) rows) =
      in_range s e (List.map_filter f rows)"
    using assms(1) by (induction rows) (auto simp: map_filter_simps in_range_def split: option.splits)
  ultimately show ?thesis
    by (simp add: select_rows_def)
qed

lemma upos_rows:
  "registration_utxo lib n r1 = Some u \<Longrightarrow> upos u = rr_position r1"
  "deregistration_utxo lib n r2 = Some u \<Longrightarrow> upos u = dr_position r2"
  "asset_create_utxo lib n r3 = Some u \<Longrightarrow> upos u = cr_position r3"
  "asset_spend_utxo lib n r4 = Some u \<Longrightarrow> upos u = sr_position r4"
  by (auto simp: registration_utxo_def deregistration_utxo_def asset_create_utxo_def
      asset_spend_utxo_def upos_def split: option.splits sum.splits)

lemmas select_utxos =
  map_filter_select [OF upos_rows(1)] map_filter_select [OF upos_rows(2)]
  map_filter_select [OF upos_rows(3)] map_filter_select [OF upos_rows(4)]

lemma in_range_append: "in_range s e (us @ vs) = in_range s e us @ in_range s e vs"
  by (simp add: in_range_def)

lemma in_range_Nil [simp]: "in_range s e [] = []"
  by (simp add: in_range_def)

lemma in_range_sort: "in_range s e (sort_by utxo_cmp us) = sort_by utxo_cmp (in_range s e us)"
  by (simp add: sort_by_utxo in_range_def filter_sort)

lemma chain_events_sorted: "events_sorted (chain_events lib db cfg network policy)"
proof -
  have "sorted (map (header_key \<circ> header) (chain_events lib db cfg network policy))"
    by (simp only: chain_events_def sort_by_utxo sorted_sort_key)
  then show ?thesis
    by (rule sorted_map_mono) (auto simp: header_key_def upos_def)
qed

lemma bulk_pull_range:
  assumes "resolves lib cfg network policy" "rows_fit db cfg policy limit"
    and "list_ex (\<lambda>b. db_block_number b = block_number e) (db_blocks db)"
  shows "bulk_pull lib db cfg s e limit = Inr (in_range s e (chain_events lib db cfg network policy))"
proof -
  obtain addr cred where r: "from_bech32 lib (mapping_validator_address cfg) = Some addr"
    "network_id lib addr = Some network" "enterprise_payment_cred lib addr = Some cred"
    "to_scripthash lib cred = Some policy"
    using assms(1) by (auto simp: resolves_def)
  note fit = assms(2) [unfolded rows_fit_def]
  show ?thesis
    using assms(3) fit
    by (auto simp: bulk_pull_def r Let_def chain_events_def in_range_sort in_range_append
        registration_table_def create_table_def spend_table_def
        get_registration_utxos_def get_deregistration_utxos_def get_asset_create_utxos_def
        get_asset_spend_utxos_def select_utxos map_filter_simps split: option.splits)
qed

lemma slice_range_in_range:
  assumes "events_sorted us" "pos_le s e"
  shows "slice_range us s e = Some (in_range s e us)"
proof -
  let ?lo = "takeWhile (\<lambda>u. ukey u < pos_key s) us" and ?hi = "takeWhile (\<lambda>u. ukey u < pos_key e) us"
  have hi: "events_sorted ?hi"
    using assms(1) by (simp add: takeWhile_sorted_filter sorted_filter)
  have "?lo = filter (\<lambda>u. ukey u < pos_key s) ?hi"
    using assms by (simp add: takeWhile_sorted_filter pos_le_key) (auto intro!: filter_cong)
  also have "\<dots> = takeWhile (\<lambda>u. ukey u < pos_key s) ?hi"
    by (rule takeWhile_sorted_filter [OF hi, symmetric])
  finally have lo: "length ?lo = length (takeWhile (\<lambda>u. ukey u < pos_key s) ?hi)"
    by simp
  have "drop (length ?lo) (take (length ?hi) us) = dropWhile (\<lambda>u. ukey u < pos_key s) ?hi"
    unfolding lo takeWhile_eq_take [symmetric] dropWhile_eq_drop [symmetric] ..
  also have "\<dots> = in_range s e us"
    by (subst dropWhile_sorted_filter [OF hi])
      (auto simp: takeWhile_sorted_filter [OF assms(1)] in_range_def pos_less_key pos_le_key intro!: filter_cong)
  finally show ?thesis
    using lo length_takeWhile_le [of "\<lambda>u. ukey u < pos_key s" ?hi]
    by (simp add: slice_range_def partition_point_def pos_less_key)
qed

section \<open>The invariant of the window\<close>

text \<open>
  The environment of a cached source: a configuration that resolves, tables
  small enough for the bulk pulls, and chain positions that the queries'
  32-bit integers and a block's largest index can hold.
\<close>

record ('addr, 'cred) source_env =
  env_lib :: "('addr, 'cred) csl"
  env_db :: cnight_db
  env_cc :: cache_config
  env_network :: u8
  env_policy :: "u8 list"
  env_capacity :: nat

definition env_chain :: "('addr, 'cred) source_env \<Rightarrow> ObservedUtxo list" where
  "env_chain v = chain_events (env_lib v) (env_db v) (cc_addresses (env_cc v)) (env_network v) (env_policy v)"

definition env_ok :: "('addr, 'cred) source_env \<Rightarrow> bool" where
  "env_ok v \<longleftrightarrow> resolves (env_lib v) (cc_addresses (env_cc v)) (env_network v) (env_policy v)
     \<and> rows_fit (env_db v) (cc_addresses (env_cc v)) (env_policy v) LARGE_LIMIT
     \<and> list_all (\<lambda>u. tx_index_in_block (upos u) < 2147483647) (env_chain v)"

definition blocks_between :: "u32 \<Rightarrow> u32 \<Rightarrow> ObservedUtxo list \<Rightarrow> ObservedUtxo list" where
  "blocks_between a b us = filter (\<lambda>u. a \<le> block_number (upos u) \<and> block_number (upos u) \<le> b) us"

text \<open>The answer both sources should give.\<close>

definition expected_answer :: "('addr, 'cred) source_env \<Rightarrow> CardanoPosition \<Rightarrow> CardanoPosition \<Rightarrow> ObservedUtxos" where
  "expected_answer v s tip_pos =
    fst (truncate_to_tx_capacity (in_range s (increment tip_pos) (env_chain v)) (env_capacity v) s (increment tip_pos))"

definition window_inv :: "('addr, 'cred) source_env \<Rightarrow> cache_state \<Rightarrow> bool" where
  "window_inv v st \<longleftrightarrow>
    (\<exists>a b e. snapshot_start_block st = Some b \<and> snapshot_end_block st = Some e \<and> a \<le> b
       \<and> all_events st = blocks_between a e (env_chain v))"

definition memo_inv :: "('addr, 'cred) source_env \<Rightarrow> cache_state \<Rightarrow> bool" where
  "memo_inv v st \<longleftrightarrow>
    (\<forall>h p. block_position_cache st h = Some p \<longrightarrow>
       (\<exists>b. get_block_by_hash (env_db v) h = Some b \<and> p = block_position b))
    \<and> (\<forall>prev. last_observation st = Some prev \<longrightarrow>
       (\<exists>b. get_block_by_hash (env_db v) (lo_current_tip prev) = Some b
          \<and> lo_result prev = expected_answer v (lo_start_position prev) (block_position b)))"

definition cache_inv :: "('addr, 'cred) source_env \<Rightarrow> cache_state \<Rightarrow> bool" where
  "cache_inv v st \<longleftrightarrow> env_ok v \<and> window_inv v st \<and> memo_inv v st"

definition cache_init :: "('addr, 'cred) source_env \<Rightarrow> cache_state \<Rightarrow> bool" where
  "cache_init v st \<longleftrightarrow> env_ok v \<and>
    (\<exists>a e. st = cache_new (blocks_between a e (env_chain v)) a e)"

text \<open>Queries do not ask past their tip.\<close>

inductive cache_step :: "('addr, 'cred) source_env \<Rightarrow> cache_state \<Rightarrow> cache_state \<Rightarrow> bool"
  for v :: "('addr, 'cred) source_env" where
  cache_query: "get_block_by_hash (env_db v) tip = Some b \<Longrightarrow> pos_le s (increment (block_position b)) \<Longrightarrow>
    tx_index_in_block (block_position b) \<noteq> - 1 \<Longrightarrow>
    cached_get_utxos_up_to_capacity (env_lib v) (env_db v) (env_cc v) cfg s tip (env_capacity v) over st
      = (r, st', kick) \<Longrightarrow> cache_step v st st'"
| cache_refreshed: "cache_refresh (env_lib v) (env_db v) (env_cc v) anchor target st = Inr st' \<Longrightarrow>
    cache_step v st st'"

lemma env_chain_sorted: "events_sorted (env_chain v)"
  by (simp add: env_chain_def chain_events_sorted)

lemma blocks_between_sorted: "events_sorted us \<Longrightarrow> events_sorted (blocks_between a b us)"
  by (simp add: blocks_between_def sorted_filter)

text \<open>A range that lies in the blocks of the window is the same range of the chain.\<close>

lemma in_range_blocks:
  assumes "a \<le> block_number s" "block_number t \<le> e" "tx_index_in_block t \<noteq> - 1"
  shows "in_range s (increment t) (blocks_between a e us) = in_range s (increment t) us"
  using assms
  by (auto simp: in_range_def blocks_between_def pos_less_increment pos_le_key pos_key_def
      intro!: filter_cong)

lemma in_range_whole_blocks:
  assumes "list_all (\<lambda>u. tx_index_in_block (upos u) < 2147483647) us"
  shows "in_range (min_for_block a) (max_for_block b) us = blocks_between a b us"
  using assms
  by (auto simp: in_range_def blocks_between_def min_for_block_def max_for_block_def pos_le_key
      pos_less_key pos_key_def list_all_iff order.order_iff_strict word_gt_0 intro!: filter_cong)

lemma events_sorted_blocks: "events_sorted us \<Longrightarrow> sorted (map (\<lambda>u. block_number (upos u)) us)"
  by (erule sorted_map_mono) (auto simp: pos_key_def)

lemma blocks_between_append:
  assumes "events_sorted us" "a \<le> e" "e < e'"
  shows "blocks_between a e us @ blocks_between (e + 1) e' us = blocks_between a e' us"
proof -
  let ?b = "\<lambda>u. block_number (upos u)" and ?ws = "blocks_between a e' us"
  have ne: "e \<noteq> - 1"
    using assms(3) by (metis word_order.extremum_strict)
  have srt: "sorted (map ?b ?ws)"
    using assms(1) by (intro events_sorted_blocks blocks_between_sorted)
  have "blocks_between a e us = filter (\<lambda>u. ?b u < e + 1) ?ws"
    using assms(3) ne by (auto simp: blocks_between_def word_less_plus_1 intro!: filter_cong)
  moreover have "blocks_between (e + 1) e' us = filter (\<lambda>u. e + 1 \<le> ?b u) ?ws"
    using assms(2) ne
    by (auto simp: blocks_between_def word_less_plus_1 not_less [symmetric] intro!: filter_cong)
  ultimately show ?thesis
    using srt by (simp add: takeWhile_sorted_filter [symmetric] dropWhile_sorted_filter [symmetric]
        del: takeWhile_dropWhile_id) (rule takeWhile_dropWhile_id)
qed

lemma slide_events_filter:
  assumes "events_sorted us"
  shows "slide_events us ext b = filter (\<lambda>u. b \<le> block_number (upos u)) us @ ext"
  using dropWhile_sorted_filter [OF events_sorted_blocks [OF assms], of b]
  by (simp add: slide_events_def partition_point_def flip: dropWhile_eq_drop)

text \<open>Extending the window at its end, and restarting it beyond its end.\<close>

lemma slide_extend:
  assumes "events_sorted us" "e < e'" "a \<le> b"
  shows "\<exists>a'. a' \<le> b \<and>
    slide_events (blocks_between a e us) (blocks_between (e + 1) e' us) b = blocks_between a' e' us"
proof (cases "b \<le> e")
  case True
  have "filter (\<lambda>u. b \<le> block_number (upos u)) (blocks_between a e us) = blocks_between b e us"
    using assms(3) by (auto simp: blocks_between_def intro!: filter_cong)
  then have "slide_events (blocks_between a e us) (blocks_between (e + 1) e' us) b = blocks_between b e' us"
    using assms True by (simp add: slide_events_filter blocks_between_sorted blocks_between_append)
  then show ?thesis by blast
next
  case False
  then have "filter (\<lambda>u. b \<le> block_number (upos u)) (blocks_between a e us) = []"
    by (auto simp: blocks_between_def filter_empty_conv)
  moreover have "e + 1 \<le> b"
    using False assms(2) by (simp add: word_le_nat_alt word_less_nat_alt unat_plus_1 word_not_max)
  ultimately show ?thesis
    using assms(1) by (auto simp: slide_events_filter blocks_between_sorted)
qed

lemma slide_restart:
  assumes "events_sorted us" "e < b"
  shows "slide_events (blocks_between a e us) ext b = ext"
  using assms(2) by (subst slide_events_filter [OF blocks_between_sorted [OF assms(1)]])
    (auto simp: blocks_between_def filter_empty_conv)

lemma list_max_mem: "list_max xs = Some m \<Longrightarrow> m \<in> set xs"
  by (induction xs arbitrary: m) (auto simp: max_def split: option.splits if_splits)

lemma stable_block_exists:
  "get_highest_stable_block_le db upper margin = Some n \<Longrightarrow>
   list_ex (\<lambda>b. db_block_number b = block_number (max_for_block n)) (db_blocks db)"
  by (auto simp: get_highest_stable_block_le_def Let_def max_for_block_def list_ex_iff
      split: option.splits dest!: list_max_mem)

lemma refresh_pull:
  assumes "env_ok v" "get_highest_stable_block_le (env_db v) upper margin = Some n"
  shows "bulk_pull (env_lib v) (env_db v) (cc_addresses (env_cc v)) (min_for_block a) (max_for_block n) LARGE_LIMIT
    = Inr (blocks_between a n (env_chain v))"
  using assms bulk_pull_range [OF _ _ stable_block_exists [OF assms(2)]] in_range_whole_blocks
  unfolding env_ok_def env_chain_def by metis

lemma refresh_window_inv:
  assumes ok: "env_ok v" and inv: "window_inv v st"
    and step: "cache_refresh (env_lib v) (env_db v) (env_cc v) anchor target st = Inr st'"
  shows "window_inv v st'"
proof -
  obtain a b e where st: "snapshot_start_block st = Some b" "snapshot_end_block st = Some e" "a \<le> b"
    "all_events st = blocks_between a e (env_chain v)"
    using inv by (auto simp: window_inv_def)
  let ?trim = "map_option (\<lambda>prev. block_number (lo_start_position prev)) (last_observation st)"
  let ?plan = "plan_refresh e anchor b ?trim (cc_window_size (env_cc v))"
  consider "st' = st"
    | n where "get_highest_stable_block_le (env_db v) target (cc_stability_margin (env_cc v)) = Some n" "e < n"
      "st' = refresh_set_end n (refresh_set_start (snd ?plan)
        (refresh_slide (blocks_between (fst ?plan) n (env_chain v)) (snd ?plan) st))"
    using step refresh_pull [OF ok]
    by (auto simp: cache_refresh_def st Let_def not_le split: option.splits if_splits prod.splits)
  then show ?thesis
  proof cases
    case 1
    with inv show ?thesis by simp
  next
    case (2 n)
    have "e \<noteq> - 1"
      using 2(2) by (rule word_not_max)
    then have suc: "saturating_add e 1 = e + 1"
      by (rule saturating_add_1)
    show ?thesis
    proof (cases "anchor > e + 1")
      case True
      then have "e < anchor"
        using \<open>e \<noteq> - 1\<close> by (simp add: word_less_nat_alt unat_plus_1)
      from slide_restart [OF env_chain_sorted this] show ?thesis
        using 2(3) True suc st(4)
        by (auto simp: window_inv_def plan_refresh_def refresh_set_end_def refresh_set_start_def refresh_slide_def)
    next
      case False
      let ?b' = "case ?trim of Some t \<Rightarrow> max b (saturating_sub t (cc_window_size (env_cc v))) | None \<Rightarrow> b"
      have "a \<le> ?b'"
        using st(3) by (auto split: option.splits simp: le_max_iff_disj)
      from slide_extend [OF env_chain_sorted 2(2) this] show ?thesis
        using 2(3) False suc st(4)
        by (auto simp: window_inv_def plan_refresh_def refresh_set_end_def refresh_set_start_def refresh_slide_def)
    qed
  qed
qed

lemma cache_answer_expected:
  assumes "window_inv v st" "cache_covers st s t" "pos_le s (increment t)" "tx_index_in_block t \<noteq> - 1"
  shows "cache_answer st s t (env_capacity v) = Inr (expected_answer v s t)"
proof -
  obtain a b e where st: "snapshot_start_block st = Some b" "snapshot_end_block st = Some e" "a \<le> b"
    "all_events st = blocks_between a e (env_chain v)"
    using assms(1) by (auto simp: window_inv_def)
  have "a \<le> block_number s" "block_number t \<le> e"
    using assms(2) st by (auto simp: cache_covers_def not_less)
  then have "slice_range (all_events st) s (increment t) = Some (in_range s (increment t) (env_chain v))"
    using st(4) assms(4) slice_range_in_range [OF blocks_between_sorted [OF env_chain_sorted [of v]] assms(3)]
    by (simp add: in_range_blocks)
  then show ?thesis
    by (simp add: cache_answer_def expected_answer_def Let_def)
qed

lemma db_answer_expected:
  assumes "env_ok v" "get_block_by_hash (env_db v) tip = Some b"
    and "rows_fit (env_db v) (cc_addresses (env_cc v)) (env_policy v) over"
  shows "db_get_utxos_up_to_capacity (env_lib v) (env_db v) (cc_addresses (env_cc v)) s tip (env_capacity v) over
    = Inr (expected_answer v s (block_position b))"
proof -
  have "list_ex (\<lambda>x. db_block_number x = block_number (increment (block_position b))) (db_blocks (env_db v))"
    using assms(2) by (auto simp: get_block_by_hash_def find_Some_iff list_ex_iff increment_def block_position_def)
  then have "bulk_pull (env_lib v) (env_db v) (cc_addresses (env_cc v)) s (increment (block_position b)) over
    = Inr (in_range s (increment (block_position b)) (env_chain v))"
    using assms(1,3) bulk_pull_range unfolding env_ok_def env_chain_def by metis
  then show ?thesis
    using assms(2) by (simp add: db_get_utxos_up_to_capacity_def expected_answer_def Let_def)
qed

lemma same_tip_hit_expected:
  assumes "memo_inv v st" "same_tip_hit st s tip = Some r" "get_block_by_hash (env_db v) tip = Some b"
  shows "r = expected_answer v s (block_position b)"
  using assms by (auto simp: memo_inv_def same_tip_hit_def split: option.splits if_splits)

lemma resolve_tip_inv:
  assumes "cache_inv v st" "get_block_by_hash (env_db v) tip = Some b"
  shows "\<exists>st1. resolve_tip (env_db v) tip st = Some (block_position b, st1) \<and> cache_inv v st1"
proof (cases "block_position_cache st tip")
  case None
  then show ?thesis
    using assms by (auto simp: resolve_tip_def cache_inv_def memo_inv_def window_inv_def)
next
  case (Some p)
  then have "p = block_position b"
    using assms by (fastforce simp: cache_inv_def memo_inv_def)
  then show ?thesis
    using assms Some by (simp add: resolve_tip_def)
qed

text \<open>
  A query either finds the same question answered before, or resolves the tip
  and then delegates to the database or answers from the window.
\<close>

lemma query_cases:
  assumes inv: "cache_inv v st" and b: "get_block_by_hash (env_db v) tip = Some b"
    and le: "pos_le s (increment (block_position b))" and idx: "tx_index_in_block (block_position b) \<noteq> - 1"
    and q: "cached_get_utxos_up_to_capacity (env_lib v) (env_db v) (env_cc v) cfg s tip (env_capacity v) over st
      = (r, st', kick)"
  obtains (served) "r = Inr (expected_answer v s (block_position b))" "cache_inv v st'"
  | (delegated) "r = db_get_utxos_up_to_capacity (env_lib v) (env_db v) cfg s tip (env_capacity v) over"
      "cache_inv v st'"
proof (cases "same_tip_hit st s tip")
  case (Some r')
  then have "r = Inr r'" "st' = st"
    using q by (simp_all add: cached_get_utxos_up_to_capacity_def)
  then show ?thesis
    using inv same_tip_hit_expected [OF _ Some b] by (intro served) (auto simp: cache_inv_def)
next
  case None
  let ?t = "block_position b"
  obtain st1 where st1: "resolve_tip (env_db v) tip st = Some (?t, st1)" and inv1: "cache_inv v st1"
    using resolve_tip_inv [OF inv b] by blast
  show ?thesis
  proof (cases "cache_covers st1 s ?t")
    case True
    then have "cache_answer st1 s ?t (env_capacity v) = Inr (expected_answer v s ?t)"
      using inv1 le idx by (simp add: cache_inv_def cache_answer_expected)
    then have "r = Inr (expected_answer v s ?t)"
      "st' = st1\<lparr>last_observation := Some \<lparr>lo_start_position = s, lo_current_tip = tip,
          lo_result = expected_answer v s ?t\<rparr>\<rparr>"
      using q None True by (simp_all add: cached_get_utxos_up_to_capacity_def st1 Let_def)
    then show ?thesis
      using inv1 b by (intro served) (auto simp: cache_inv_def memo_inv_def window_inv_def)
  next
    case False
    then show ?thesis
      using q None inv1 by (intro delegated) (simp_all add: cached_get_utxos_up_to_capacity_def st1 Let_def)
  qed
qed

lemma cache_step_inv:
  assumes inv: "cache_inv v st" and step: "cache_step v st st'"
  shows "cache_inv v st'"
  using step
proof (cases rule: cache_step.cases)
  case (cache_query tip b s cfg over r kick)
  then show ?thesis
    using query_cases [OF inv] by metis
next
  case (cache_refreshed anchor target)
  have "block_position_cache st' = block_position_cache st" "last_observation st' = last_observation st"
    using cache_refreshed
    by (auto simp: cache_refresh_def Let_def refresh_set_end_def refresh_set_start_def refresh_slide_def
        bind_result_Inr_iff split: option.splits if_splits prod.splits)
  then have "memo_inv v st'"
    using inv by (simp add: cache_inv_def memo_inv_def)
  then show ?thesis
    using inv refresh_window_inv cache_refreshed by (auto simp: cache_inv_def)
qed

interpretation window: transition_invariant "cache_init v" "cache_step v" "cache_inv v"
proof unfold_locales
  show "cache_init v st \<Longrightarrow> cache_inv v st" for st
    by (auto simp: cache_init_def cache_inv_def cache_new_def window_inv_def memo_inv_def)
qed (rule cache_step_inv)

section \<open>A concrete chain\<close>

text \<open>
  Two blocks; the first has one transaction with three cNIGHT outputs, the
  second one with a single output.
\<close>

definition cs_lib :: "(unit, unit) csl" where
  "cs_lib = \<lparr>from_bech32 = (\<lambda>_. Some ()), network_id = (\<lambda>_. Some 0),
     enterprise_payment_cred = (\<lambda>_. Some ()), to_scripthash = (\<lambda>_. Some [1]),
     base_stake_cred = (\<lambda>_. Some ()), keyhash_cred = (\<lambda>_. None), scripthash_cred = (\<lambda>_. None),
     reward_address_bytes = (\<lambda>_ _. [7])\<rparr>"

definition cs_row :: "u32 \<Rightarrow> u32 \<Rightarrow> u16 \<Rightarrow> AssetCreateRow" where
  "cs_row b i k = \<lparr>cr_position = cw_pos b i, cr_quantity = 5, cr_holder_address = '''', cr_tx_hash = [2],
     cr_utxo_index = k\<rparr>"

definition cs_db :: cnight_db where
  "cs_db = \<lparr>db_blocks = [\<lparr>db_block_number = 1, db_hash = [1], db_time = 0, db_tx_count = 1\<rparr>,
       \<lparr>db_block_number = 2, db_hash = [2], db_time = 0, db_tx_count = 2\<rparr>],
     db_multi_asset = (\<lambda>_ name. if name = ''c'' then Some 1 else None),
     registration_rows = (\<lambda>_ _. []), deregistration_rows = (\<lambda>_. []),
     create_rows = (\<lambda>_. [cs_row 1 0 0, cs_row 1 0 1, cs_row 1 0 2, cs_row 2 1 0]),
     spend_rows = (\<lambda>_. [])\<rparr>"

definition cs_addresses :: CNightAddresses where
  "cs_addresses = \<lparr>mapping_validator_address = '''', auth_token_asset_name = '''',
     cnight_policy_id = [], cnight_asset_name = ''c''\<rparr>"

definition cs_env :: "(unit, unit) source_env" where
  "cs_env = \<lparr>env_lib = cs_lib, env_db = cs_db,
     env_cc = \<lparr>cc_addresses = cs_addresses, cc_stability_margin = 0, cc_window_size = 5\<rparr>,
     env_network = 0, env_policy = [1], env_capacity = 10\<rparr>"

definition cs_event :: "u32 \<Rightarrow> u32 \<Rightarrow> u16 \<Rightarrow> ObservedUtxo" where
  "cs_event b i k = \<lparr>header = \<lparr>tx_position = cw_pos b i, tx_hash = [2], utxo_tx_hash = [2], utxo_index = k\<rparr>,
     utxo_data = AssetCreate \<lparr>create_value = 5, create_owner = [7], create_utxo_tx_hash = [2],
       create_utxo_tx_index = k\<rparr>\<rparr>"

definition cs_window :: cache_state where
  "cs_window = cache_new (blocks_between 1 2 (env_chain cs_env)) 1 2"

lemma upos_cs_event [simp]: "upos (cs_event b i k) = cw_pos b i"
  by (simp add: upos_def cs_event_def)

lemma asset_create_cs_row: "asset_create_utxo cs_lib n (cs_row b i k) = Some (cs_event b i k)"
  by (simp add: asset_create_utxo_def cs_lib_def cs_row_def cs_event_def)

lemma cs_lib_sels:
  "from_bech32 cs_lib = (\<lambda>_. Some ())" "network_id cs_lib = (\<lambda>_. Some 0)"
  "enterprise_payment_cred cs_lib = (\<lambda>_. Some ())" "to_scripthash cs_lib = (\<lambda>_. Some [1])"
  by (simp_all add: cs_lib_def)

lemma cs_db_sels:
  "db_multi_asset cs_db = (\<lambda>_ name. if name = ''c'' then Some 1 else None)"
  "list_ex (\<lambda>b. db_block_number b = 2) (db_blocks cs_db)"
  by (simp_all add: cs_db_def)

lemma cs_sorted:
  "sort_by utxo_cmp [cs_event 1 0 0, cs_event 1 0 1, cs_event 1 0 2, cs_event 2 1 0]
    = [cs_event 1 0 0, cs_event 1 0 1, cs_event 1 0 2, cs_event 2 1 0]"
  by (simp add: sort_by_def utxo_cmp_def header_cmp_key header_key_def cs_event_def is_create_def
      cw_pos_def pos_key_def)

lemma cs_chain: "env_chain cs_env = [cs_event 1 0 0, cs_event 1 0 1, cs_event 1 0 2, cs_event 2 1 0]"
proof -
  have "env_chain cs_env = sort_by utxo_cmp [cs_event 1 0 0, cs_event 1 0 1, cs_event 1 0 2, cs_event 2 1 0]"
    unfolding env_chain_def chain_events_def registration_table_def create_table_def spend_table_def
    by (simp add: cs_env_def cs_db_def cs_addresses_def map_filter_simps asset_create_cs_row)
  then show ?thesis
    by (simp only: cs_sorted)
qed

lemma cs_env_ok: "env_ok cs_env"
  unfolding env_ok_def cs_chain
  by (simp add: resolves_def rows_fit_def registration_table_def create_table_def spend_table_def
      cs_env_def cs_lib_def cs_db_def cs_addresses_def LARGE_LIMIT_def cw_pos_def)

lemma cs_window_reachable: "reachable (cache_init cs_env) (cache_step cs_env) cs_window"
  using cs_env_ok by (intro reachable_init) (auto simp: cache_init_def cs_window_def)

lemma cs_tip: "get_block_by_hash (env_db cs_env) [2] =
    Some \<lparr>db_block_number = 2, db_hash = [2], db_time = 0, db_tx_count = 2\<rparr>"
  by (simp add: get_block_by_hash_def cs_env_def cs_db_def)

section \<open>Properties\<close>



text \<open>
  the three writes of a refresh are not atomic.  When a refresh restarts
  the window beyond its end, a query the old window covered and that runs
  between the write of the events and the write of the window start is still
  taken to be covered, and is answered with no events up to its tip, whatever
  the chain holds there.
\<close>

lemma refresh_race:
  fixes v :: "('addr, 'cred) source_env" and n :: u32
  assumes "window_inv v st" "snapshot_end_block st = Some e" "e < anchor" "cache_covers st s t"
    and "pos_le s (increment t)" "tx_index_in_block t \<noteq> - 1" "0 < cap"
  defines "st' \<equiv> refresh_slide (blocks_between anchor n (env_chain v)) anchor st"
  shows "cache_covers st' s t
    \<and> cache_answer st' s t cap = Inr \<lparr>obs_start = s, obs_end = increment t, obs_utxos = []\<rparr>"
proof -
  obtain a where st: "all_events st = blocks_between a e (env_chain v)"
    using assms(1,2) by (auto simp: window_inv_def)
  have ev: "all_events st' = blocks_between anchor n (env_chain v)"
    using slide_restart [OF env_chain_sorted assms(3)] by (simp add: st'_def refresh_slide_def st)
  have "block_number t \<le> e"
    using assms(2,4) by (auto simp: cache_covers_def not_less)
  then have none: "in_range s (increment t) (blocks_between anchor n (env_chain v)) = []"
    using assms(3,6) by (auto simp: in_range_def blocks_between_def filter_empty_conv pos_less_increment
        pos_le_key pos_key_def)
  have "slice_range (all_events st') s (increment t) = Some []"
    unfolding ev none [symmetric]
    by (rule slice_range_in_range [OF blocks_between_sorted [OF env_chain_sorted] assms(5)])
  moreover have "cache_covers st' s t = cache_covers st s t"
    unfolding cache_covers_def st'_def refresh_slide_def
    by (simp cong: option.case_cong)
  ultimately show ?thesis
    using assms(4,7) by (simp add: cache_answer_def truncate_to_tx_capacity_def)
qed

lemma refresh_race_example:
  "cache_answer (refresh_slide [] 9 cs_window) (cw_pos 1 0) (cw_pos 2 2) 10 =
      Inr \<lparr>obs_start = cw_pos 1 0, obs_end = increment (cw_pos 2 2), obs_utxos = []\<rparr>
   \<and> in_range (cw_pos 1 0) (increment (cw_pos 2 2)) (env_chain cs_env) = env_chain cs_env"
proof -
  have "window_inv cs_env cs_window"
    by (auto simp: window_inv_def cs_window_def cache_new_def)
  moreover have "snapshot_end_block cs_window = Some 2" "cache_covers cs_window (cw_pos 1 0) (cw_pos 2 2)"
    by (simp_all add: cs_window_def cache_new_def cache_covers_def cw_pos_def)
  moreover have "pos_le (cw_pos 1 0) (increment (cw_pos 2 2))" "tx_index_in_block (cw_pos 2 2) \<noteq> - 1"
    by (simp_all add: pos_le_key pos_key_def increment_def cw_pos_def)
  moreover have "blocks_between 9 9 (env_chain cs_env) = []"
    by (simp add: cs_chain blocks_between_def cw_pos_def word_le_nat_alt)
  moreover have "in_range (cw_pos 1 0) (increment (cw_pos 2 2)) (env_chain cs_env) = env_chain cs_env"
    by (simp add: cs_chain in_range_def increment_def cw_pos_def pos_le_key pos_less_key pos_key_def)
  ultimately show ?thesis
    using refresh_race [of cs_env cs_window 2 9 "cw_pos 1 0" "cw_pos 2 2" 10 9] by simp
qed

text \<open>
  the row limit of a query is applied before the end of the answer is
  chosen.  On a chain with three outputs in its first transaction and one in a
  later block, a limit of two rows loses the last two although the capacity is
  far from reached: the answer ends past the tip, so that the next query
  starts after them.
\<close>

lemma row_limit_loses_events:
  "db_get_utxos_up_to_capacity cs_lib cs_db cs_addresses (cw_pos 1 0) [2] 10 2 =
    Inr \<lparr>obs_start = cw_pos 1 0, obs_end = (cw_pos 2 3)\<lparr>block_hash := [2]\<rparr>,
      obs_utxos = [cs_event 1 0 0, cs_event 1 0 1]\<rparr>"
proof -
  let ?e = "(cw_pos 2 3)\<lparr>block_hash := [2]\<rparr>"
  have rows: "select_rows cr_position (cw_pos 1 0) ?e 2 (create_rows cs_db 1) = [cs_row 1 0 0, cs_row 1 0 1]"
    by (simp add: select_rows_def cs_db_def cs_row_def cw_pos_def pos_le_key pos_less_key pos_key_def)
  have srt: "sort_by utxo_cmp [cs_event 1 0 0, cs_event 1 0 1] = [cs_event 1 0 0, cs_event 1 0 1]"
    by (simp add: sort_by_def utxo_cmp_def header_cmp_key header_key_def cs_event_def is_create_def
        cw_pos_def pos_key_def)
  have creates: "get_asset_create_utxos cs_lib cs_db 0 1 (cw_pos 1 0) ?e 2 = [cs_event 1 0 0, cs_event 1 0 1]"
    unfolding get_asset_create_utxos_def rows by (simp add: map_filter_simps asset_create_cs_row)
  have others: "get_deregistration_utxos cs_lib cs_db 0 [] (cw_pos 1 0) ?e 2 = []"
    "get_asset_spend_utxos cs_lib cs_db 0 1 (cw_pos 1 0) ?e 2 = []"
    by (simp_all add: get_deregistration_utxos_def get_asset_spend_utxos_def select_rows_def map_filter_simps
        cs_db_def)
  have pull: "bulk_pull cs_lib cs_db cs_addresses (cw_pos 1 0) ?e 2 = Inr [cs_event 1 0 0, cs_event 1 0 1]"
    using creates others srt
    by (simp add: bulk_pull_def cs_lib_sels cs_db_sels cs_addresses_def Let_def cw_pos_def)
  have tip: "get_block_by_hash cs_db [2] =
      Some \<lparr>db_block_number = 2, db_hash = [2], db_time = 0, db_tx_count = 2\<rparr>"
    using cs_tip by (simp add: cs_env_def)
  have e: "increment (block_position \<lparr>db_block_number = 2, db_hash = [2], db_time = 0, db_tx_count = 2\<rparr>) = ?e"
    by (simp add: increment_def block_position_def cw_pos_def)
  show ?thesis
    unfolding db_get_utxos_up_to_capacity_def tip by (simp add: e pull Let_def)
      (simp add: truncate_to_tx_capacity_def pos_less_key cw_pos_def pos_key_def)
qed

end
