(* ===== verification/Ledger_Errors.thy ===== *)
theory Ledger_Errors
  imports Prelude
begin

text \<open>
  The errors of the ledger host API (\<open>ledger/src/versions/common/types.rs\<close>) and
  the one-byte codes that reach clients through \<open>InvalidTransaction::Custom\<close>.
  The constructors carry the initials of their enumeration, since several
  enumerations of the source share variant names.  The conversions from the
  error types of the ledger library (\<open>conversions.rs\<close>) are not modelled: the
  operations of the library are parameters that return the converted error.
\<close>

section \<open>Errors\<close>

datatype (plugins only: code size) DeserializationError =
    De_NetworkId
  | De_Transaction
  | De_LedgerState
  | De_ContractAddress
  | De_PublicKey
  | De_TypedArenaKey
  | De_VersionedArenaKey
  | De_UserAddress
  | De_SystemTransaction
  | De_DustPublicKey
  | De_CNightGeneratesDustActionType
  | De_CNightGeneratesDustEvent

datatype (plugins only: code size) SerializationError =
    Se_TransactionIdentifier
  | Se_ZswapState
  | Se_LedgerState
  | Se_LedgerParameters
  | Se_ContractAddress
  | Se_ContractState
  | Se_ContractStateToJson
  | Se_UnknownType
  | Se_MerkleTreeDigest
  | Se_TypedArenaKey
  | Se_VersionedArenaKey
  | Se_CNightGeneratesDustEvent
  | Se_SystemTransaction
  | Se_ArenaHash

datatype (plugins only: code size) ZswapInvalidErrorCode =
    Zi_NullifierAlreadyPresent
  | Zi_CommitmentAlreadyPresent
  | Zi_UnknownMerkleRoot
  | Zi_MerkleTreeError
  | Zi_Unknown

datatype (plugins only: code size) TransactionApplicationErrorCode =
    Ta_IntentTtlExpired
  | Ta_IntentTtlTooFarInFuture
  | Ta_IntentAlreadyExists

datatype (plugins only: code size) InvalidError =
    Ie_EffectsMismatch
  | Ie_ContractAlreadyDeployed
  | Ie_ContractNotPresent
  | Ie_Zswap ZswapInvalidErrorCode
  | Ie_Transcript
  | Ie_InsufficientClaimable
  | Ie_VerifierKeyNotFound
  | Ie_VerifierKeyAlreadyPresent
  | Ie_ReplayCounterMismatch
  | Ie_ReplayProtectionViolation TransactionApplicationErrorCode
  | Ie_BalanceCheckOutOfBounds
  | Ie_InputNotInUtxos
  | Ie_DustDoubleSpend
  | Ie_DustDeregistrationNotRegistered
  | Ie_GenerationInfoAlreadyPresent
  | Ie_InvariantViolation
  | Ie_RewardTooSmall
  | Ie_DivideByZero
  | Ie_MerkleTreeError
  | Ie_UnknownError

datatype (plugins only: code size) MalformedZswapErrorCode =
    Mz_InvalidProof
  | Mz_ContractSentCiphertext
  | Mz_NonDisjointCoinMerge
  | Mz_NotNormalized
  | Mz_Unknown

datatype (plugins only: code size) FeeCalculationErrorCode =
    Fc_OutsideTimeToDismiss
  | Fc_BlockLimitExceeded

datatype (plugins only: code size) MalformedContractDeployErrorCode =
    Cd_NonZeroBalance
  | Cd_IncorrectChargedState
  | Cd_Unknown

datatype (plugins only: code size) EffectsCheckErrorCode =
    Ec_RealCallsSubsetCheckFailure
  | Ec_AllCommitmentsSubsetCheckFailure
  | Ec_RealUnshieldedSpendsSubsetCheckFailure
  | Ec_ClaimedUnshieldedSpendsUniquenessFailure
  | Ec_ClaimedCallsUniquenessFailure
  | Ec_NullifiersNeqClaimedNullifiers
  | Ec_CommitmentsNeqClaimedShieldedReceives

datatype (plugins only: code size) DisjointCheckErrorCode =
    Dc_ShieldedInputsDisjointFailure
  | Dc_ShieldedOutputsDisjointFailure
  | Dc_UnshieldedInputsDisjointFailure

datatype (plugins only: code size) SequencingCheckErrorCode =
    Sc_CallSequencingViolation
  | Sc_SequencingCorrelationViolation
  | Sc_GuaranteedInFallibleContextViolation
  | Sc_FallibleInGuaranteedContextViolation
  | Sc_CausalityConstraintViolation
  | Sc_CallHasEmptyTranscripts

datatype (plugins only: code size) MalformedError =
    Me_VerifierKeyNotSet
  | Me_TransactionTooLarge
  | Me_VerifierKeyTooLarge
  | Me_VerifierKeyNotPresent
  | Me_ContractNotPresent
  | Me_InvalidProof
  | Me_BindingCommitmentOpeningInvalid
  | Me_NotNormalized
  | Me_FallibleWithoutCheckpoint
  | Me_ClaimReceiveFailed
  | Me_ClaimSpendFailed
  | Me_ClaimNullifierFailed
  | Me_ClaimCallFailed
  | Me_InvalidSchnorrProof
  | Me_UnclaimedCoinCom
  | Me_UnclaimedNullifier
  | Me_Unbalanced
  | Me_Zswap MalformedZswapErrorCode
  | Me_BuiltinDecode
  | Me_GuaranteedLimit
  | Me_MergingContracts
  | Me_CantMergeTypes
  | Me_ClaimOverflow
  | Me_ClaimCoinMismatch
  | Me_KeyNotInCommittee
  | Me_InvalidCommitteeSignature
  | Me_ThresholdMissed
  | Me_TooManyZswapEntries
  | Me_BalanceCheckOverspend
  | Me_InvalidNetworkId
  | Me_IllegallyDeclaredGuaranteed
  | Me_FeeCalculation FeeCalculationErrorCode
  | Me_InvalidDustRegistrationSignature
  | Me_InvalidDustSpendProof
  | Me_OutOfDustValidityWindow
  | Me_MultipleDustRegistrationsForKey
  | Me_InsufficientDustForRegistrationFee
  | Me_MalformedContractDeploy MalformedContractDeployErrorCode
  | Me_IntentSignatureVerificationFailure
  | Me_IntentSignatureKeyMismatch
  | Me_IntentSegmentIdCollision
  | Me_IntentAtGuaranteedSegmentId
  | Me_UnsupportedProofVersion
  | Me_GuaranteedTranscriptVersion
  | Me_FallibleTranscriptVersion
  | Me_TransactionApplication TransactionApplicationErrorCode
  | Me_BalanceCheckOutOfBounds
  | Me_BalanceCheckConversionFailure
  | Me_PedersenCheckFailure
  | Me_EffectsCheck EffectsCheckErrorCode
  | Me_DisjointCheck DisjointCheckErrorCode
  | Me_SequencingCheck SequencingCheckErrorCode
  | Me_InputsNotSorted
  | Me_OutputsNotSorted
  | Me_DuplicateInputs
  | Me_InputsSignaturesLengthMismatch
  | Me_UnknownError

datatype (plugins only: code size) SystemTransactionError =
    Ste_IllegalPayout
  | Ste_InsufficientTreasuryFunds
  | Ste_CommitmentAlreadyPresent
  | Ste_ReplayProtectionFailure TransactionApplicationErrorCode
  | Ste_IllegalReserveDistribution
  | Ste_GenerationInfoAlreadyPresent
  | Ste_InvalidBasisPoints
  | Ste_InvariantViolation
  | Ste_TreasuryDisabled
  | Ste_MerkleTreeError
  | Ste_UnknownError

datatype (plugins only: code size) TransactionError =
    Te_Invalid InvalidError
  | Te_Malformed MalformedError
  | Te_SystemTransaction SystemTransactionError

datatype (plugins only: code size) LedgerApiError =
    Le_Deserialization DeserializationError
  | Le_Serialization SerializationError
  | Le_Transaction TransactionError
  | Le_LedgerCacheError
  | Le_NoLedgerState
  | Le_LedgerStateScaleDecodingError
  | Le_ContractCallCostError
  | Le_BlockLimitExceededError
  | Le_FeeCalculationError
  | Le_HostApiError
  | Le_GetTransactionContextError
  | Le_ContractNotPresent
  | Le_BeneficiaryNotFound
  | Le_TransactionVersionNotActive

section \<open>Codes\<close>

primrec code_DeserializationError :: "DeserializationError \<Rightarrow> u8" where
  "code_DeserializationError De_NetworkId = 0"
| "code_DeserializationError De_Transaction = 1"
| "code_DeserializationError De_LedgerState = 2"
| "code_DeserializationError De_ContractAddress = 3"
| "code_DeserializationError De_PublicKey = 4"
| "code_DeserializationError De_TypedArenaKey = 7"
| "code_DeserializationError De_VersionedArenaKey = 5"
| "code_DeserializationError De_UserAddress = 6"
| "code_DeserializationError De_SystemTransaction = 8"
| "code_DeserializationError De_DustPublicKey = 9"
| "code_DeserializationError De_CNightGeneratesDustActionType = 10"
| "code_DeserializationError De_CNightGeneratesDustEvent = 11"

primrec code_SerializationError :: "SerializationError \<Rightarrow> u8" where
  "code_SerializationError Se_TransactionIdentifier = 50"
| "code_SerializationError Se_ZswapState = 56"
| "code_SerializationError Se_LedgerState = 51"
| "code_SerializationError Se_LedgerParameters = 52"
| "code_SerializationError Se_ContractAddress = 53"
| "code_SerializationError Se_ContractState = 54"
| "code_SerializationError Se_ContractStateToJson = 55"
| "code_SerializationError Se_UnknownType = 57"
| "code_SerializationError Se_MerkleTreeDigest = 58"
| "code_SerializationError Se_TypedArenaKey = 60"
| "code_SerializationError Se_VersionedArenaKey = 59"
| "code_SerializationError Se_CNightGeneratesDustEvent = 61"
| "code_SerializationError Se_SystemTransaction = 62"
| "code_SerializationError Se_ArenaHash = 63"

primrec code_ZswapInvalidErrorCode :: "ZswapInvalidErrorCode \<Rightarrow> u8" where
  "code_ZswapInvalidErrorCode Zi_NullifierAlreadyPresent = 239"
| "code_ZswapInvalidErrorCode Zi_CommitmentAlreadyPresent = 240"
| "code_ZswapInvalidErrorCode Zi_UnknownMerkleRoot = 241"
| "code_ZswapInvalidErrorCode Zi_MerkleTreeError = 250"
| "code_ZswapInvalidErrorCode Zi_Unknown = 103"

primrec code_TransactionApplicationErrorCode_Invalid :: "TransactionApplicationErrorCode \<Rightarrow> u8" where
  "code_TransactionApplicationErrorCode_Invalid Ta_IntentTtlExpired = 242"
| "code_TransactionApplicationErrorCode_Invalid Ta_IntentTtlTooFarInFuture = 243"
| "code_TransactionApplicationErrorCode_Invalid Ta_IntentAlreadyExists = 244"

primrec code_InvalidError :: "InvalidError \<Rightarrow> u8" where
  "code_InvalidError Ie_EffectsMismatch = 100"
| "code_InvalidError Ie_ContractAlreadyDeployed = 101"
| "code_InvalidError Ie_ContractNotPresent = 102"
| "code_InvalidError (Ie_Zswap x) = code_ZswapInvalidErrorCode x"
| "code_InvalidError Ie_Transcript = 104"
| "code_InvalidError Ie_InsufficientClaimable = 105"
| "code_InvalidError Ie_VerifierKeyNotFound = 106"
| "code_InvalidError Ie_VerifierKeyAlreadyPresent = 107"
| "code_InvalidError Ie_ReplayCounterMismatch = 108"
| "code_InvalidError (Ie_ReplayProtectionViolation x) = code_TransactionApplicationErrorCode_Invalid x"
| "code_InvalidError Ie_BalanceCheckOutOfBounds = 194"
| "code_InvalidError Ie_InputNotInUtxos = 195"
| "code_InvalidError Ie_DustDoubleSpend = 196"
| "code_InvalidError Ie_DustDeregistrationNotRegistered = 197"
| "code_InvalidError Ie_GenerationInfoAlreadyPresent = 198"
| "code_InvalidError Ie_InvariantViolation = 199"
| "code_InvalidError Ie_RewardTooSmall = 200"
| "code_InvalidError Ie_DivideByZero = 248"
| "code_InvalidError Ie_MerkleTreeError = 249"
| "code_InvalidError Ie_UnknownError = 109"

primrec code_MalformedZswapErrorCode :: "MalformedZswapErrorCode \<Rightarrow> u8" where
  "code_MalformedZswapErrorCode Mz_InvalidProof = 235"
| "code_MalformedZswapErrorCode Mz_ContractSentCiphertext = 236"
| "code_MalformedZswapErrorCode Mz_NonDisjointCoinMerge = 237"
| "code_MalformedZswapErrorCode Mz_NotNormalized = 238"
| "code_MalformedZswapErrorCode Mz_Unknown = 127"

primrec code_FeeCalculationErrorCode :: "FeeCalculationErrorCode \<Rightarrow> u8" where
  "code_FeeCalculationErrorCode Fc_OutsideTimeToDismiss = 231"
| "code_FeeCalculationErrorCode Fc_BlockLimitExceeded = 232"

primrec code_MalformedContractDeployErrorCode :: "MalformedContractDeployErrorCode \<Rightarrow> u8" where
  "code_MalformedContractDeployErrorCode Cd_NonZeroBalance = 233"
| "code_MalformedContractDeployErrorCode Cd_IncorrectChargedState = 234"
| "code_MalformedContractDeployErrorCode Cd_Unknown = 174"

primrec code_TransactionApplicationErrorCode_Malformed :: "TransactionApplicationErrorCode \<Rightarrow> u8" where
  "code_TransactionApplicationErrorCode_Malformed Ta_IntentTtlExpired = 228"
| "code_TransactionApplicationErrorCode_Malformed Ta_IntentTtlTooFarInFuture = 229"
| "code_TransactionApplicationErrorCode_Malformed Ta_IntentAlreadyExists = 230"

primrec code_EffectsCheckErrorCode :: "EffectsCheckErrorCode \<Rightarrow> u8" where
  "code_EffectsCheckErrorCode Ec_RealCallsSubsetCheckFailure = 212"
| "code_EffectsCheckErrorCode Ec_AllCommitmentsSubsetCheckFailure = 213"
| "code_EffectsCheckErrorCode Ec_RealUnshieldedSpendsSubsetCheckFailure = 214"
| "code_EffectsCheckErrorCode Ec_ClaimedUnshieldedSpendsUniquenessFailure = 215"
| "code_EffectsCheckErrorCode Ec_ClaimedCallsUniquenessFailure = 216"
| "code_EffectsCheckErrorCode Ec_NullifiersNeqClaimedNullifiers = 217"
| "code_EffectsCheckErrorCode Ec_CommitmentsNeqClaimedShieldedReceives = 218"

primrec code_DisjointCheckErrorCode :: "DisjointCheckErrorCode \<Rightarrow> u8" where
  "code_DisjointCheckErrorCode Dc_ShieldedInputsDisjointFailure = 225"
| "code_DisjointCheckErrorCode Dc_ShieldedOutputsDisjointFailure = 226"
| "code_DisjointCheckErrorCode Dc_UnshieldedInputsDisjointFailure = 227"

primrec code_SequencingCheckErrorCode :: "SequencingCheckErrorCode \<Rightarrow> u8" where
  "code_SequencingCheckErrorCode Sc_CallSequencingViolation = 219"
| "code_SequencingCheckErrorCode Sc_SequencingCorrelationViolation = 220"
| "code_SequencingCheckErrorCode Sc_GuaranteedInFallibleContextViolation = 221"
| "code_SequencingCheckErrorCode Sc_FallibleInGuaranteedContextViolation = 222"
| "code_SequencingCheckErrorCode Sc_CausalityConstraintViolation = 223"
| "code_SequencingCheckErrorCode Sc_CallHasEmptyTranscripts = 224"

primrec code_MalformedError :: "MalformedError \<Rightarrow> u8" where
  "code_MalformedError Me_VerifierKeyNotSet = 110"
| "code_MalformedError Me_TransactionTooLarge = 111"
| "code_MalformedError Me_VerifierKeyTooLarge = 112"
| "code_MalformedError Me_VerifierKeyNotPresent = 113"
| "code_MalformedError Me_ContractNotPresent = 114"
| "code_MalformedError Me_InvalidProof = 115"
| "code_MalformedError Me_BindingCommitmentOpeningInvalid = 116"
| "code_MalformedError Me_NotNormalized = 117"
| "code_MalformedError Me_FallibleWithoutCheckpoint = 118"
| "code_MalformedError Me_ClaimReceiveFailed = 119"
| "code_MalformedError Me_ClaimSpendFailed = 120"
| "code_MalformedError Me_ClaimNullifierFailed = 121"
| "code_MalformedError Me_ClaimCallFailed = 122"
| "code_MalformedError Me_InvalidSchnorrProof = 123"
| "code_MalformedError Me_UnclaimedCoinCom = 124"
| "code_MalformedError Me_UnclaimedNullifier = 125"
| "code_MalformedError Me_Unbalanced = 126"
| "code_MalformedError (Me_Zswap x) = code_MalformedZswapErrorCode x"
| "code_MalformedError Me_BuiltinDecode = 128"
| "code_MalformedError Me_GuaranteedLimit = 129"
| "code_MalformedError Me_MergingContracts = 130"
| "code_MalformedError Me_CantMergeTypes = 131"
| "code_MalformedError Me_ClaimOverflow = 132"
| "code_MalformedError Me_ClaimCoinMismatch = 133"
| "code_MalformedError Me_KeyNotInCommittee = 134"
| "code_MalformedError Me_InvalidCommitteeSignature = 135"
| "code_MalformedError Me_ThresholdMissed = 136"
| "code_MalformedError Me_TooManyZswapEntries = 137"
| "code_MalformedError Me_BalanceCheckOverspend = 138"
| "code_MalformedError Me_InvalidNetworkId = 166"
| "code_MalformedError Me_IllegallyDeclaredGuaranteed = 167"
| "code_MalformedError (Me_FeeCalculation x) = code_FeeCalculationErrorCode x"
| "code_MalformedError Me_InvalidDustRegistrationSignature = 169"
| "code_MalformedError Me_InvalidDustSpendProof = 170"
| "code_MalformedError Me_OutOfDustValidityWindow = 171"
| "code_MalformedError Me_MultipleDustRegistrationsForKey = 172"
| "code_MalformedError Me_InsufficientDustForRegistrationFee = 173"
| "code_MalformedError (Me_MalformedContractDeploy x) = code_MalformedContractDeployErrorCode x"
| "code_MalformedError Me_IntentSignatureVerificationFailure = 175"
| "code_MalformedError Me_IntentSignatureKeyMismatch = 176"
| "code_MalformedError Me_IntentSegmentIdCollision = 177"
| "code_MalformedError Me_IntentAtGuaranteedSegmentId = 178"
| "code_MalformedError Me_UnsupportedProofVersion = 179"
| "code_MalformedError Me_GuaranteedTranscriptVersion = 180"
| "code_MalformedError Me_FallibleTranscriptVersion = 181"
| "code_MalformedError (Me_TransactionApplication x) = code_TransactionApplicationErrorCode_Malformed x"
| "code_MalformedError Me_BalanceCheckOutOfBounds = 183"
| "code_MalformedError Me_BalanceCheckConversionFailure = 184"
| "code_MalformedError Me_PedersenCheckFailure = 185"
| "code_MalformedError (Me_EffectsCheck x) = code_EffectsCheckErrorCode x"
| "code_MalformedError (Me_DisjointCheck x) = code_DisjointCheckErrorCode x"
| "code_MalformedError (Me_SequencingCheck x) = code_SequencingCheckErrorCode x"
| "code_MalformedError Me_InputsNotSorted = 189"
| "code_MalformedError Me_OutputsNotSorted = 190"
| "code_MalformedError Me_DuplicateInputs = 191"
| "code_MalformedError Me_InputsSignaturesLengthMismatch = 192"
| "code_MalformedError Me_UnknownError = 139"

primrec code_TransactionApplicationErrorCode_System :: "TransactionApplicationErrorCode \<Rightarrow> u8" where
  "code_TransactionApplicationErrorCode_System Ta_IntentTtlExpired = 245"
| "code_TransactionApplicationErrorCode_System Ta_IntentTtlTooFarInFuture = 246"
| "code_TransactionApplicationErrorCode_System Ta_IntentAlreadyExists = 247"

primrec code_SystemTransactionError :: "SystemTransactionError \<Rightarrow> u8" where
  "code_SystemTransactionError Ste_IllegalPayout = 201"
| "code_SystemTransactionError Ste_InsufficientTreasuryFunds = 202"
| "code_SystemTransactionError Ste_CommitmentAlreadyPresent = 203"
| "code_SystemTransactionError (Ste_ReplayProtectionFailure x) = code_TransactionApplicationErrorCode_System x"
| "code_SystemTransactionError Ste_IllegalReserveDistribution = 206"
| "code_SystemTransactionError Ste_GenerationInfoAlreadyPresent = 207"
| "code_SystemTransactionError Ste_InvalidBasisPoints = 208"
| "code_SystemTransactionError Ste_InvariantViolation = 209"
| "code_SystemTransactionError Ste_TreasuryDisabled = 210"
| "code_SystemTransactionError Ste_MerkleTreeError = 211"
| "code_SystemTransactionError Ste_UnknownError = 204"

primrec code_TransactionError :: "TransactionError \<Rightarrow> u8" where
  "code_TransactionError (Te_Invalid x) = code_InvalidError x"
| "code_TransactionError (Te_Malformed x) = code_MalformedError x"
| "code_TransactionError (Te_SystemTransaction x) = code_SystemTransactionError x"

primrec error_code :: "LedgerApiError \<Rightarrow> u8" where
  "error_code (Le_Deserialization x) = code_DeserializationError x"
| "error_code (Le_Serialization x) = code_SerializationError x"
| "error_code (Le_Transaction x) = code_TransactionError x"
| "error_code Le_LedgerCacheError = 150"
| "error_code Le_NoLedgerState = 151"
| "error_code Le_LedgerStateScaleDecodingError = 152"
| "error_code Le_ContractCallCostError = 153"
| "error_code Le_BlockLimitExceededError = 154"
| "error_code Le_FeeCalculationError = 155"
| "error_code Le_HostApiError = 255"
| "error_code Le_GetTransactionContextError = 165"
| "error_code Le_ContractNotPresent = 156"
| "error_code Le_BeneficiaryNotFound = 157"
| "error_code Le_TransactionVersionNotActive = 158"

definition RETIRED_U8_ERROR_CODES :: "u8 list" where
  "RETIRED_U8_ERROR_CODES = [168, 182, 186, 187, 188, 193, 205]"

section \<open>Every error, listed\<close>

definition all_DeserializationError :: "DeserializationError list" where
  "all_DeserializationError = [De_NetworkId, De_Transaction, De_LedgerState, De_ContractAddress, De_PublicKey,
     De_TypedArenaKey, De_VersionedArenaKey, De_UserAddress, De_SystemTransaction, De_DustPublicKey,
     De_CNightGeneratesDustActionType, De_CNightGeneratesDustEvent]"

definition all_SerializationError :: "SerializationError list" where
  "all_SerializationError = [Se_TransactionIdentifier, Se_ZswapState, Se_LedgerState, Se_LedgerParameters,
     Se_ContractAddress, Se_ContractState, Se_ContractStateToJson, Se_UnknownType,
     Se_MerkleTreeDigest, Se_TypedArenaKey, Se_VersionedArenaKey, Se_CNightGeneratesDustEvent,
     Se_SystemTransaction, Se_ArenaHash]"

definition all_ZswapInvalidErrorCode :: "ZswapInvalidErrorCode list" where
  "all_ZswapInvalidErrorCode = [Zi_NullifierAlreadyPresent, Zi_CommitmentAlreadyPresent, Zi_UnknownMerkleRoot,
     Zi_MerkleTreeError, Zi_Unknown]"

definition all_TransactionApplicationErrorCode :: "TransactionApplicationErrorCode list" where
  "all_TransactionApplicationErrorCode = [Ta_IntentTtlExpired, Ta_IntentTtlTooFarInFuture, Ta_IntentAlreadyExists]"

definition all_InvalidError :: "InvalidError list" where
  "all_InvalidError = [Ie_EffectsMismatch, Ie_ContractAlreadyDeployed, Ie_ContractNotPresent] @ map Ie_Zswap
     all_ZswapInvalidErrorCode @ [Ie_Transcript, Ie_InsufficientClaimable, Ie_VerifierKeyNotFound,
     Ie_VerifierKeyAlreadyPresent, Ie_ReplayCounterMismatch] @ map Ie_ReplayProtectionViolation
     all_TransactionApplicationErrorCode @ [Ie_BalanceCheckOutOfBounds, Ie_InputNotInUtxos,
     Ie_DustDoubleSpend, Ie_DustDeregistrationNotRegistered, Ie_GenerationInfoAlreadyPresent,
     Ie_InvariantViolation, Ie_RewardTooSmall, Ie_DivideByZero, Ie_MerkleTreeError, Ie_UnknownError]"

definition all_MalformedZswapErrorCode :: "MalformedZswapErrorCode list" where
  "all_MalformedZswapErrorCode = [Mz_InvalidProof, Mz_ContractSentCiphertext, Mz_NonDisjointCoinMerge, Mz_NotNormalized,
     Mz_Unknown]"

definition all_FeeCalculationErrorCode :: "FeeCalculationErrorCode list" where
  "all_FeeCalculationErrorCode = [Fc_OutsideTimeToDismiss, Fc_BlockLimitExceeded]"

definition all_MalformedContractDeployErrorCode :: "MalformedContractDeployErrorCode list" where
  "all_MalformedContractDeployErrorCode = [Cd_NonZeroBalance, Cd_IncorrectChargedState, Cd_Unknown]"

definition all_EffectsCheckErrorCode :: "EffectsCheckErrorCode list" where
  "all_EffectsCheckErrorCode = [Ec_RealCallsSubsetCheckFailure, Ec_AllCommitmentsSubsetCheckFailure,
     Ec_RealUnshieldedSpendsSubsetCheckFailure, Ec_ClaimedUnshieldedSpendsUniquenessFailure,
     Ec_ClaimedCallsUniquenessFailure, Ec_NullifiersNeqClaimedNullifiers,
     Ec_CommitmentsNeqClaimedShieldedReceives]"

definition all_DisjointCheckErrorCode :: "DisjointCheckErrorCode list" where
  "all_DisjointCheckErrorCode = [Dc_ShieldedInputsDisjointFailure, Dc_ShieldedOutputsDisjointFailure,
     Dc_UnshieldedInputsDisjointFailure]"

definition all_SequencingCheckErrorCode :: "SequencingCheckErrorCode list" where
  "all_SequencingCheckErrorCode = [Sc_CallSequencingViolation, Sc_SequencingCorrelationViolation,
     Sc_GuaranteedInFallibleContextViolation, Sc_FallibleInGuaranteedContextViolation,
     Sc_CausalityConstraintViolation, Sc_CallHasEmptyTranscripts]"

definition all_MalformedError :: "MalformedError list" where
  "all_MalformedError = [Me_VerifierKeyNotSet, Me_TransactionTooLarge, Me_VerifierKeyTooLarge,
     Me_VerifierKeyNotPresent, Me_ContractNotPresent, Me_InvalidProof,
     Me_BindingCommitmentOpeningInvalid, Me_NotNormalized, Me_FallibleWithoutCheckpoint,
     Me_ClaimReceiveFailed, Me_ClaimSpendFailed, Me_ClaimNullifierFailed, Me_ClaimCallFailed,
     Me_InvalidSchnorrProof, Me_UnclaimedCoinCom, Me_UnclaimedNullifier, Me_Unbalanced] @ map
     Me_Zswap all_MalformedZswapErrorCode @ [Me_BuiltinDecode, Me_GuaranteedLimit,
     Me_MergingContracts, Me_CantMergeTypes, Me_ClaimOverflow, Me_ClaimCoinMismatch,
     Me_KeyNotInCommittee, Me_InvalidCommitteeSignature, Me_ThresholdMissed, Me_TooManyZswapEntries,
     Me_BalanceCheckOverspend, Me_InvalidNetworkId, Me_IllegallyDeclaredGuaranteed] @ map
     Me_FeeCalculation all_FeeCalculationErrorCode @ [Me_InvalidDustRegistrationSignature,
     Me_InvalidDustSpendProof, Me_OutOfDustValidityWindow, Me_MultipleDustRegistrationsForKey,
     Me_InsufficientDustForRegistrationFee] @ map Me_MalformedContractDeploy
     all_MalformedContractDeployErrorCode @ [Me_IntentSignatureVerificationFailure,
     Me_IntentSignatureKeyMismatch, Me_IntentSegmentIdCollision, Me_IntentAtGuaranteedSegmentId,
     Me_UnsupportedProofVersion, Me_GuaranteedTranscriptVersion, Me_FallibleTranscriptVersion] @ map
     Me_TransactionApplication all_TransactionApplicationErrorCode @ [Me_BalanceCheckOutOfBounds,
     Me_BalanceCheckConversionFailure, Me_PedersenCheckFailure] @ map Me_EffectsCheck
     all_EffectsCheckErrorCode @ map Me_DisjointCheck all_DisjointCheckErrorCode @ map
     Me_SequencingCheck all_SequencingCheckErrorCode @ [Me_InputsNotSorted, Me_OutputsNotSorted,
     Me_DuplicateInputs, Me_InputsSignaturesLengthMismatch, Me_UnknownError]"

definition all_SystemTransactionError :: "SystemTransactionError list" where
  "all_SystemTransactionError = [Ste_IllegalPayout, Ste_InsufficientTreasuryFunds, Ste_CommitmentAlreadyPresent] @ map
     Ste_ReplayProtectionFailure all_TransactionApplicationErrorCode @
     [Ste_IllegalReserveDistribution, Ste_GenerationInfoAlreadyPresent, Ste_InvalidBasisPoints,
     Ste_InvariantViolation, Ste_TreasuryDisabled, Ste_MerkleTreeError, Ste_UnknownError]"

definition all_TransactionError :: "TransactionError list" where
  "all_TransactionError = map Te_Invalid all_InvalidError @ map Te_Malformed all_MalformedError @ map
     Te_SystemTransaction all_SystemTransactionError"

definition all_LedgerApiError :: "LedgerApiError list" where
  "all_LedgerApiError = map Le_Deserialization all_DeserializationError @ map Le_Serialization all_SerializationError @
     map Le_Transaction all_TransactionError @ [Le_LedgerCacheError, Le_NoLedgerState,
     Le_LedgerStateScaleDecodingError, Le_ContractCallCostError, Le_BlockLimitExceededError,
     Le_FeeCalculationError, Le_HostApiError, Le_GetTransactionContextError, Le_ContractNotPresent,
     Le_BeneficiaryNotFound, Le_TransactionVersionNotActive]"

lemma all_DeserializationError_mem: "e \<in> set all_DeserializationError"
  by (cases e) (simp_all add: all_DeserializationError_def)

lemma all_SerializationError_mem: "e \<in> set all_SerializationError"
  by (cases e) (simp_all add: all_SerializationError_def)

lemma all_ZswapInvalidErrorCode_mem: "e \<in> set all_ZswapInvalidErrorCode"
  by (cases e) (simp_all add: all_ZswapInvalidErrorCode_def)

lemma all_TransactionApplicationErrorCode_mem: "e \<in> set all_TransactionApplicationErrorCode"
  by (cases e) (simp_all add: all_TransactionApplicationErrorCode_def)

lemma all_InvalidError_mem: "e \<in> set all_InvalidError"
  by (cases e) (simp_all add: all_InvalidError_def all_ZswapInvalidErrorCode_mem all_TransactionApplicationErrorCode_mem)

lemma all_MalformedZswapErrorCode_mem: "e \<in> set all_MalformedZswapErrorCode"
  by (cases e) (simp_all add: all_MalformedZswapErrorCode_def)

lemma all_FeeCalculationErrorCode_mem: "e \<in> set all_FeeCalculationErrorCode"
  by (cases e) (simp_all add: all_FeeCalculationErrorCode_def)

lemma all_MalformedContractDeployErrorCode_mem: "e \<in> set all_MalformedContractDeployErrorCode"
  by (cases e) (simp_all add: all_MalformedContractDeployErrorCode_def)

lemma all_EffectsCheckErrorCode_mem: "e \<in> set all_EffectsCheckErrorCode"
  by (cases e) (simp_all add: all_EffectsCheckErrorCode_def)

lemma all_DisjointCheckErrorCode_mem: "e \<in> set all_DisjointCheckErrorCode"
  by (cases e) (simp_all add: all_DisjointCheckErrorCode_def)

lemma all_SequencingCheckErrorCode_mem: "e \<in> set all_SequencingCheckErrorCode"
  by (cases e) (simp_all add: all_SequencingCheckErrorCode_def)

lemma all_MalformedError_mem: "e \<in> set all_MalformedError"
  by (cases e) (simp_all add: all_MalformedError_def all_MalformedZswapErrorCode_mem all_FeeCalculationErrorCode_mem all_MalformedContractDeployErrorCode_mem all_TransactionApplicationErrorCode_mem all_EffectsCheckErrorCode_mem all_DisjointCheckErrorCode_mem all_SequencingCheckErrorCode_mem)

lemma all_SystemTransactionError_mem: "e \<in> set all_SystemTransactionError"
  by (cases e) (simp_all add: all_SystemTransactionError_def all_TransactionApplicationErrorCode_mem)

lemma all_TransactionError_mem: "e \<in> set all_TransactionError"
  by (cases e) (simp_all add: all_TransactionError_def all_InvalidError_mem all_MalformedError_mem all_SystemTransactionError_mem)

lemma all_LedgerApiError_mem: "e \<in> set all_LedgerApiError"
  by (cases e) (simp_all add: all_LedgerApiError_def all_DeserializationError_mem all_SerializationError_mem all_TransactionError_mem)

lemmas error_lists =
  all_DeserializationError_def all_SerializationError_def all_ZswapInvalidErrorCode_def all_TransactionApplicationErrorCode_def all_InvalidError_def all_MalformedZswapErrorCode_def all_FeeCalculationErrorCode_def all_MalformedContractDeployErrorCode_def all_EffectsCheckErrorCode_def all_DisjointCheckErrorCode_def all_SequencingCheckErrorCode_def all_MalformedError_def all_SystemTransactionError_def all_TransactionError_def all_LedgerApiError_def

lemma error_codes_distinct: "distinct (RETIRED_U8_ERROR_CODES @ map error_code all_LedgerApiError)"
proof (rule distinct_map [THEN iffD1, THEN conjunct1])
  show "distinct (map uint (RETIRED_U8_ERROR_CODES @ map error_code all_LedgerApiError))"
    by code_simp
qed

section \<open>Properties\<close>

text \<open>
  the code of an error identifies it: no two errors share a code, and no
  code of an error is one of the retired codes.
\<close>

lemma error_codes_identify:
  "inj error_code \<and> range error_code \<inter> set RETIRED_U8_ERROR_CODES = {}"
proof -
  have all: "set all_LedgerApiError = UNIV"
    by (auto simp: all_LedgerApiError_mem)
  then show ?thesis
    using error_codes_distinct by (auto simp: distinct_map)
qed

end
