(* ===== verification/Unshielded_Utxos.thy ===== *)
theory Unshielded_Utxos
  imports Ledger_Errors
begin

text \<open>
  What the ledger host API reports of a transaction
  (\<open>ledger/src/versions/common/api/transaction.rs\<close> and
  \<open>utxo_ordering_override.rs\<close>): the unshielded outputs and inputs of each of its
  segments, the check of that report against the ledger's UTXO set, the
  contract operations, and the reordering of the report for blocks produced
  before the segments were kept in order.

  The transaction types are those of the ledger library.  The records below
  hold what the code reads of them: the segments and intents of a standard
  transaction in the library's iteration order, its contract actions, and the
  fields of a claim.  A \<open>BTreeMap\<close> is its list of entries in key order.
\<close>

section \<open>Data\<close>

type_synonym hash = "u8 list"
type_synonym segment_id = u16
type_synonym 'v segment_map = "(segment_id \<times> 'v) list"

record UtxoInfo =
  address :: hash
  token_type :: hash
  info_intent_hash :: hash
  info_value :: u128
  output_no :: u32

record Utxo =
  utxo_value :: u128
  utxo_owner :: hash
  utxo_type :: hash
  utxo_intent_hash :: hash
  utxo_output_no :: u32

record UtxoOutput =
  out_owner :: hash
  out_type :: hash
  out_value :: u128

record intent =
  intent_hash :: "segment_id \<Rightarrow> hash"
  guaranteed_outputs :: "UtxoOutput list"
  guaranteed_inputs :: "Utxo list"
  fallible_outputs :: "UtxoOutput list"
  fallible_inputs :: "Utxo list"

datatype ContractAction = ActionCall hash "u8 list" | ActionDeploy hash | ActionMaintain hash

record standard_tx =
  segments :: "segment_id list"
  intents :: "intent segment_map"
  actions :: "(segment_id \<times> ContractAction) list"
  guaranteed_coins :: bool
  fallible_coins :: nat

datatype ClaimKind = Reward | CardanoBridge

record claim_tx =
  claim_value :: u128
  claim_kind :: ClaimKind
  claim_owner :: hash
  claim_nonce :: hash

datatype inner_tx = Standard standard_tx | ClaimRewardsTx claim_tx

datatype Operation =
    Call hash "u8 list"
  | Deploy hash
  | Maintain hash
  | ClaimRewards u128
  | ClaimBridgeTransfer u128

record UnshieldedUtxos =
  outputs :: "UtxoInfo list segment_map"
  inputs :: "UtxoInfo list segment_map"

record UtxoOrdering =
  created :: "(hash \<times> u32) list"
  spent :: "(hash \<times> u32) list"

text \<open>The token type of NIGHT and the intent hash the library gives a claim's output.\<close>

record claim_lib =
  NIGHT :: hash
  mk_intent_hash :: "u128 \<Rightarrow> hash \<Rightarrow> hash \<Rightarrow> hash"

section \<open>The unshielded UTXOs of a transaction\<close>

definition utxo_output_info :: "UtxoOutput \<Rightarrow> hash \<Rightarrow> u32 \<Rightarrow> UtxoInfo" where
  "utxo_output_info out ih n = \<lparr>address = out_owner out, token_type = out_type out,
     info_intent_hash = ih, info_value = out_value out, output_no = n\<rparr>"

definition from_utxo_spend :: "Utxo \<Rightarrow> UtxoInfo" where
  "from_utxo_spend u = \<lparr>address = utxo_owner u, token_type = utxo_type u,
     info_intent_hash = utxo_intent_hash u, info_value = utxo_value u, output_no = utxo_output_no u\<rparr>"

definition utxos_info_from_output :: "UtxoOutput list \<Rightarrow> hash \<Rightarrow> UtxoInfo list option" where
  "utxos_info_from_output outs ih =
    those (map (\<lambda>(n, out). if n < 2 ^ 32 then Some (utxo_output_info out ih (word_of_nat n)) else None)
      (enumerate 0 outs))"

definition utxos_info_from_inputs :: "Utxo list \<Rightarrow> UtxoInfo list" where
  "utxos_info_from_inputs ins = map from_utxo_spend ins"

fun entry_extend :: "segment_id \<Rightarrow> 'a list \<Rightarrow> 'a list segment_map \<Rightarrow> 'a list segment_map" where
  "entry_extend k vs [] = [(k, vs)]"
| "entry_extend k vs ((j, ws) # m) =
    (if k = j then (j, ws @ vs) # m
     else if k < j then (k, vs) # (j, ws) # m
     else (j, ws) # entry_extend k vs m)"

definition update_segment :: "segment_id \<Rightarrow> 'a list \<Rightarrow> 'a list segment_map \<Rightarrow> 'a list segment_map" where
  "update_segment k vs m = (if vs = [] then m else entry_extend k vs m)"

definition add_intent ::
  "segment_id \<Rightarrow> hash \<Rightarrow> UtxoOutput list \<Rightarrow> Utxo list \<Rightarrow> UnshieldedUtxos \<Rightarrow> UnshieldedUtxos option" where
  "add_intent sid ih outs ins u =
    (case utxos_info_from_output outs ih of
       None \<Rightarrow> None
     | Some info \<Rightarrow> Some (u\<lparr>outputs := update_segment sid info (outputs u),
          inputs := update_segment sid (utxos_info_from_inputs ins) (inputs u)\<rparr>))"

fun guaranteed_phase :: "intent list \<Rightarrow> UnshieldedUtxos \<Rightarrow> UnshieldedUtxos option" where
  "guaranteed_phase [] u = Some u"
| "guaranteed_phase (i # is) u =
    (case add_intent 0 (intent_hash i 0) (guaranteed_outputs i) (guaranteed_inputs i) u of
       None \<Rightarrow> None
     | Some u' \<Rightarrow> guaranteed_phase is u')"

fun segments_phase :: "standard_tx \<Rightarrow> segment_id list \<Rightarrow> UnshieldedUtxos \<Rightarrow> UnshieldedUtxos option" where
  "segments_phase tx [] u = Some u"
| "segments_phase tx (sid # sids) u =
    (case (if sid = 0 then guaranteed_phase (map snd (intents tx)) u
           else case map_of (intents tx) sid of
               Some i \<Rightarrow> add_intent sid (intent_hash i sid) (fallible_outputs i) (fallible_inputs i) u
             | None \<Rightarrow> Some u) of
       None \<Rightarrow> None
     | Some u' \<Rightarrow> segments_phase tx sids u')"

definition no_utxos :: UnshieldedUtxos where
  "no_utxos = \<lparr>outputs = [], inputs = []\<rparr>"

definition unshielded_utxos :: "claim_lib \<Rightarrow> inner_tx \<Rightarrow> UnshieldedUtxos" where
  "unshielded_utxos lib tx =
    (case tx of
       Standard t \<Rightarrow> (case segments_phase t (segments t) no_utxos of Some u \<Rightarrow> u | None \<Rightarrow> no_utxos)
     | ClaimRewardsTx c \<Rightarrow>
         no_utxos\<lparr>outputs := update_segment 0
           [\<lparr>address = claim_owner c, token_type = NIGHT lib,
             info_intent_hash = mk_intent_hash lib (claim_value c) (claim_owner c) (claim_nonce c),
             info_value = claim_value c, output_no = 0\<rparr>] []\<rparr>)"

definition segment_values :: "'a list segment_map \<Rightarrow> 'a list" where
  "segment_values m = concat (map snd m)"

definition remove_segment :: "segment_id \<Rightarrow> 'v segment_map \<Rightarrow> 'v segment_map" where
  "remove_segment k m = filter (\<lambda>e. fst e \<noteq> k) m"

fun remove_failed_segments :: "(InvalidError, unit) result segment_map \<Rightarrow> UnshieldedUtxos \<Rightarrow> UnshieldedUtxos" where
  "remove_failed_segments [] u = u"
| "remove_failed_segments ((k, r) # rs) u = remove_failed_segments rs
    (if is_ok r then u
     else u\<lparr>outputs := remove_segment k (outputs u), inputs := remove_segment k (inputs u)\<rparr>)"

definition utxo_of :: "UtxoInfo \<Rightarrow> Utxo" where
  "utxo_of i = \<lparr>utxo_value = info_value i, utxo_owner = address i, utxo_type = token_type i,
     utxo_intent_hash = info_intent_hash i, utxo_output_no = output_no i\<rparr>"

definition check_utxos_response_integrity ::
  "UnshieldedUtxos \<Rightarrow> nat \<Rightarrow> Utxo set \<Rightarrow> (LedgerApiError, UtxoInfo list \<times> UtxoInfo list) result" where
  "check_utxos_response_integrity u initial_utxos_size final =
    (if \<not> list_all (\<lambda>i. utxo_of i \<in> final) (segment_values (outputs u)) then Inl Le_HostApiError
     else if \<not> list_all (\<lambda>i. utxo_of i \<notin> final) (segment_values (inputs u)) then Inl Le_HostApiError
     else
       let utxo_outputs = segment_values (outputs u);
           utxo_inputs = segment_values (inputs u);
           expected_final_utxos_size = initial_utxos_size + length utxo_outputs - length utxo_inputs
       in if card final \<noteq> expected_final_utxos_size then Inl Le_HostApiError
          else Inr (utxo_outputs, utxo_inputs))"

section \<open>The operations of a transaction\<close>

definition calls_and_deploys :: "inner_tx \<Rightarrow> segment_id list option \<Rightarrow> Operation list" where
  "calls_and_deploys tx filter_segments =
    (let filtered_segments = (case filter_segments of Some ss \<Rightarrow> ss | None \<Rightarrow> []) in
     case tx of
       Standard t \<Rightarrow>
         map (\<lambda>(_, a). case a of
             ActionCall addr ep \<Rightarrow> Call addr ep
           | ActionDeploy addr \<Rightarrow> Deploy addr
           | ActionMaintain addr \<Rightarrow> Maintain addr)
           (filter (\<lambda>(sid, _). sid \<notin> set filtered_segments) (actions t))
     | ClaimRewardsTx c \<Rightarrow>
         (case claim_kind c of
            Reward \<Rightarrow> [ClaimRewards (claim_value c)]
          | CardanoBridge \<Rightarrow> [ClaimBridgeTransfer (claim_value c)]))"

definition has_guaranteed_coins :: "inner_tx \<Rightarrow> bool" where
  "has_guaranteed_coins tx = (case tx of Standard t \<Rightarrow> guaranteed_coins t | _ \<Rightarrow> False)"

definition has_fallible_coins :: "inner_tx \<Rightarrow> bool" where
  "has_fallible_coins tx = (case tx of Standard t \<Rightarrow> fallible_coins t > 0 | _ \<Rightarrow> False)"

section \<open>The ordering override\<close>

definition utxo_key :: "UtxoInfo \<Rightarrow> hash \<times> u32" where
  "utxo_key u = (info_intent_hash u, output_no u)"

fun position :: "('a \<Rightarrow> bool) \<Rightarrow> 'a list \<Rightarrow> nat option" where
  "position P [] = None"
| "position P (x # xs) = (if P x then Some 0 else map_option Suc (position P xs))"

text \<open>\<open>Vec::swap_remove\<close>: the last element takes the place of the removed one.\<close>

definition swap_remove :: "'a list \<Rightarrow> nat \<Rightarrow> 'a \<times> 'a list" where
  "swap_remove xs n = (xs ! n, butlast (xs[n := last xs]))"

text \<open>
  The loop of \<open>reorder\<close>: the vector that remains and the entries taken out so
  far, the latter lost when an entry of the override is not found.
\<close>

fun reorder_loop :: "(hash \<times> u32) list \<Rightarrow> UtxoInfo list \<Rightarrow> UtxoInfo list \<Rightarrow> UtxoInfo list" where
  "reorder_loop [] utxos reordered = reordered"
| "reorder_loop (k # ks) utxos reordered =
    (case position (\<lambda>u. utxo_key u = k) utxos of
       Some pos \<Rightarrow> (let (u, utxos') = swap_remove utxos pos in reorder_loop ks utxos' (reordered @ [u]))
     | None \<Rightarrow> utxos)"

definition reorder :: "UtxoInfo list \<Rightarrow> (hash \<times> u32) list \<Rightarrow> UtxoInfo list" where
  "reorder utxos expected =
    (if expected = [] \<or> length utxos \<noteq> length expected then utxos else reorder_loop expected utxos [])"

definition ordering_apply ::
  "UtxoOrdering \<Rightarrow> UtxoInfo list \<Rightarrow> nat \<Rightarrow> UtxoInfo list \<Rightarrow> nat \<Rightarrow> UtxoInfo list \<times> UtxoInfo list" where
  "ordering_apply ord outs output_segments ins input_segments =
    (if output_segments > 1 then reorder outs (created ord) else outs,
     if input_segments > 1 then reorder ins (spent ord) else ins)"

record TxOverride =
  override_tx_hash :: string
  override_created :: "(string \<times> u32) list"
  override_spent :: "(string \<times> u32) list"

text \<open>
  The override file of a network: \<open>hex_decode\<close> is the hex crate, \<open>read_overrides\<close>
  the file system and the JSON parser, None for a missing or malformed file.
\<close>

record override_lib =
  hex_decode :: "string \<Rightarrow> u8 list option"
  read_overrides :: "string \<Rightarrow> TxOverride list option"

definition parse_hash :: "override_lib \<Rightarrow> string \<Rightarrow> hash" where
  "parse_hash lib s =
    (case hex_decode lib s of
       Some bytes \<Rightarrow> take 32 bytes @ replicate (32 - length bytes) 0
     | None \<Rightarrow> replicate 32 0)"

definition parse_entry :: "override_lib \<Rightarrow> string \<times> u32 \<Rightarrow> hash \<times> u32" where
  "parse_entry lib e = (parse_hash lib (fst e), snd e)"

definition load_overrides :: "override_lib \<Rightarrow> string option \<Rightarrow> (hash \<Rightarrow> UtxoOrdering option)" where
  "load_overrides lib network =
    (let network_id = (case network of Some n \<Rightarrow> n | None \<Rightarrow> '''') in
     if network_id \<in> {''preview'', ''preprod'', ''qanet''}
     then case read_overrides lib (''res/utxo-ordering-override-'' @ network_id @ ''.json'') of
         None \<Rightarrow> Map.empty
       | Some entries \<Rightarrow>
           fold (\<lambda>tx m. m(parse_hash lib (override_tx_hash tx) \<mapsto>
               \<lparr>created = map (parse_entry lib) (override_created tx),
                spent = map (parse_entry lib) (override_spent tx)\<rparr>)) entries Map.empty
     else Map.empty)"

section \<open>Lemmas\<close>

text \<open>The entries of a segment map are in key order and none is empty.\<close>

definition segment_map_ok :: "'a list segment_map \<Rightarrow> bool" where
  "segment_map_ok m \<longleftrightarrow> sorted_wrt (<) (map fst m) \<and> (\<forall>e \<in> set m. snd e \<noteq> [])"

lemma entry_extend_keys: "set (map fst (entry_extend k vs m)) = insert k (set (map fst m))"
  by (induction k vs m rule: entry_extend.induct) auto

lemma entry_extend_ok:
  "segment_map_ok m \<Longrightarrow> vs \<noteq> [] \<Longrightarrow> segment_map_ok (entry_extend k vs m)"
proof (induction k vs m rule: entry_extend.induct)
  case (2 k vs j ws m)
  then show ?case
    using entry_extend_keys [of k vs m] by (fastforce simp: segment_map_ok_def)
qed (simp add: segment_map_ok_def)

lemma update_segment_ok [intro]: "segment_map_ok m \<Longrightarrow> segment_map_ok (update_segment k vs m)"
  by (simp add: update_segment_def entry_extend_ok)

lemma add_intent_ok:
  "add_intent sid ih outs ins u = Some u' \<Longrightarrow> segment_map_ok (outputs u) \<and> segment_map_ok (inputs u)
    \<Longrightarrow> segment_map_ok (outputs u') \<and> segment_map_ok (inputs u')"
  by (auto simp: add_intent_def split: option.splits)

lemma guaranteed_phase_ok:
  "guaranteed_phase is u = Some u' \<Longrightarrow> segment_map_ok (outputs u) \<and> segment_map_ok (inputs u)
    \<Longrightarrow> segment_map_ok (outputs u') \<and> segment_map_ok (inputs u')"
  by (induction "is" u rule: guaranteed_phase.induct) (auto dest: add_intent_ok split: option.splits)

lemma segments_phase_ok:
  "segments_phase tx sids u = Some u' \<Longrightarrow> segment_map_ok (outputs u) \<and> segment_map_ok (inputs u)
    \<Longrightarrow> segment_map_ok (outputs u') \<and> segment_map_ok (inputs u')"
proof (induction tx sids u rule: segments_phase.induct)
  case (2 tx sid sids u)
  then show ?case
    by (auto split: option.splits if_splits dest: add_intent_ok guaranteed_phase_ok)
qed simp

lemma unshielded_utxos_ok:
  "segment_map_ok (outputs (unshielded_utxos lib tx)) \<and> segment_map_ok (inputs (unshielded_utxos lib tx))"
proof -
  have "segment_map_ok (outputs no_utxos)" "segment_map_ok (inputs no_utxos)"
    by (simp_all add: no_utxos_def segment_map_ok_def)
  moreover have "segment_map_ok (update_segment k vs [])" for k and vs :: "UtxoInfo list"
    by (rule update_segment_ok) (simp add: segment_map_ok_def)
  ultimately show ?thesis
    unfolding unshielded_utxos_def by (auto split: inner_tx.split option.split dest: segments_phase_ok)
qed

lemma remove_segment_ok: "segment_map_ok m \<Longrightarrow> segment_map_ok (remove_segment k m)"
  by (auto simp: segment_map_ok_def remove_segment_def sorted_wrt_map sorted_wrt_filter)

lemma remove_failed_segments_filter:
  "outputs (remove_failed_segments rs u) = filter (\<lambda>e. \<forall>(k, r) \<in> set rs. fst e = k \<longrightarrow> is_ok r) (outputs u)"
  "inputs (remove_failed_segments rs u) = filter (\<lambda>e. \<forall>(k, r) \<in> set rs. fst e = k \<longrightarrow> is_ok r) (inputs u)"
  by (induction rs u rule: remove_failed_segments.induct)
    (auto simp: remove_segment_def intro!: filter_cong)

lemma inj_utxo_of: "inj utxo_of"
  by (auto simp: inj_def utxo_of_def)

lemma check_integrity_iff:
  "check_utxos_response_integrity u n F = Inr (outs, ins) \<longleftrightarrow>
    outs = segment_values (outputs u) \<and> ins = segment_values (inputs u)
    \<and> utxo_of ` set outs \<subseteq> F \<and> utxo_of ` set ins \<inter> F = {} \<and> card F = n + length outs - length ins"
  by (auto simp: check_utxos_response_integrity_def Let_def list_all_iff split: if_splits)

lemma position_Some: "position P xs = Some n \<Longrightarrow> n < length xs \<and> P (xs ! n)"
  by (induction xs arbitrary: n) (auto split: if_splits)

lemma position_None: "position P xs = None \<longleftrightarrow> (\<forall>x \<in> set xs. \<not> P x)"
  by (induction xs) auto

lemma swap_remove_mset:
  assumes "n < length xs" "swap_remove xs n = (x, ys)"
  shows "x = xs ! n" "mset xs = add_mset x (mset ys)"
proof -
  let ?zs = "xs[n := last xs]"
  have ne: "xs \<noteq> []" "?zs \<noteq> []"
    using assms(1) by auto
  then have "last ?zs = last xs"
    using assms(1) by (simp add: last_list_update)
  then have "mset ?zs = add_mset (last xs) (mset (butlast ?zs))"
    using ne(2) by (metis append_butlast_last_id mset_append mset_single_iff_right add_mset_add_single mset.simps(2))
  moreover have "mset ?zs = add_mset (last xs) (mset xs - {#xs ! n#})"
    using assms(1) by (simp add: mset_update)
  ultimately show "x = xs ! n" "mset xs = add_mset x (mset ys)"
    using assms by (auto simp: swap_remove_def) (metis insert_DiffM nth_mem_mset)
qed

text \<open>Entries that are found are taken out in the order of the override.\<close>

lemma reorder_loop_found:
  assumes "mset ks \<subseteq># image_mset utxo_key (mset us)"
  obtains taken rest where "reorder_loop (ks @ ks') us acc = reorder_loop ks' rest (acc @ taken)"
    "map utxo_key taken = ks" "mset us = mset taken + mset rest"
  using assms
proof (induction ks arbitrary: us acc thesis)
  case Nil
  show ?case by (rule Nil.prems(1) [of us "[]"]) simp_all
next
  case (Cons k ks)
  have "k \<in> utxo_key ` set us"
    using mset_subset_eqD [OF Cons.prems(2), of k] by auto
  then obtain pos where pos: "position (\<lambda>u. utxo_key u = k) us = Some pos"
    by (cases "position (\<lambda>u. utxo_key u = k) us") (auto simp: position_None)
  obtain u us' where sr: "swap_remove us pos = (u, us')"
    by fastforce
  have u: "u = us ! pos" "mset us = add_mset u (mset us')" "utxo_key u = k"
    using position_Some [OF pos] swap_remove_mset [OF _ sr] by auto
  have "mset ks \<subseteq># image_mset utxo_key (mset us')"
    using Cons.prems(2) u(2,3) by simp
  then obtain taken rest where "reorder_loop (ks @ ks') us' (acc @ [u]) = reorder_loop ks' rest ((acc @ [u]) @ taken)"
    "map utxo_key taken = ks" "mset us' = mset taken + mset rest"
    by (rule Cons.IH [rotated])
  then show ?case
    using pos sr u by (intro Cons.prems(1) [of rest "u # taken"]) simp_all
qed

section \<open>Properties\<close>


text \<open>A reported UTXO with the given intent hash and output number.\<close>

definition uu_info :: "u8 \<Rightarrow> u32 \<Rightarrow> UtxoInfo" where
  "uu_info h n = \<lparr>address = [1], token_type = [2], info_intent_hash = [h], info_value = 5, output_no = n\<rparr>"


text \<open>
  an override that names exactly the reported UTXOs, each as often as it is
  reported, reorders them into its own order and loses none.
\<close>

lemma reorder_permutes:
  assumes "mset (map utxo_key us) = mset expected"
  shows "mset (reorder us expected) = mset us \<and> map utxo_key (reorder us expected) = expected"
proof (cases "expected = []")
  case True
  with assms show ?thesis by (simp add: reorder_def)
next
  case False
  have len: "length us = length expected"
    using assms by (metis length_map size_mset)
  from assms have "mset expected \<subseteq># image_mset utxo_key (mset us)"
    by simp
  then obtain taken rest where loop: "reorder_loop (expected @ []) us [] = reorder_loop [] rest ([] @ taken)"
    "map utxo_key taken = expected" "mset us = mset taken + mset rest"
    by (rule reorder_loop_found)
  moreover have "rest = []"
    using loop(2,3) len by (metis add_cancel_left_right length_map size_mset size_union length_0_conv)
  ultimately show ?thesis
    using False len by (simp add: reorder_def)
qed

lemma reorder_permutes_example:
  "map utxo_key (reorder [uu_info 1 0, uu_info 2 0, uu_info 3 0] [([3], 0), ([1], 0), ([2], 0)])
    = [([3], 0), ([1], 0), ([2], 0)]"
  using reorder_permutes [of "[uu_info 1 0, uu_info 2 0, uu_info 3 0]" "[([3], 0), ([1], 0), ([2], 0)]"]
  by (simp add: utxo_key_def uu_info_def)

text \<open>
  An override with an entry that is not reported does not leave the report
  as it was: the UTXOs of the entries before the missing one are dropped from
  it.
\<close>

lemma stale_override_loses_utxos:
  assumes "length us = length (ks @ k # ks')"
    and "mset ks \<subseteq># mset (map utxo_key us)" "\<not> mset (ks @ [k]) \<subseteq># mset (map utxo_key us)"
  shows "mset (reorder us (ks @ k # ks')) \<subseteq># mset us
    \<and> length (reorder us (ks @ k # ks')) = length us - length ks"
proof -
  from assms(2) have "mset ks \<subseteq># image_mset utxo_key (mset us)"
    by simp
  then obtain taken rest where loop: "reorder_loop (ks @ k # ks') us [] = reorder_loop (k # ks') rest ([] @ taken)"
    "map utxo_key taken = ks" "mset us = mset taken + mset rest"
    by (rule reorder_loop_found)
  have "k \<notin> utxo_key ` set rest"
  proof
    assume "k \<in> utxo_key ` set rest"
    then have "{#k#} \<subseteq># image_mset utxo_key (mset rest)"
      by simp
    then have "mset ks + {#k#} \<subseteq># mset (map utxo_key us)"
      using loop(2,3) by (auto simp: subset_mset.add_left_mono)
    with assms(3) show False by simp
  qed
  then have "position (\<lambda>u. utxo_key u = k) rest = None"
    by (auto simp: position_None)
  then have "reorder us (ks @ k # ks') = rest"
    using loop(1) assms(1) by (simp add: reorder_def)
  moreover have "length us = length ks + length rest"
    using loop(2,3) by (metis length_map size_mset size_union)
  ultimately show ?thesis
    using loop(3) by simp
qed

lemma stale_override_example:
  "length (reorder [uu_info 1 0, uu_info 2 0] [([1], 0), ([9], 0)]) = 1"
  using stale_override_loses_utxos [of "[uu_info 1 0, uu_info 2 0]" "[([1], 0)]" "([9], 0)" "[]"]
  by (simp add: utxo_key_def uu_info_def)

end
