(* ===== verification/Ledger_State.thy ===== *)
theory Ledger_State
  imports Unshielded_Utxos
begin

text \<open>
  The node's view of the ledger library: block and consensus contexts
  (\<open>ledger/src/common/types.rs\<close>, \<open>block_context/post_ledger_8.rs\<close>), the two wire
  encodings of a transaction (\<open>tx_envelope/ledger_9.rs\<close>), and the ledger wrapper
  that accumulates the cost of a block (\<open>common/api/ledger.rs\<close>,
  \<open>post_block_update/ledger_9.rs\<close>, \<open>ledger/helpers\<close>).

  The ledger library, its storage arena, its serialization and its hashes are
  not part of the repository: they are the fields of \<open>mn_ledger\<close>, an argument of
  every definition that uses them.  \<open>'st\<close> is the library's ledger state, \<open>'tx\<close> its
  transaction, \<open>'vt\<close> its verified transaction and \<open>'k\<close> the key of a state in the
  arena.  Timestamps are in seconds; a fixed-point number is its integer value.
\<close>

section \<open>Contexts\<close>

record BlockContext =
  tblock :: u64
  tblock_err :: u32
  parent_block_hash :: "u8 list"
  last_block_time :: u64

definition parent_block_time :: "BlockContext \<Rightarrow> u64 option" where
  "parent_block_time bc = Some (last_block_time bc)"

record ConsensusContext =
  block_height :: u64
  memo_activation_height :: u64

definition MEMO_NEVER_ACTIVE :: ConsensusContext where
  "MEMO_NEVER_ACTIVE = \<lparr>block_height = 0, memo_activation_height = - 1\<rparr>"

definition memo_active :: "ConsensusContext \<Rightarrow> bool" where
  "memo_active c \<longleftrightarrow> block_height c \<ge> memo_activation_height c"

datatype TxWireEra = PreMemo | MemoCapable

record TBlockCorrection =
  offset :: "64 word"
  disable_after :: u64

section \<open>Costs\<close>

record SyntheticCost =
  read_time :: u64
  compute_time :: u64
  block_usage :: u64
  bytes_written :: u64
  bytes_churned :: u64

record NormalizedCost =
  norm_read_time :: int
  norm_compute_time :: int
  norm_block_usage :: int
  norm_bytes_written :: int
  norm_bytes_churned :: int

definition cost_zero :: SyntheticCost where
  "cost_zero = \<lparr>read_time = 0, compute_time = 0, block_usage = 0, bytes_written = 0, bytes_churned = 0\<rparr>"

definition cost_is_zero :: "SyntheticCost \<Rightarrow> bool" where
  "cost_is_zero c \<longleftrightarrow> read_time c = 0 \<and> compute_time c = 0 \<and> block_usage c = 0
     \<and> bytes_written c = 0 \<and> bytes_churned c = 0"

section \<open>The library\<close>

record 'st Ledger =
  state :: 'st
  block_fullness :: SyntheticCost

record 'st TransactionContext =
  ref_state :: 'st
  block_context :: BlockContext

datatype TransactionResult =
    Success
  | PartialSuccess "(InvalidError, unit) result segment_map"
  | Failure InvalidError

record CNightGeneratesDustEvent =
  event_value :: u128
  event_owner :: "u8 list"
  event_time :: u64
  event_create :: bool
  event_nonce :: "u8 list"

record OutputInstruction =
  instruction_amount :: u128
  instruction_target :: hash
  instruction_nonce :: "u8 list"

datatype SystemTransaction =
    OverwriteParameters "u8 list"
  | DistributeNight ClaimKind "OutputInstruction list"
  | PayBlockRewardsToTreasury u128
  | PayFromTreasuryShielded "u8 list"
  | PayFromTreasuryUnshielded "u8 list"
  | DistributeReserve u128
  | UnlockToTreasury u128
  | CNightGeneratesDustUpdate "CNightGeneratesDustEvent list"
  | OtherSystemTransaction "u8 list"

record ('st, 'tx, 'vt, 'k) mn_ledger =
  versioned_deserialize :: "u8 list \<Rightarrow> (bool \<times> 'tx) option"
  tx_view :: "'tx \<Rightarrow> inner_tx"
  transaction_hash :: "'tx \<Rightarrow> hash"
  tx_identifiers :: "'tx \<Rightarrow> u8 list option list"
  tx_cost :: "'tx \<Rightarrow> 'st \<Rightarrow> SyntheticCost option"
  well_formed :: "'tx \<Rightarrow> 'st \<Rightarrow> u64 \<Rightarrow> (MalformedError, 'vt) result"
  apply_tx :: "'st \<Rightarrow> 'vt \<Rightarrow> 'st TransactionContext \<Rightarrow> 'st \<times> TransactionResult"
  apply_guaranteed_only :: "'st \<Rightarrow> 'vt \<Rightarrow> 'st TransactionContext \<Rightarrow> (InvalidError, unit) result"
  system_cost :: "SystemTransaction \<Rightarrow> 'st \<Rightarrow> SyntheticCost"
  apply_system :: "'st \<Rightarrow> SystemTransaction \<Rightarrow> u64 \<Rightarrow> (SystemTransactionError, 'st) result"
  block_limits :: "'st \<Rightarrow> SyntheticCost"
  cost_add :: "SyntheticCost \<Rightarrow> SyntheticCost \<Rightarrow> SyntheticCost"
  normalize :: "SyntheticCost \<Rightarrow> SyntheticCost \<Rightarrow> NormalizedCost option"
  prevalidate_update :: "'st \<Rightarrow> NormalizedCost \<Rightarrow> int \<Rightarrow> bool"
  apply_update :: "'st \<Rightarrow> u64 \<Rightarrow> NormalizedCost \<Rightarrow> int \<Rightarrow> 'st"
  into_atomic_units :: "int \<Rightarrow> u128 \<Rightarrow> u128"
  timestamp_add :: "u64 \<Rightarrow> 64 word \<Rightarrow> u64"
  state_hash :: "'st \<Rightarrow> hash"
  state_utxos :: "'st \<Rightarrow> Utxo set"
  state_network_id :: "'st \<Rightarrow> string"
  bridge_min_amount :: "'st \<Rightarrow> u128"
  key_of :: "'st Ledger \<Rightarrow> 'k"
  encode_key :: "'k \<Rightarrow> u8 list option"
  decode_key :: "u8 list \<Rightarrow> 'k option"
  serialize_address :: "hash \<Rightarrow> u8 list option"
  deserialize_dust_key :: "u8 list \<Rightarrow> u8 list option"
  serialize_event :: "CNightGeneratesDustEvent \<Rightarrow> u8 list option"
  deserialize_event :: "u8 list \<Rightarrow> CNightGeneratesDustEvent option"
  serialize_system :: "SystemTransaction \<Rightarrow> u8 list option"
  deserialize_system :: "u8 list \<Rightarrow> SystemTransaction option"
  system_hash :: "SystemTransaction \<Rightarrow> hash"
  twox128 :: "u8 list \<Rightarrow> u8 list"
  claims :: claim_lib
  overrides :: override_lib

section \<open>Decoding\<close>

definition decode_versioned ::
  "('st, 'tx, 'vt, 'k) mn_ledger \<Rightarrow> u8 list \<Rightarrow> (LedgerApiError, 'tx \<times> TxWireEra) result" where
  "decode_versioned lib bytes =
    (case versioned_deserialize lib bytes of
       None \<Rightarrow> Inl (Le_Deserialization De_Transaction)
     | Some (is_v12, tx) \<Rightarrow> Inr (tx, if is_v12 then PreMemo else MemoCapable))"

section \<open>The fullness of a block\<close>

definition compute_overall_fullness :: "NormalizedCost \<Rightarrow> int" where
  "compute_overall_fullness n =
    max (max (max (norm_read_time n) (norm_compute_time n)) (norm_block_usage n))
        (max (norm_bytes_written n) (norm_bytes_churned n))"

definition clamp :: "SyntheticCost \<Rightarrow> SyntheticCost \<Rightarrow> SyntheticCost" where
  "clamp cost limits = \<lparr>read_time = min (read_time cost) (read_time limits),
     compute_time = min (compute_time cost) (compute_time limits),
     block_usage = min (block_usage cost) (block_usage limits),
     bytes_written = min (bytes_written cost) (bytes_written limits),
     bytes_churned = min (bytes_churned cost) (bytes_churned limits)\<rparr>"

text \<open>The clamped cost is expected to normalize; None is the panic when it does not.\<close>

definition clamp_and_normalize ::
  "('st, 'tx, 'vt, 'k) mn_ledger \<Rightarrow> SyntheticCost \<Rightarrow> SyntheticCost \<Rightarrow> NormalizedCost option" where
  "clamp_and_normalize lib cost limits = normalize lib (clamp cost limits) limits"

definition prevalidate_post_block_update ::
  "('st, 'tx, 'vt, 'k) mn_ledger \<Rightarrow> 'st \<Rightarrow> SyntheticCost \<Rightarrow> SyntheticCost \<Rightarrow> (LedgerApiError, unit) result" where
  "prevalidate_post_block_update lib st fullness limits =
    (case normalize lib fullness limits of
       None \<Rightarrow> Inl Le_BlockLimitExceededError
     | Some normalized_fullness \<Rightarrow>
         if prevalidate_update lib st normalized_fullness (compute_overall_fullness normalized_fullness)
         then Inr () else Inl Le_BlockLimitExceededError)"

section \<open>The ledger wrapper\<close>

datatype AppliedStage = AllApplied | StagePartial "(InvalidError, unit) result segment_map"

definition ledger_new :: "'st \<Rightarrow> 'st Ledger" where
  "ledger_new st = \<lparr>state = st, block_fullness = cost_zero\<rparr>"

definition is_block_start :: "'st Ledger \<Rightarrow> bool" where
  "is_block_start l \<longleftrightarrow> cost_is_zero (block_fullness l)"

definition get_transaction_context ::
  "'st Ledger \<Rightarrow> BlockContext \<Rightarrow> (LedgerApiError, 'st TransactionContext) result" where
  "get_transaction_context l bc =
    (if length (parent_block_hash bc) = 32 then Inr \<lparr>ref_state = state l, block_context = bc\<rparr>
     else Inl Le_GetTransactionContextError)"

definition apply_verified_transaction ::
  "('st, 'tx, 'vt, 'k) mn_ledger \<Rightarrow> 'st Ledger \<Rightarrow> 'tx \<Rightarrow> 'vt \<Rightarrow> 'st TransactionContext
    \<Rightarrow> (LedgerApiError, 'st Ledger \<times> AppliedStage) result" where
  "apply_verified_transaction lib l tx verified_tx ctx =
    (case tx_cost lib tx (state l) of
       None \<Rightarrow> Inl Le_FeeCalculationError
     | Some cost \<Rightarrow>
        (let next_block_fullness = cost_add lib cost (block_fullness l) in
         bind_result (prevalidate_post_block_update lib (state l) next_block_fullness (block_limits lib (state l))) (\<lambda>_.
         let (next_state, result) = apply_tx lib (state l) verified_tx ctx;
             new_l = \<lparr>state = next_state, block_fullness = next_block_fullness\<rparr>
         in case result of
              Success \<Rightarrow> Inr (new_l, AllApplied)
            | PartialSuccess segs \<Rightarrow> Inr (new_l, StagePartial segs)
            | Failure reason \<Rightarrow> Inl (Le_Transaction (Te_Invalid reason)))))"

definition ledger_apply_post_block_update ::
  "('st, 'tx, 'vt, 'k) mn_ledger \<Rightarrow> 'st Ledger \<Rightarrow> BlockContext \<Rightarrow> 'st Ledger option" where
  "ledger_apply_post_block_update lib l bc =
    (case clamp_and_normalize lib (block_fullness l) (block_limits lib (state l)) of
       None \<Rightarrow> None
     | Some normalized_fullness \<Rightarrow>
         Some (ledger_new (apply_update lib (state l) (tblock bc) normalized_fullness
           (compute_overall_fullness normalized_fullness))))"

definition ledger_apply_system_tx ::
  "('st, 'tx, 'vt, 'k) mn_ledger \<Rightarrow> 'st Ledger \<Rightarrow> SystemTransaction \<Rightarrow> u64 \<Rightarrow> (LedgerApiError, 'st Ledger) result" where
  "ledger_apply_system_tx lib l tx tb =
    (let next_block_fullness = cost_add lib (system_cost lib tx (state l)) (block_fullness l) in
     case apply_system lib (state l) tx tb of
       Inl e \<Rightarrow> Inl (Le_Transaction (Te_SystemTransaction e))
     | Inr next_state \<Rightarrow>
         bind_result (prevalidate_post_block_update lib next_state next_block_fullness (block_limits lib next_state))
           (\<lambda>_. Inr \<lparr>state = next_state, block_fullness = next_block_fullness\<rparr>))"

section \<open>Lemmas\<close>

lemma memo_never_active [simp]: "\<not> memo_active MEMO_NEVER_ACTIVE"
  by (simp add: memo_active_def MEMO_NEVER_ACTIVE_def)

lemma cost_is_zero_iff: "cost_is_zero c \<longleftrightarrow> c = cost_zero"
  by (cases c) (auto simp: cost_is_zero_def cost_zero_def)

text \<open>
  Documented of the library: a cost normalizes exactly when no dimension
  exceeds its limit.
\<close>

definition cost_le :: "SyntheticCost \<Rightarrow> SyntheticCost \<Rightarrow> bool" where
  "cost_le c l \<longleftrightarrow> read_time c \<le> read_time l \<and> compute_time c \<le> compute_time l \<and> block_usage c \<le> block_usage l
     \<and> bytes_written c \<le> bytes_written l \<and> bytes_churned c \<le> bytes_churned l"

definition normalizes :: "('st, 'tx, 'vt, 'k) mn_ledger \<Rightarrow> bool" where
  "normalizes lib \<longleftrightarrow> (\<forall>c l. normalize lib c l \<noteq> None \<longleftrightarrow> cost_le c l)"

lemma clamp_le: "cost_le (clamp c l) l"
  by (simp add: cost_le_def clamp_def)

lemma clamp_id: "cost_le c l \<Longrightarrow> clamp c l = c"
  by (cases c) (simp add: cost_le_def clamp_def min_def)

lemma post_block_update_total:
  "normalizes lib \<Longrightarrow> \<exists>l'. ledger_apply_post_block_update lib l bc = Some l'"
  using clamp_le [of "block_fullness l" "block_limits lib (state l)"]
  by (auto simp: ledger_apply_post_block_update_def clamp_and_normalize_def normalizes_def split: option.split)

lemma prevalidate_within_limits:
  assumes "prevalidate_post_block_update lib st c l = Inr ()" "normalizes lib"
  shows "cost_le c l"
proof -
  have "normalize lib c l \<noteq> None"
    using assms(1) by (auto simp: prevalidate_post_block_update_def split: option.splits)
  with assms(2) show ?thesis
    by (simp only: normalizes_def)
qed

lemma apply_verified_fullness:
  assumes "apply_verified_transaction lib l tx vt ctx = Inr (l', stage)" "normalizes lib"
  shows "cost_le (block_fullness l') (block_limits lib (state l))"
  using assms
  by (auto simp: apply_verified_transaction_def Let_def bind_result_Inr_iff dest: prevalidate_within_limits
      split: option.splits prod.splits TransactionResult.splits)

lemma apply_system_fullness:
  assumes "ledger_apply_system_tx lib l tx tb = Inr l'" "normalizes lib"
  shows "cost_le (block_fullness l') (block_limits lib (state l'))"
  using assms
  by (auto simp: ledger_apply_system_tx_def Let_def bind_result_Inr_iff dest: prevalidate_within_limits
      split: sum.splits)

end
