(* ===== verification/Ledger_Bridge.thy ===== *)
theory Ledger_Bridge
  imports Ledger_State
begin

text \<open>
  The host side of the ledger (\<open>ledger/src/versions/common/mod.rs\<close> and
  \<open>ledger/src/host_api/ledger_9.rs\<close>): decoding with the memo activation gate,
  validation with its two caches, application of transactions and system
  transactions, and the construction of system transactions.

  The state of the host is the record \<open>host\<close>: the arena that holds persisted
  ledgers, the two process-wide validation caches, and the network id and
  ordering overrides that are set once.  Every host function is a computation
  on that state which keeps its effects when it fails.  Logging and metrics are
  left out, and so is the expiry of cache entries, which is a step of its own.
\<close>

section \<open>State\<close>

record StrictTxValidationKey =
  key_state_hash :: hash
  key_tx_hash :: hash
  key_tblock :: u64

record ('st, 'vt, 'k) host =
  arena :: "'k \<Rightarrow> 'st Ledger option"
  strict_cache :: "StrictTxValidationKey \<Rightarrow> 'vt option"
  soft_cache :: "hash \<Rightarrow> (LedgerApiError, unit) result option"
  NETWORK_ID :: "string option"
  OVERRIDES :: "(hash \<Rightarrow> UtxoOrdering option) option"

record TransactionAppliedStateRoot =
  state_root :: "u8 list"
  tx_hash :: hash
  all_applied :: bool
  call_addresses :: "u8 list list"
  deploy_addresses :: "u8 list list"
  maintain_addresses :: "u8 list list"
  claim_rewards :: "u128 list"
  unshielded_utxos_created :: "UtxoInfo list"
  unshielded_utxos_spent :: "UtxoInfo list"

record SystemTransactionAppliedStateRoot =
  system_state_root :: "u8 list"
  system_tx_hash :: hash
  system_tx_type :: string

section \<open>Decoding and the activation gate\<close>

definition decode_transaction ::
  "('st, 'tx, 'vt, 'k) mn_ledger \<Rightarrow> u8 list \<Rightarrow> ConsensusContext \<Rightarrow> (LedgerApiError, 'tx) result" where
  "decode_transaction lib tx_serialized consensus =
    bind_result (decode_versioned lib tx_serialized) (\<lambda>(tx, era).
      if era = MemoCapable \<and> \<not> memo_active consensus then Inl Le_TransactionVersionNotActive else Inr tx)"

section \<open>The arena\<close>

definition get_ledger ::
  "('st, 'tx, 'vt, 'k) mn_ledger \<Rightarrow> u8 list \<Rightarrow> ('st, 'vt, 'k) host \<Rightarrow> (LedgerApiError, 'st Ledger) result" where
  "get_ledger lib state_key h =
    (case decode_key lib state_key of
       None \<Rightarrow> Inl (Le_Deserialization De_TypedArenaKey)
     | Some k \<Rightarrow> ok_or Le_NoLedgerState (arena h k))"

definition serialize_root :: "('st, 'tx, 'vt, 'k) mn_ledger \<Rightarrow> 'st Ledger \<Rightarrow> (LedgerApiError, u8 list) result" where
  "serialize_root lib l = ok_or (Le_Serialization Se_TypedArenaKey) (encode_key lib (key_of lib l))"

definition persist :: "('st, 'tx, 'vt, 'k) mn_ledger \<Rightarrow> 'st Ledger \<Rightarrow> ('st, 'vt, 'k) host \<Rightarrow> ('st, 'vt, 'k) host" where
  "persist lib l h = h\<lparr>arena := (arena h)(key_of lib l \<mapsto> l)\<rparr>"

section \<open>The ordering overrides, set once\<close>

definition set_network_id :: "string \<Rightarrow> ('st, 'vt, 'k) host \<Rightarrow> ('st, 'vt, 'k) host" where
  "set_network_id n h = (case NETWORK_ID h of None \<Rightarrow> h\<lparr>NETWORK_ID := Some n\<rparr> | Some _ \<Rightarrow> h)"

definition get_override ::
  "('st, 'tx, 'vt, 'k) mn_ledger \<Rightarrow> hash \<Rightarrow> (('st, 'vt, 'k) host, LedgerApiError, UtxoOrdering option) st_result" where
  "get_override lib txh h =
    (let m = (case OVERRIDES h of Some m \<Rightarrow> m | None \<Rightarrow> load_overrides (overrides lib) (NETWORK_ID h))
     in (Inr (m txh), h\<lparr>OVERRIDES := Some m\<rparr>))"

section \<open>Verification and its caches\<close>

fun word_bytes :: "nat \<Rightarrow> 'a::len word \<Rightarrow> u8 list" where
  "word_bytes 0 w = []"
| "word_bytes (Suc n) w = ucast w # word_bytes n (drop_bit 8 w)"

definition u32_to_le_bytes :: "u32 \<Rightarrow> u8 list" where
  "u32_to_le_bytes v = word_bytes 4 v"

definition wrapped_hash :: "u8 list \<Rightarrow> hash" where
  "wrapped_hash value128 = value128 @ replicate 16 0"

definition tx_validation_cache_key :: "('st, 'tx, 'vt, 'k) mn_ledger \<Rightarrow> u32 \<Rightarrow> u8 list \<Rightarrow> hash" where
  "tx_validation_cache_key lib runtime_version tx_serialized =
    wrapped_hash (twox128 lib (u32_to_le_bytes runtime_version @ tx_serialized))"

definition strict_key :: "('st, 'tx, 'vt, 'k) mn_ledger \<Rightarrow> 'st Ledger \<Rightarrow> BlockContext \<Rightarrow> hash \<Rightarrow> StrictTxValidationKey" where
  "strict_key lib l bc txh =
    \<lparr>key_state_hash = state_hash lib (state l), key_tx_hash = txh, key_tblock = tblock bc\<rparr>"

definition well_formed_tblock ::
  "('st, 'tx, 'vt, 'k) mn_ledger \<Rightarrow> 'st Ledger \<Rightarrow> BlockContext \<Rightarrow> TBlockCorrection option \<Rightarrow> u64" where
  "well_formed_tblock lib l bc correction =
    (case correction of
       Some tc \<Rightarrow>
         (if tblock bc < disable_after tc \<and> is_block_start l
          then case parent_block_time bc of
              Some t \<Rightarrow> timestamp_add lib t (offset tc)
            | None \<Rightarrow> tblock bc
          else tblock bc)
     | None \<Rightarrow> tblock bc)"

definition get_verified_transaction ::
  "('st, 'tx, 'vt, 'k) mn_ledger \<Rightarrow> 'st Ledger \<Rightarrow> 'tx \<Rightarrow> BlockContext \<Rightarrow> hash \<Rightarrow> TBlockCorrection option
    \<Rightarrow> (('st, 'vt, 'k) host, LedgerApiError, 'vt) st_result" where
  "get_verified_transaction lib l tx bc txh correction h =
    (case strict_cache h (strict_key lib l bc txh) of
       Some vt \<Rightarrow> (Inr vt, h)
     | None \<Rightarrow>
        (case get_transaction_context l bc of
           Inl e \<Rightarrow> (Inl e, h)
         | Inr ctx \<Rightarrow>
            (case well_formed lib tx (ref_state ctx) (well_formed_tblock lib l bc correction) of
               Inl e \<Rightarrow> (Inl (Le_Transaction (Te_Malformed e)), h)
             | Inr vt \<Rightarrow> (Inr vt, h\<lparr>strict_cache := (strict_cache h)(strict_key lib l bc txh \<mapsto> vt)\<rparr>))))"

definition dry_run ::
  "('st, 'tx, 'vt, 'k) mn_ledger \<Rightarrow> 'st Ledger \<Rightarrow> 'vt \<Rightarrow> BlockContext \<Rightarrow> (LedgerApiError, unit) result" where
  "dry_run lib l vt bc =
    bind_result (get_transaction_context l bc) (\<lambda>ctx.
      case apply_guaranteed_only lib (state l) vt ctx of
        Inr _ \<Rightarrow> Inr ()
      | Inl reason \<Rightarrow> Inl (Le_Transaction (Te_Invalid reason)))"

definition do_validate_transaction ::
  "('st, 'tx, 'vt, 'k) mn_ledger \<Rightarrow> 'st Ledger \<Rightarrow> 'tx \<Rightarrow> BlockContext \<Rightarrow> hash
    \<Rightarrow> (('st, 'vt, 'k) host, LedgerApiError, bool) st_result" where
  "do_validate_transaction lib l tx bc txh h =
    (case soft_cache h txh of
       Some (Inr _) \<Rightarrow> (Inr True, h)
     | Some (Inl e) \<Rightarrow> (Inl e, h)
     | None \<Rightarrow>
         st_bind (get_verified_transaction lib l tx bc txh None) (\<lambda>vt.
         st_bind (st_lift (dry_run lib l vt bc)) (\<lambda>_.
         st_bind (st_modify (\<lambda>h. h\<lparr>soft_cache := (soft_cache h)(txh \<mapsto> Inr ())\<rparr>)) (\<lambda>_.
         st_return False))) h)"

definition do_validate_guaranteed_execution ::
  "('st, 'tx, 'vt, 'k) mn_ledger \<Rightarrow> 'st Ledger \<Rightarrow> 'tx \<Rightarrow> BlockContext \<Rightarrow> hash \<Rightarrow> TBlockCorrection option
    \<Rightarrow> (('st, 'vt, 'k) host, LedgerApiError, bool) st_result" where
  "do_validate_guaranteed_execution lib l tx bc txh correction =
    st_bind (st_modify (\<lambda>h. h\<lparr>soft_cache := (soft_cache h)(txh := None)\<rparr>)) (\<lambda>_.
    st_bind (st_read (\<lambda>h. Inr (strict_cache h (strict_key lib l bc txh) \<noteq> None))) (\<lambda>was_cached.
    st_bind (get_verified_transaction lib l tx bc txh correction) (\<lambda>vt.
    st_bind (st_lift (dry_run lib l vt bc)) (\<lambda>_.
    st_return was_cached))))"

section \<open>Cost\<close>

definition scale_normalized_cost :: "('st, 'tx, 'vt, 'k) mn_ledger \<Rightarrow> NormalizedCost \<Rightarrow> u64 \<Rightarrow> u64" where
  "scale_normalized_cost lib n max_weight =
    (let max_fp = Max {norm_read_time n, norm_compute_time n, norm_block_usage n,
           norm_bytes_written n, norm_bytes_churned n}
     in ucast (min (into_atomic_units lib max_fp (ucast max_weight)) (ucast max_weight)))"

definition get_transaction_cost ::
  "('st, 'tx, 'vt, 'k) mn_ledger \<Rightarrow> u8 list \<Rightarrow> u8 list \<Rightarrow> ConsensusContext \<Rightarrow> u64
    \<Rightarrow> (('st, 'vt, 'k) host, LedgerApiError, u64) st_result" where
  "get_transaction_cost lib state_key tx_serialized consensus max_weight =
    st_bind (st_lift (decode_transaction lib tx_serialized consensus)) (\<lambda>tx.
    st_bind (st_read (get_ledger lib state_key)) (\<lambda>l.
    st_bind (st_lift (ok_or Le_FeeCalculationError (tx_cost lib tx (state l)))) (\<lambda>cost.
    st_bind (st_lift (ok_or Le_BlockLimitExceededError (normalize lib cost (block_limits lib (state l))))) (\<lambda>normalized.
    st_return (scale_normalized_cost lib normalized max_weight)))))"

section \<open>Applying a transaction\<close>

definition add_address ::
  "('st, 'tx, 'vt, 'k) mn_ledger \<Rightarrow> hash
    \<Rightarrow> (u8 list \<Rightarrow> TransactionAppliedStateRoot) \<Rightarrow> (LedgerApiError, TransactionAppliedStateRoot) result" where
  "add_address lib addr f = bind_result (ok_or (Le_Serialization Se_ContractAddress) (serialize_address lib addr)) (\<lambda>a. Inr (f a))"

definition add_operation ::
  "('st, 'tx, 'vt, 'k) mn_ledger \<Rightarrow> Operation \<Rightarrow> TransactionAppliedStateRoot
    \<Rightarrow> (LedgerApiError, TransactionAppliedStateRoot) result" where
  "add_operation lib op ev =
    (case op of
       Call addr _ \<Rightarrow> add_address lib addr (\<lambda>a. ev\<lparr>call_addresses := call_addresses ev @ [a]\<rparr>)
     | Deploy addr \<Rightarrow> add_address lib addr (\<lambda>a. ev\<lparr>deploy_addresses := deploy_addresses ev @ [a]\<rparr>)
     | Maintain addr \<Rightarrow> add_address lib addr (\<lambda>a. ev\<lparr>maintain_addresses := maintain_addresses ev @ [a]\<rparr>)
     | ClaimRewards v \<Rightarrow> Inr (ev\<lparr>claim_rewards := claim_rewards ev @ [v]\<rparr>)
     | ClaimBridgeTransfer v \<Rightarrow> Inr (ev\<lparr>claim_rewards := claim_rewards ev @ [v]\<rparr>))"

fun add_operations ::
  "('st, 'tx, 'vt, 'k) mn_ledger \<Rightarrow> Operation list \<Rightarrow> TransactionAppliedStateRoot
    \<Rightarrow> (LedgerApiError, TransactionAppliedStateRoot) result" where
  "add_operations lib [] ev = Inr ev"
| "add_operations lib (op # ops) ev = bind_result (add_operation lib op ev) (add_operations lib ops)"

text \<open>
  The part of \<open>apply_transaction\<close> after the ledger's verdict: the report of the
  applied stage, and the new ledger persisted only when nothing failed.
\<close>

definition report_application ::
  "('st, 'tx, 'vt, 'k) mn_ledger \<Rightarrow> 'tx \<Rightarrow> bool \<Rightarrow> 'st Ledger \<Rightarrow> 'st Ledger \<Rightarrow> AppliedStage
    \<Rightarrow> (('st, 'vt, 'k) host, LedgerApiError, TransactionAppliedStateRoot) st_result" where
  "report_application lib tx skip_failed_segments l new_l stage =
    (let all_utxos = unshielded_utxos (claims lib) (tx_view lib tx);
         (utxos, failed_segments) =
           (case stage of
              StagePartial segs \<Rightarrow> (remove_failed_segments segs all_utxos, Some (map fst segs))
            | AllApplied \<Rightarrow> (all_utxos, None));
         operations = calls_and_deploys (tx_view lib tx) (if skip_failed_segments then failed_segments else None)
     in
     st_bind (st_lift (check_utxos_response_integrity utxos (card (state_utxos lib (state l))) (state_utxos lib (state new_l)))) (\<lambda>(outs, ins).
     st_bind (get_override lib (transaction_hash lib tx)) (\<lambda>override.
     let (outs', ins') = (case override of
            Some ord \<Rightarrow> ordering_apply ord outs (length (outputs utxos)) ins (length (inputs utxos))
          | None \<Rightarrow> (outs, ins))
     in
     st_bind (st_lift (serialize_root lib new_l)) (\<lambda>root.
     st_bind (st_lift (add_operations lib operations
       \<lparr>state_root = root, tx_hash = transaction_hash lib tx, all_applied = (stage = AllApplied),
        call_addresses = [], deploy_addresses = [], maintain_addresses = [], claim_rewards = [],
        unshielded_utxos_created = outs', unshielded_utxos_spent = ins'\<rparr>)) (\<lambda>event.
     st_bind (st_modify (persist lib new_l)) (\<lambda>_.
     st_return event))))))"

definition apply_transaction ::
  "('st, 'tx, 'vt, 'k) mn_ledger \<Rightarrow> TBlockCorrection option \<Rightarrow> u8 list \<Rightarrow> u8 list \<Rightarrow> BlockContext \<Rightarrow> ConsensusContext
    \<Rightarrow> bool \<Rightarrow> u32 \<Rightarrow> (('st, 'vt, 'k) host, LedgerApiError, TransactionAppliedStateRoot) st_result" where
  "apply_transaction lib correction state_key tx_serialized bc consensus skip_failed_segments runtime_version =
    st_bind (st_lift (decode_transaction lib tx_serialized consensus)) (\<lambda>tx.
    st_bind (st_read (get_ledger lib state_key)) (\<lambda>l.
    st_bind (st_modify (set_network_id (state_network_id lib (state l)))) (\<lambda>_.
    st_bind (get_verified_transaction lib l tx bc
      (tx_validation_cache_key lib runtime_version tx_serialized) correction) (\<lambda>vt.
    st_bind (st_lift (get_transaction_context l bc)) (\<lambda>ctx.
    st_bind (st_lift (apply_verified_transaction lib l tx vt ctx)) (\<lambda>(new_l, stage).
    report_application lib tx skip_failed_segments l new_l stage))))))"

definition validate_transaction ::
  "('st, 'tx, 'vt, 'k) mn_ledger \<Rightarrow> u8 list \<Rightarrow> u8 list \<Rightarrow> BlockContext \<Rightarrow> ConsensusContext \<Rightarrow> u32
    \<Rightarrow> (('st, 'vt, 'k) host, LedgerApiError, hash) st_result" where
  "validate_transaction lib state_key tx_serialized bc consensus runtime_version =
    st_bind (st_lift (decode_transaction lib tx_serialized consensus)) (\<lambda>tx.
    st_bind (st_read (get_ledger lib state_key)) (\<lambda>l.
    st_bind (do_validate_transaction lib l tx bc (tx_validation_cache_key lib runtime_version tx_serialized)) (\<lambda>_.
    st_return (tx_validation_cache_key lib runtime_version tx_serialized))))"

definition validate_guaranteed_execution ::
  "('st, 'tx, 'vt, 'k) mn_ledger \<Rightarrow> TBlockCorrection option \<Rightarrow> u8 list \<Rightarrow> u8 list \<Rightarrow> BlockContext \<Rightarrow> ConsensusContext
    \<Rightarrow> u32 \<Rightarrow> (('st, 'vt, 'k) host, LedgerApiError, unit) st_result" where
  "validate_guaranteed_execution lib correction state_key tx_serialized bc consensus runtime_version =
    st_bind (st_lift (decode_transaction lib tx_serialized consensus)) (\<lambda>tx.
    st_bind (st_read (get_ledger lib state_key)) (\<lambda>l.
    st_bind (do_validate_guaranteed_execution lib l tx bc
      (tx_validation_cache_key lib runtime_version tx_serialized) correction) (\<lambda>_.
    st_return ())))"

section \<open>System transactions and the end of a block\<close>

definition get_system_tx_type :: "SystemTransaction \<Rightarrow> (LedgerApiError, string) result" where
  "get_system_tx_type tx =
    (case tx of
       OverwriteParameters _ \<Rightarrow> Inr ''overwrite_parameters''
     | DistributeNight kind _ \<Rightarrow>
         (case kind of
            Reward \<Rightarrow> Inr ''distribute_night_reward''
          | CardanoBridge \<Rightarrow> Inr ''distribute_night_cardano_bridge'')
     | PayBlockRewardsToTreasury _ \<Rightarrow> Inr ''pay_block_rewards_to_treasury''
     | PayFromTreasuryShielded _ \<Rightarrow> Inr ''pay_from_treasury_shielded''
     | PayFromTreasuryUnshielded _ \<Rightarrow> Inr ''pay_from_treasury_unshielded''
     | DistributeReserve _ \<Rightarrow> Inr ''distribute_reserve''
     | UnlockToTreasury _ \<Rightarrow> Inr ''unlock_to_treasury''
     | CNightGeneratesDustUpdate _ \<Rightarrow> Inr ''cnight_generates_dust_update''
     | OtherSystemTransaction _ \<Rightarrow> Inl (Le_Transaction (Te_SystemTransaction Ste_UnknownError)))"

definition apply_system_transaction ::
  "('st, 'tx, 'vt, 'k) mn_ledger \<Rightarrow> u8 list \<Rightarrow> u8 list \<Rightarrow> BlockContext
    \<Rightarrow> (('st, 'vt, 'k) host, LedgerApiError, SystemTransactionAppliedStateRoot) st_result" where
  "apply_system_transaction lib state_key tx_serialized bc =
    st_bind (st_lift (ok_or (Le_Deserialization De_SystemTransaction) (deserialize_system lib tx_serialized))) (\<lambda>tx.
    st_bind (st_lift (get_system_tx_type tx)) (\<lambda>tx_type.
    st_bind (st_read (get_ledger lib state_key)) (\<lambda>l.
    st_bind (st_lift (ledger_apply_system_tx lib l tx (tblock bc))) (\<lambda>new_l.
    st_bind (st_lift (serialize_root lib new_l)) (\<lambda>root.
    st_bind (st_modify (persist lib new_l)) (\<lambda>_.
    st_return \<lparr>system_state_root = root, system_tx_hash = system_hash lib tx, system_tx_type = tx_type\<rparr>))))))"

text \<open>\<open>None\<close> is the panic of \<open>clamp_and_normalize\<close>.\<close>

definition apply_post_block_update ::
  "('st, 'tx, 'vt, 'k) mn_ledger \<Rightarrow> u8 list \<Rightarrow> BlockContext \<Rightarrow> ('st, 'vt, 'k) host
    \<Rightarrow> ((LedgerApiError, u8 list) result \<times> ('st, 'vt, 'k) host) option" where
  "apply_post_block_update lib state_key bc h =
    (case get_ledger lib state_key h of
       Inl e \<Rightarrow> Some (Inl e, h)
     | Inr l \<Rightarrow>
        (case ledger_apply_post_block_update lib l bc of
           None \<Rightarrow> None
         | Some new_l \<Rightarrow>
             Some (st_bind (st_lift (serialize_root lib new_l)) (\<lambda>root.
               st_bind (st_modify (persist lib new_l)) (\<lambda>_. st_return root)) h)))"

section \<open>Constructing system transactions\<close>

definition night_address :: "u8 list \<Rightarrow> (LedgerApiError, hash) result" where
  "night_address bytes = (if length bytes = 32 then Inr bytes else Inl (Le_Deserialization De_UserAddress))"

definition tagged_system :: "('st, 'tx, 'vt, 'k) mn_ledger \<Rightarrow> SystemTransaction \<Rightarrow> (LedgerApiError, u8 list) result" where
  "tagged_system lib tx = ok_or (Le_Serialization Se_SystemTransaction) (serialize_system lib tx)"

definition construct_cnight_generates_dust_event ::
  "('st, 'tx, 'vt, 'k) mn_ledger \<Rightarrow> u128 \<Rightarrow> u8 list \<Rightarrow> u64 \<Rightarrow> u8 \<Rightarrow> u8 list \<Rightarrow> (LedgerApiError, u8 list) result" where
  "construct_cnight_generates_dust_event lib val owner time action nonce =
    bind_result (ok_or (Le_Deserialization De_DustPublicKey) (deserialize_dust_key lib owner)) (\<lambda>key.
    bind_result (if action = 0 then Inr True else if action = 1 then Inr False
      else Inl (Le_Deserialization De_CNightGeneratesDustActionType)) (\<lambda>create.
    ok_or (Le_Serialization Se_CNightGeneratesDustEvent) (serialize_event lib
      \<lparr>event_value = val, event_owner = key, event_time = time, event_create = create, event_nonce = nonce\<rparr>)))"

definition is_governance_allowed_system_tx :: "('st, 'tx, 'vt, 'k) mn_ledger \<Rightarrow> u8 list \<Rightarrow> bool" where
  "is_governance_allowed_system_tx lib tx_serialized =
    (case deserialize_system lib tx_serialized of Some (OverwriteParameters _) \<Rightarrow> True | _ \<Rightarrow> False)"

definition construct_cnight_generates_dust_system_tx ::
  "('st, 'tx, 'vt, 'k) mn_ledger \<Rightarrow> u8 list list \<Rightarrow> (LedgerApiError, u8 list) result" where
  "construct_cnight_generates_dust_system_tx lib events =
    bind_result (ok_or (Le_Deserialization De_CNightGeneratesDustEvent) (those (map (deserialize_event lib) events)))
      (\<lambda>evs. tagged_system lib (CNightGeneratesDustUpdate evs))"

definition construct_distribute_night_cardano_bridge_system_tx ::
  "('st, 'tx, 'vt, 'k) mn_ledger \<Rightarrow> u128 \<Rightarrow> u8 list \<Rightarrow> u8 list \<Rightarrow> (LedgerApiError, u8 list) result" where
  "construct_distribute_night_cardano_bridge_system_tx lib amount target nonce =
    bind_result (night_address target) (\<lambda>address.
      tagged_system lib (DistributeNight CardanoBridge
        [\<lparr>instruction_amount = amount, instruction_target = address, instruction_nonce = nonce\<rparr>]))"

definition construct_distribute_reserve_system_tx ::
  "('st, 'tx, 'vt, 'k) mn_ledger \<Rightarrow> u128 \<Rightarrow> (LedgerApiError, u8 list) result" where
  "construct_distribute_reserve_system_tx lib amount = tagged_system lib (DistributeReserve amount)"

definition construct_unlock_to_treasury_system_tx ::
  "('st, 'tx, 'vt, 'k) mn_ledger \<Rightarrow> u128 \<Rightarrow> (LedgerApiError, u8 list) result" where
  "construct_unlock_to_treasury_system_tx lib amount = tagged_system lib (UnlockToTreasury amount)"

definition get_c_to_m_bridge_min_amount ::
  "('st, 'tx, 'vt, 'k) mn_ledger \<Rightarrow> u8 list \<Rightarrow> ('st, 'vt, 'k) host \<Rightarrow> (LedgerApiError, u128) result" where
  "get_c_to_m_bridge_min_amount lib state_key h =
    bind_result (get_ledger lib state_key h) (\<lambda>l. Inr (bridge_min_amount lib (state l)))"

section \<open>The host functions\<close>

text \<open>
  The first version of each transaction host function, which historical
  runtimes call, and the second, which carries the consensus context.
\<close>

definition apply_transaction_v1 where
  "apply_transaction_v1 lib correction state_key tx bc rv =
    apply_transaction lib correction state_key tx bc MEMO_NEVER_ACTIVE True rv"

definition apply_transaction_v2 where
  "apply_transaction_v2 lib correction state_key tx bc consensus rv =
    apply_transaction lib correction state_key tx bc consensus True rv"

definition validate_transaction_v1 where
  "validate_transaction_v1 lib state_key tx bc rv = validate_transaction lib state_key tx bc MEMO_NEVER_ACTIVE rv"

definition validate_guaranteed_execution_v1 where
  "validate_guaranteed_execution_v1 lib correction state_key tx bc rv =
    validate_guaranteed_execution lib correction state_key tx bc MEMO_NEVER_ACTIVE rv"

definition get_transaction_cost_v1 where
  "get_transaction_cost_v1 lib state_key tx max_weight =
    get_transaction_cost lib state_key tx MEMO_NEVER_ACTIVE max_weight"

section \<open>Lemmas\<close>

lemma length_word_bytes [simp]: "length (word_bytes n w) = n"
  by (induction n w rule: word_bytes.induct) simp_all

lemma length_u32_to_le_bytes [simp]: "length (u32_to_le_bytes v) = 4"
  by (simp add: u32_to_le_bytes_def)

text \<open>A transaction in the memo-capable encoding.\<close>

definition memo_encoded :: "('st, 'tx, 'vt, 'k) mn_ledger \<Rightarrow> u8 list \<Rightarrow> bool" where
  "memo_encoded lib bytes = (case versioned_deserialize lib bytes of Some (False, _) \<Rightarrow> True | _ \<Rightarrow> False)"

definition memo_always_active :: ConsensusContext where
  "memo_always_active = \<lparr>block_height = 0, memo_activation_height = 0\<rparr>"

lemma decode_transaction_gate:
  "decode_transaction lib bytes c =
    (if memo_encoded lib bytes \<and> \<not> memo_active c then Inl Le_TransactionVersionNotActive
     else decode_transaction lib bytes memo_always_active)"
  by (auto simp: decode_transaction_def decode_versioned_def memo_encoded_def memo_always_active_def memo_active_def
      split: option.splits prod.splits bool.splits)

lemma set_network_id_fields [simp]:
  "arena (set_network_id n h) = arena h" "strict_cache (set_network_id n h) = strict_cache h"
  by (simp_all add: set_network_id_def split: option.split)

text \<open>A cached verification changes nothing but the strict cache.\<close>

lemma get_verified_transaction_frame:
  "snd (get_verified_transaction lib l tx bc txh cor h) = h
   \<or> (\<exists>vt. snd (get_verified_transaction lib l tx bc txh cor h)
        = h\<lparr>strict_cache := (strict_cache h)(strict_key lib l bc txh \<mapsto> vt)\<rparr>
      \<and> well_formed lib tx (state l) (well_formed_tblock lib l bc cor) = Inr vt)"
  by (auto simp: get_verified_transaction_def get_transaction_context_def split: option.splits sum.splits if_splits)

lemma get_verified_transaction_arena:
  "get_verified_transaction lib l tx bc txh cor h = (r, h') \<Longrightarrow> arena h' = arena h"
  using get_verified_transaction_frame [of lib l tx bc txh cor h] by auto

lemma report_application_strict:
  "report_application lib tx skip l new_l stage (h\<lparr>strict_cache := c\<rparr>)
    = map_prod id (\<lambda>h. h\<lparr>strict_cache := c\<rparr>) (report_application lib tx skip l new_l stage h)"
proof -
  have override: "get_override lib txh (h\<lparr>strict_cache := c\<rparr>) = map_prod id (\<lambda>h. h\<lparr>strict_cache := c\<rparr>) (get_override lib txh h)"
    for txh h
    by (cases "OVERRIDES h") (simp_all add: get_override_def Let_def)
  have persist: "persist lib new_l (h\<lparr>strict_cache := c\<rparr>) = (persist lib new_l h)\<lparr>strict_cache := c\<rparr>" for h
    by (simp add: persist_def)
  show ?thesis
    unfolding report_application_def Let_def
    by (simp add: st_bind_def override persist split: prod.splits sum.splits)
qed

lemma report_application_keeps_strict:
  "strict_cache (snd (report_application lib tx skip l new_l stage h)) = strict_cache h"
proof -
  have "report_application lib tx skip l new_l stage (h\<lparr>strict_cache := strict_cache h\<rparr>)
      = map_prod id (\<lambda>h'. h'\<lparr>strict_cache := strict_cache h\<rparr>) (report_application lib tx skip l new_l stage h)"
    by (rule report_application_strict)
  then have "snd (report_application lib tx skip l new_l stage h)
      = (snd (report_application lib tx skip l new_l stage h))\<lparr>strict_cache := strict_cache h\<rparr>"
    by (metis snd_map_prod host.surjective host.update_convs(2))
  then show ?thesis
    by (metis host.select_convs(2) host.surjective host.update_convs(2))
qed

section \<open>The strict cache\<close>

text \<open>
  What the cache's keys rely on: among the transactions and ledger states that
  occur, the hashes that make up a key do not collide.
\<close>

record ('st, 'tx, 'vt, 'k) bridge_env =
  be_lib :: "('st, 'tx, 'vt, 'k) mn_ledger"
  be_txs :: "u8 list set"
  be_states :: "'st set"

definition collision_free :: "('st, 'tx, 'vt, 'k) bridge_env \<Rightarrow> bool" where
  "collision_free v \<longleftrightarrow>
    inj_on (twox128 (be_lib v)) {u32_to_le_bytes rv @ b | rv b. b \<in> be_txs v}
    \<and> inj_on (state_hash (be_lib v)) (be_states v)"

text \<open>No correction of the block time applies, as for every block from \<open>disable_after\<close> on.\<close>

definition uncorrected :: "TBlockCorrection option \<Rightarrow> BlockContext \<Rightarrow> bool" where
  "uncorrected cor bc \<longleftrightarrow> (case cor of Some tc \<Rightarrow> disable_after tc \<le> tblock bc | None \<Rightarrow> True)"

definition call_ok ::
  "('st, 'tx, 'vt, 'k) bridge_env \<Rightarrow> TBlockCorrection option \<Rightarrow> BlockContext \<Rightarrow> u8 list \<Rightarrow> u8 list \<Rightarrow> ('st, 'vt, 'k) host \<Rightarrow> bool" where
  "call_ok v cor bc state_key bytes h \<longleftrightarrow> bytes \<in> be_txs v \<and> uncorrected cor bc
    \<and> (\<forall>l. get_ledger (be_lib v) state_key h = Inr l \<longrightarrow> state l \<in> be_states v)"

definition strict_entry_ok :: "('st, 'tx, 'vt, 'k) bridge_env \<Rightarrow> StrictTxValidationKey \<Rightarrow> 'vt \<Rightarrow> bool" where
  "strict_entry_ok v k vt \<longleftrightarrow> (\<exists>st \<in> be_states v. \<exists>b \<in> be_txs v. \<exists>rv tx era.
     key_state_hash k = state_hash (be_lib v) st \<and> key_tx_hash k = tx_validation_cache_key (be_lib v) rv b
     \<and> decode_versioned (be_lib v) b = Inr (tx, era) \<and> well_formed (be_lib v) tx st (key_tblock k) = Inr vt)"

definition strict_inv :: "('st, 'tx, 'vt, 'k) bridge_env \<Rightarrow> ('st, 'vt, 'k) host \<Rightarrow> bool" where
  "strict_inv v h \<longleftrightarrow> (\<forall>k vt. strict_cache h k = Some vt \<longrightarrow> strict_entry_ok v k vt)"

lemma strict_inv_cong: "strict_cache h' = strict_cache h \<Longrightarrow> strict_inv v h' = strict_inv v h"
  by (simp add: strict_inv_def)

lemma strict_inv_updates [simp]:
  "strict_inv v (h\<lparr>arena := a\<rparr>) = strict_inv v h" "strict_inv v (h\<lparr>soft_cache := s\<rparr>) = strict_inv v h"
  "strict_inv v (set_network_id n h) = strict_inv v h" "strict_inv v (persist lib l h) = strict_inv v h"
  by (auto simp: strict_inv_def set_network_id_def persist_def split: option.splits)

lemma well_formed_tblock_uncorrected: "uncorrected cor bc \<Longrightarrow> well_formed_tblock lib l bc cor = tblock bc"
  by (auto simp: well_formed_tblock_def uncorrected_def split: option.splits)

lemma get_ledger_updates [simp]:
  "get_ledger lib k (h\<lparr>strict_cache := c\<rparr>) = get_ledger lib k h" "get_ledger lib k (h\<lparr>soft_cache := s\<rparr>) = get_ledger lib k h"
  "get_ledger lib k (set_network_id n h) = get_ledger lib k h"
  by (simp_all add: get_ledger_def set_network_id_def split: option.splits)

lemma verification_keeps_inv:
  assumes "strict_inv v h" "uncorrected cor bc" "state l \<in> be_states v" "b \<in> be_txs v"
    and "decode_versioned (be_lib v) b = Inr (tx, era)"
  shows "strict_inv v (snd (get_verified_transaction (be_lib v) l tx bc (tx_validation_cache_key (be_lib v) rv b) cor h))"
  using get_verified_transaction_frame [of "be_lib v" l tx bc "tx_validation_cache_key (be_lib v) rv b" cor h]
proof (elim disjE exE conjE)
  fix vt
  assume upd: "snd (get_verified_transaction (be_lib v) l tx bc (tx_validation_cache_key (be_lib v) rv b) cor h)
      = h\<lparr>strict_cache := (strict_cache h)(strict_key (be_lib v) l bc (tx_validation_cache_key (be_lib v) rv b) \<mapsto> vt)\<rparr>"
    and wf: "well_formed (be_lib v) tx (state l) (well_formed_tblock (be_lib v) l bc cor) = Inr vt"
  have "strict_entry_ok v (strict_key (be_lib v) l bc (tx_validation_cache_key (be_lib v) rv b)) vt"
    unfolding strict_entry_ok_def
    using assms wf by (intro bexI [of _ "state l"] bexI [of _ b]) (auto simp: strict_key_def well_formed_tblock_uncorrected)
  with assms(1) show ?thesis
    unfolding upd by (auto simp: strict_inv_def)
qed (use assms(1) in simp)

lemma cache_key_inj:
  assumes "collision_free v" "b \<in> be_txs v" "b' \<in> be_txs v"
    and "tx_validation_cache_key (be_lib v) rv b = tx_validation_cache_key (be_lib v) rv' b'"
  shows "b = b'"
proof -
  have "u32_to_le_bytes rv @ b = u32_to_le_bytes rv' @ b'"
  proof (rule inj_onD)
    show "inj_on (twox128 (be_lib v)) {u32_to_le_bytes rv @ b | rv b. b \<in> be_txs v}"
      using assms(1) by (simp add: collision_free_def)
    show "twox128 (be_lib v) (u32_to_le_bytes rv @ b) = twox128 (be_lib v) (u32_to_le_bytes rv' @ b')"
      using assms(4) by (simp add: tx_validation_cache_key_def wrapped_hash_def)
  qed (use assms(2,3) in auto)
  then show ?thesis
    by (simp add: append_eq_append_conv)
qed

text \<open>Under the invariant, a verification gives what the library says of the transaction.\<close>

lemma verification_result:
  assumes "collision_free v" "strict_inv v h" "uncorrected cor bc" "state l \<in> be_states v" "b \<in> be_txs v"
    and "decode_versioned (be_lib v) b = Inr (tx, era)" "get_transaction_context l bc = Inr ctx"
  shows "fst (get_verified_transaction (be_lib v) l tx bc (tx_validation_cache_key (be_lib v) rv b) cor h) =
    (case well_formed (be_lib v) tx (state l) (tblock bc) of
       Inl e \<Rightarrow> Inl (Le_Transaction (Te_Malformed e)) | Inr vt \<Rightarrow> Inr vt)"
proof (cases "strict_cache h (strict_key (be_lib v) l bc (tx_validation_cache_key (be_lib v) rv b))")
  case None
  then show ?thesis
    using assms(3,7) by (auto simp: get_verified_transaction_def well_formed_tblock_uncorrected get_transaction_context_def
        split: sum.splits if_splits)
next
  case (Some vt)
  then obtain st b' rv' tx' era' where e: "st \<in> be_states v" "b' \<in> be_txs v"
    "state_hash (be_lib v) (state l) = state_hash (be_lib v) st"
    "tx_validation_cache_key (be_lib v) rv b = tx_validation_cache_key (be_lib v) rv' b'"
    "decode_versioned (be_lib v) b' = Inr (tx', era')" "well_formed (be_lib v) tx' st (tblock bc) = Inr vt"
    using assms(2) unfolding strict_inv_def strict_entry_ok_def by (fastforce simp: strict_key_def)
  have "state l = st"
    using assms(1,4) e(1,3) by (auto simp: collision_free_def inj_on_def)
  moreover have "b = b'"
    using cache_key_inj [OF assms(1,5) e(2) e(4)] .
  ultimately show ?thesis
    using e(5,6) assms(6) Some by (simp add: get_verified_transaction_def)
qed

text \<open>Two hosts that differ in the strict cache only, and both satisfy the invariant.\<close>

lemma get_verified_transaction_host:
  "get_verified_transaction lib l tx bc txh cor h = (r, h') \<Longrightarrow> h' = h\<lparr>strict_cache := strict_cache h'\<rparr>"
  using get_verified_transaction_frame [of lib l tx bc txh cor h] by auto

lemma set_network_id_strict: "set_network_id n (h\<lparr>strict_cache := c\<rparr>) = (set_network_id n h)\<lparr>strict_cache := c\<rparr>"
  by (simp add: set_network_id_def split: option.split)

text \<open>
  A computation that first verifies and then needs the transaction context, as
  \<open>apply_transaction\<close> and the dry run do.
\<close>

lemma verified_bind_transparent:
  assumes "collision_free v" "strict_inv v h" "strict_inv v (h\<lparr>strict_cache := c\<rparr>)"
    and "uncorrected cor bc" "state l \<in> be_states v" "b \<in> be_txs v"
    and "decode_versioned (be_lib v) b = Inr (tx, era)"
    and no_ctx: "\<And>vt h e. get_transaction_context l bc = Inl e \<Longrightarrow> fst (f vt h) = Inl e"
    and frame: "\<And>vt h c. fst (f vt (h\<lparr>strict_cache := c\<rparr>)) = fst (f vt h)"
  shows "fst (st_bind (get_verified_transaction (be_lib v) l tx bc (tx_validation_cache_key (be_lib v) rv b) cor) f
      (h\<lparr>strict_cache := c\<rparr>))
    = fst (st_bind (get_verified_transaction (be_lib v) l tx bc (tx_validation_cache_key (be_lib v) rv b) cor) f h)"
proof (cases "get_transaction_context l bc")
  case (Inl e)
  have "fst (st_bind (get_verified_transaction (be_lib v) l tx bc txh cor) f h) = Inl e" for txh h
    using no_ctx [OF Inl] by (auto simp: st_bind_def get_verified_transaction_def Inl split: option.split)
  then show ?thesis by simp
next
  case (Inr ctx)
  let ?gvt = "get_verified_transaction (be_lib v) l tx bc (tx_validation_cache_key (be_lib v) rv b) cor"
  obtain r h1 where g1: "?gvt h = (r, h1)" by fastforce
  obtain r' h2 where g2: "?gvt (h\<lparr>strict_cache := c\<rparr>) = (r', h2)" by fastforce
  have "r' = r"
    using verification_result [OF assms(1,2,4-7) Inr] verification_result [OF assms(1,3,4-7) Inr]
    by (metis fst_conv g1 g2)
  moreover have "fst (f vt h2) = fst (f vt h1)" for vt
  proof -
    have "h1 = h\<lparr>strict_cache := strict_cache h1\<rparr>" "h2 = h\<lparr>strict_cache := strict_cache h2\<rparr>"
      using get_verified_transaction_host [OF g1] get_verified_transaction_host [OF g2] by simp_all
    then show ?thesis by (metis frame)
  qed
  ultimately show ?thesis
    by (simp add: st_bind_def g1 g2 split: sum.split)
qed

lemma decode_transaction_Inr:
  "decode_transaction lib b c = Inr tx \<Longrightarrow> \<exists>era. decode_versioned lib b = Inr (tx, era)"
  by (auto simp: decode_transaction_def bind_result_Inr_iff split: if_splits)

text \<open>What follows the verification in \<open>apply_transaction\<close>, and the two entry points as a verification and what follows.\<close>

definition after_verification ::
  "('st, 'tx, 'vt, 'k) mn_ledger \<Rightarrow> 'tx \<Rightarrow> bool \<Rightarrow> 'st Ledger \<Rightarrow> BlockContext \<Rightarrow> 'vt
    \<Rightarrow> (('st, 'vt, 'k) host, LedgerApiError, TransactionAppliedStateRoot) st_result" where
  "after_verification lib tx skip l bc vt =
    st_bind (st_lift (get_transaction_context l bc)) (\<lambda>ctx.
    st_bind (st_lift (apply_verified_transaction lib l tx vt ctx)) (\<lambda>(new_l, stage).
    report_application lib tx skip l new_l stage))"

lemma after_verification_strict:
  "after_verification lib tx skip l bc vt (h\<lparr>strict_cache := c\<rparr>)
    = map_prod id (\<lambda>h. h\<lparr>strict_cache := c\<rparr>) (after_verification lib tx skip l bc vt h)"
  by (simp add: after_verification_def st_bind_def report_application_strict split: sum.split prod.split)

lemma after_verification_keeps_strict:
  "strict_cache (snd (after_verification lib tx skip l bc vt h)) = strict_cache h"
  by (simp add: after_verification_def st_bind_def report_application_keeps_strict split: sum.split prod.split)

lemma apply_transaction_run:
  "decode_transaction lib b cons = Inr tx \<Longrightarrow> get_ledger lib state_key h = Inr l \<Longrightarrow>
    apply_transaction lib cor state_key b bc cons skip rv h =
      st_bind (get_verified_transaction lib l tx bc (tx_validation_cache_key lib rv b) cor)
        (after_verification lib tx skip l bc) (set_network_id (state_network_id lib (state l)) h)"
  by (simp add: apply_transaction_def st_bind_read after_verification_def [abs_def])

lemma apply_transaction_early:
  "decode_transaction lib b cons = Inl e \<Longrightarrow> apply_transaction lib cor state_key b bc cons skip rv h = (Inl e, h)"
  "decode_transaction lib b cons = Inr tx \<Longrightarrow> get_ledger lib state_key h = Inl e \<Longrightarrow>
    apply_transaction lib cor state_key b bc cons skip rv h = (Inl e, h)"
  by (simp_all add: apply_transaction_def st_bind_read)

lemma validate_guaranteed_run:
  assumes "decode_transaction lib b cons = Inr tx" "get_ledger lib state_key h = Inr l"
    and "h' = h\<lparr>soft_cache := (soft_cache h)(tx_validation_cache_key lib rv b := None)\<rparr>"
  shows "validate_guaranteed_execution lib cor state_key b bc cons rv h =
    st_bind (get_verified_transaction lib l tx bc (tx_validation_cache_key lib rv b) cor)
      (\<lambda>vt. st_lift (dry_run lib l vt bc)) h'"
  using assms
  by (simp add: validate_guaranteed_execution_def do_validate_guaranteed_execution_def st_bind_read st_bind_assoc
      del: st_simps(1))

lemma validate_guaranteed_early:
  "decode_transaction lib b cons = Inl e \<Longrightarrow> validate_guaranteed_execution lib cor state_key b bc cons rv h = (Inl e, h)"
  "decode_transaction lib b cons = Inr tx \<Longrightarrow> get_ledger lib state_key h = Inl e \<Longrightarrow>
    validate_guaranteed_execution lib cor state_key b bc cons rv h = (Inl e, h)"
  by (simp_all add: validate_guaranteed_execution_def st_bind_read)

text \<open>How a call starts: it fails before the host is touched, or decodes its transaction and loads its ledger.\<close>

lemma call_cases:
  obtains (undecoded) e where "decode_transaction lib b cons = Inl e"
    | (unloaded) tx e where "decode_transaction lib b cons = Inr tx" "get_ledger lib state_key h = Inl e"
    | (loaded) tx era l where "decode_transaction lib b cons = Inr tx" "get_ledger lib state_key h = Inr l"
        "decode_versioned lib b = Inr (tx, era)"
proof (cases "decode_transaction lib b cons")
  case (Inr tx)
  obtain era where "decode_versioned lib b = Inr (tx, era)"
    using decode_transaction_Inr [OF Inr] by blast
  with Inr show ?thesis
    by (cases "get_ledger lib state_key h") (rule unloaded loaded; assumption)+
qed (rule undecoded)

lemma call_ok_facts:
  assumes "call_ok v cor bc state_key b h" "get_ledger (be_lib v) state_key h = Inr l"
  shows "uncorrected cor bc" "state l \<in> be_states v" "b \<in> be_txs v"
  using assms by (auto simp: call_ok_def)

lemma apply_transaction_transparent:
  assumes "collision_free v" "strict_inv v h" "strict_inv v (h\<lparr>strict_cache := c\<rparr>)" "call_ok v cor bc state_key b h"
  shows "fst (apply_transaction (be_lib v) cor state_key b bc cons skip rv (h\<lparr>strict_cache := c\<rparr>))
    = fst (apply_transaction (be_lib v) cor state_key b bc cons skip rv h)"
proof (cases rule: call_cases [where lib = "be_lib v" and b = b and cons = cons and state_key = state_key and h = h])
  case (loaded tx era l)
  let ?h = "set_network_id (state_network_id (be_lib v) (state l)) h"
  have "strict_inv v ?h" "strict_inv v (?h\<lparr>strict_cache := c\<rparr>)"
    using assms(2,3) by (simp_all add: set_network_id_strict [symmetric])
  from assms(1) this call_ok_facts [OF assms(4) loaded(2)] loaded(3)
  have "fst (st_bind (get_verified_transaction (be_lib v) l tx bc (tx_validation_cache_key (be_lib v) rv b) cor)
        (after_verification (be_lib v) tx skip l bc) (?h\<lparr>strict_cache := c\<rparr>))
      = fst (st_bind (get_verified_transaction (be_lib v) l tx bc (tx_validation_cache_key (be_lib v) rv b) cor)
        (after_verification (be_lib v) tx skip l bc) ?h)"
    by (rule verified_bind_transparent) (simp_all add: after_verification_strict, simp add: after_verification_def)
  then show ?thesis
    using loaded by (simp add: apply_transaction_run set_network_id_strict)
qed (simp_all add: apply_transaction_early)

lemma validate_guaranteed_transparent:
  assumes "collision_free v" "strict_inv v h" "strict_inv v (h\<lparr>strict_cache := c\<rparr>)" "call_ok v cor bc state_key b h"
  shows "fst (validate_guaranteed_execution (be_lib v) cor state_key b bc cons rv (h\<lparr>strict_cache := c\<rparr>))
    = fst (validate_guaranteed_execution (be_lib v) cor state_key b bc cons rv h)"
proof (cases rule: call_cases [where lib = "be_lib v" and b = b and cons = cons and state_key = state_key and h = h])
  case (loaded tx era l)
  let ?key = "tx_validation_cache_key (be_lib v) rv b"
  let ?h = "h\<lparr>soft_cache := (soft_cache h)(?key := None)\<rparr>"
  have "strict_inv v ?h" "strict_inv v (?h\<lparr>strict_cache := c\<rparr>)"
    using assms(2,3) by (simp_all add: strict_inv_def)
  from assms(1) this call_ok_facts [OF assms(4) loaded(2)] loaded(3)
  have eq: "fst (st_bind (get_verified_transaction (be_lib v) l tx bc ?key cor)
        (\<lambda>vt. st_lift (dry_run (be_lib v) l vt bc)) (?h\<lparr>strict_cache := c\<rparr>))
      = fst (st_bind (get_verified_transaction (be_lib v) l tx bc ?key cor)
        (\<lambda>vt. st_lift (dry_run (be_lib v) l vt bc)) ?h)"
    by (rule verified_bind_transparent) (simp_all add: dry_run_def)
  have run: "validate_guaranteed_execution (be_lib v) cor state_key b bc cons rv (h\<lparr>strict_cache := c\<rparr>) =
      st_bind (get_verified_transaction (be_lib v) l tx bc ?key cor)
        (\<lambda>vt. st_lift (dry_run (be_lib v) l vt bc)) (?h\<lparr>strict_cache := c\<rparr>)"
    using loaded(1,2) by (intro validate_guaranteed_run) simp_all
  show ?thesis
    unfolding run validate_guaranteed_run [OF loaded(1,2) refl] by (rule eq)
qed (simp_all add: validate_guaranteed_early)

text \<open>The calls a host serves, and the expiry of cache entries.\<close>

definition host_init :: "('st, 'tx, 'vt, 'k) bridge_env \<Rightarrow> ('st, 'vt, 'k) host \<Rightarrow> bool" where
  "host_init v h \<longleftrightarrow> collision_free v \<and> strict_cache h = Map.empty"

definition host_inv :: "('st, 'tx, 'vt, 'k) bridge_env \<Rightarrow> ('st, 'vt, 'k) host \<Rightarrow> bool" where
  "host_inv v h \<longleftrightarrow> collision_free v \<and> strict_inv v h"

inductive host_step :: "('st, 'tx, 'vt, 'k) bridge_env \<Rightarrow> ('st, 'vt, 'k) host \<Rightarrow> ('st, 'vt, 'k) host \<Rightarrow> bool"
  for v where
  host_apply: "call_ok v cor bc state_key b h \<Longrightarrow>
    host_step v h (snd (apply_transaction (be_lib v) cor state_key b bc cons skip rv h))"
| host_validate: "call_ok v None bc state_key b h \<Longrightarrow>
    host_step v h (snd (validate_transaction (be_lib v) state_key b bc cons rv h))"
| host_guaranteed: "call_ok v cor bc state_key b h \<Longrightarrow>
    host_step v h (snd (validate_guaranteed_execution (be_lib v) cor state_key b bc cons rv h))"
| host_system: "host_step v h (snd (apply_system_transaction (be_lib v) state_key b bc h))"
| host_finalize: "apply_post_block_update (be_lib v) state_key bc h = Some (r, h') \<Longrightarrow> host_step v h h'"
| host_expire_strict: "host_step v h (h\<lparr>strict_cache := (strict_cache h)(k := None)\<rparr>)"
| host_expire_soft: "host_step v h (h\<lparr>soft_cache := (soft_cache h)(txh := None)\<rparr>)"

lemma apply_transaction_inv:
  assumes "strict_inv v h" "call_ok v cor bc state_key b h"
  shows "strict_inv v (snd (apply_transaction (be_lib v) cor state_key b bc cons skip rv h))"
proof (cases rule: call_cases [where lib = "be_lib v" and b = b and cons = cons and state_key = state_key and h = h])
  case (loaded tx era l)
  show ?thesis
    unfolding apply_transaction_run [OF loaded(1,2)]
  proof (rule st_bind_inv)
    show "strict_inv v (snd (get_verified_transaction (be_lib v) l tx bc (tx_validation_cache_key (be_lib v) rv b) cor
        (set_network_id (state_network_id (be_lib v) (state l)) h)))"
      using assms(1) call_ok_facts [OF assms(2) loaded(2)] loaded(3) by (intro verification_keeps_inv) simp_all
  qed (simp add: strict_inv_cong [OF after_verification_keeps_strict])
qed (simp_all add: apply_transaction_early assms(1))

lemma validate_guaranteed_inv:
  assumes "strict_inv v h" "call_ok v cor bc state_key b h"
  shows "strict_inv v (snd (validate_guaranteed_execution (be_lib v) cor state_key b bc cons rv h))"
proof (cases rule: call_cases [where lib = "be_lib v" and b = b and cons = cons and state_key = state_key and h = h])
  case (loaded tx era l)
  show ?thesis
    unfolding validate_guaranteed_run [OF loaded(1,2) refl]
  proof (rule st_bind_inv)
    show "strict_inv v (snd (get_verified_transaction (be_lib v) l tx bc (tx_validation_cache_key (be_lib v) rv b) cor
        (h\<lparr>soft_cache := (soft_cache h)(tx_validation_cache_key (be_lib v) rv b := None)\<rparr>)))"
      using assms(1) call_ok_facts [OF assms(2) loaded(2)] loaded(3) by (intro verification_keeps_inv) simp_all
  qed simp
qed (simp_all add: validate_guaranteed_early assms(1))

lemma validate_transaction_inv:
  assumes "strict_inv v h" "call_ok v None bc state_key b h"
  shows "strict_inv v (snd (validate_transaction (be_lib v) state_key b bc cons rv h))"
proof (cases rule: call_cases [where lib = "be_lib v" and b = b and cons = cons and state_key = state_key and h = h])
  case (loaded tx era l)
  let ?key = "tx_validation_cache_key (be_lib v) rv b"
  have gvt: "strict_inv v (snd (get_verified_transaction (be_lib v) l tx bc ?key None h))"
    using call_ok_facts [OF assms(2) loaded(2)] loaded(3) by (rule verification_keeps_inv [OF assms(1)])
  have "strict_inv v (snd (do_validate_transaction (be_lib v) l tx bc ?key h))"
  proof (cases "soft_cache h ?key")
    case None
    then show ?thesis
      unfolding do_validate_transaction_def
      by (simp, intro st_bind_inv [where I = "strict_inv v"]) (simp_all add: gvt)
  next
    case (Some r)
    then show ?thesis
      using assms(1) by (simp add: do_validate_transaction_def split: sum.split)
  qed
  then show ?thesis
    using loaded by (auto simp: validate_transaction_def st_bind_read st_bind_def split: prod.split sum.split)
qed (simp_all add: validate_transaction_def st_bind_read assms(1))

lemma system_transaction_inv:
  "strict_inv v h \<Longrightarrow> strict_inv v (snd (apply_system_transaction lib state_key b bc h))"
  unfolding apply_system_transaction_def by (intro st_bind_inv [where I = "strict_inv v"]) simp_all

lemma post_block_update_inv:
  "strict_inv v h \<Longrightarrow> apply_post_block_update lib state_key bc h = Some (r, h') \<Longrightarrow> strict_inv v h'"
  by (auto simp: apply_post_block_update_def st_bind_def split: sum.splits option.splits)

lemma host_step_inv:
  assumes "host_inv v h" "host_step v h h'"
  shows "host_inv v h'"
  using assms(2,1)
proof (cases rule: host_step.cases)
  case (host_finalize state_key bc r)
  then show ?thesis
    using assms(1) post_block_update_inv unfolding host_inv_def by metis
next
  case (host_expire_strict k)
  then show ?thesis
    using assms(1) by (auto simp: host_inv_def strict_inv_def)
qed (use assms(1) in \<open>simp_all add: host_inv_def apply_transaction_inv validate_transaction_inv
    validate_guaranteed_inv system_transaction_inv\<close>)

interpretation lb: transition_invariant "host_init v" "host_step v" "host_inv v"
proof unfold_locales
  show "host_init v h \<Longrightarrow> host_inv v h" for h
    by (simp add: host_init_def host_inv_def strict_inv_def)
qed (rule host_step_inv)

text \<open>With an empty strict cache the cache key of a transaction does not matter.\<close>

lemma empty_cache_key_irrelevant:
  assumes "strict_cache h = Map.empty"
  shows "fst (st_bind (get_verified_transaction lib l tx bc key1 cor) (after_verification lib tx skip l bc) h)
    = fst (st_bind (get_verified_transaction lib l tx bc key2 cor) (after_verification lib tx skip l bc) h)"
  by (simp add: get_verified_transaction_def st_bind_def assms after_verification_strict split: sum.split)

lemma apply_transaction_empty_cache:
  assumes "strict_cache h = Map.empty" "decode_transaction lib b1 c1 = Inr tx" "decode_transaction lib b2 c2 = Inr tx"
  shows "fst (apply_transaction lib cor state_key b1 bc c1 skip rv h) = fst (apply_transaction lib cor state_key b2 bc c2 skip rv h)"
proof (cases "get_ledger lib state_key h")
  case (Inl e)
  with assms show ?thesis by (simp add: apply_transaction_early)
next
  case (Inr l)
  have "strict_cache (set_network_id (state_network_id lib (state l)) h) = Map.empty"
    using assms(1) by (simp add: set_network_id_def split: option.split)
  then show ?thesis
    unfolding apply_transaction_run [OF assms(2) Inr] apply_transaction_run [OF assms(3) Inr]
    by (rule empty_cache_key_irrelevant)
qed

text \<open>The errors of applying a verified transaction and of reporting it.\<close>

lemma add_operations_error:
  "add_operations lib ops ev = Inl e \<Longrightarrow> e = Le_Serialization Se_ContractAddress"
proof (induction lib ops ev rule: add_operations.induct)
  case (2 lib op ops ev)
  then show ?case
    by (cases op) (auto simp: add_operation_def add_address_def ok_or_def bind_result_def split: sum.splits option.splits)
qed simp

definition report_errors :: "LedgerApiError set" where
  "report_errors = {Le_HostApiError, Le_Serialization Se_TypedArenaKey, Le_Serialization Se_ContractAddress}"

lemma report_application_error:
  assumes "report_application lib tx skip l new_l stage h = (Inl e, h')"
  shows "e \<in> report_errors \<and> arena h' = arena h"
  using assms unfolding report_application_def Let_def
  by (auto simp: st_bind_def report_errors_def check_utxos_response_integrity_def serialize_root_def get_override_def
      ok_or_def Let_def dest: add_operations_error split: sum.splits prod.splits if_splits option.splits)

lemma add_operations_fields:
  "add_operations lib ops ev = Inr ev' \<Longrightarrow> state_root ev' = state_root ev \<and> all_applied ev' = all_applied ev
    \<and> tx_hash ev' = tx_hash ev"
proof (induction lib ops ev rule: add_operations.induct)
  case (2 lib op ops ev)
  then obtain ev1 where "add_operation lib op ev = Inr ev1" "add_operations lib ops ev1 = Inr ev'"
    by (auto simp: bind_result_Inr_iff)
  moreover from this(1) have "state_root ev1 = state_root ev" "all_applied ev1 = all_applied ev" "tx_hash ev1 = tx_hash ev"
    by (cases op; auto simp: add_operation_def add_address_def bind_result_Inr_iff)+
  ultimately show ?case
    using "2.IH" by metis
qed simp

lemma report_application_ok:
  assumes "report_application lib tx skip l new_l stage h = (Inr ev, h')"
  obtains ops ev0 where "arena h' = (arena h)(key_of lib new_l \<mapsto> new_l)"
    "encode_key lib (key_of lib new_l) = Some (state_root ev)" "all_applied ev \<longleftrightarrow> stage = AllApplied"
    "tx_hash ev = transaction_hash lib tx" "add_operations lib ops ev0 = Inr ev"
    "ops = calls_and_deploys (tx_view lib tx) (case stage of StagePartial segs \<Rightarrow> if skip then Some (map fst segs) else None
       | AllApplied \<Rightarrow> None)"
    "call_addresses ev0 = []" "deploy_addresses ev0 = []" "maintain_addresses ev0 = []"
proof -
  let ?ops = "calls_and_deploys (tx_view lib tx) (case stage of StagePartial segs \<Rightarrow> if skip then Some (map fst segs) else None
       | AllApplied \<Rightarrow> None)"
  have "\<exists>ev0. add_operations lib ?ops ev0 = Inr ev \<and> encode_key lib (key_of lib new_l) = Some (state_root ev0)
      \<and> all_applied ev0 = (stage = AllApplied) \<and> tx_hash ev0 = transaction_hash lib tx
      \<and> call_addresses ev0 = [] \<and> deploy_addresses ev0 = [] \<and> maintain_addresses ev0 = []
      \<and> arena h' = (arena h)(key_of lib new_l \<mapsto> new_l)"
    using assms unfolding report_application_def Let_def
    by (cases stage)
      (clarsimp simp: st_bind_def serialize_root_def get_override_def ok_or_def Let_def persist_def
        split: sum.splits prod.splits if_splits option.splits;
        rule exI; rule conjI; assumption?; simp)+
  then show thesis
    using add_operations_fields that by metis
qed

lemma apply_verified_error:
  assumes "apply_verified_transaction lib l tx vt ctx = Inl e"
  shows "e \<in> {Le_FeeCalculationError, Le_BlockLimitExceededError}
    \<or> (\<exists>r. e = Le_Transaction (Te_Invalid r) \<and> snd (apply_tx lib (state l) vt ctx) = Failure r)"
  using assms
  by (auto simp: apply_verified_transaction_def prevalidate_post_block_update_def Let_def bind_result_def
      split: option.splits prod.splits TransactionResult.splits sum.splits if_splits)

lemma dry_run_ok:
  "dry_run lib l vt bc = Inr () \<longleftrightarrow>
    (\<exists>ctx. get_transaction_context l bc = Inr ctx \<and> apply_guaranteed_only lib (state l) vt ctx = Inr ())"
  by (cases "get_transaction_context l bc"; cases "apply_guaranteed_only lib (state l) vt (projr (get_transaction_context l bc))")
    (simp_all add: dry_run_def)

text \<open>How a verified transaction ends: with nothing stored, or with its ledger reported and stored.\<close>

lemma after_verification_cases:
  assumes "after_verification lib tx skip l bc vt h = (r, h')"
  obtains (failed) e where "r = Inl e" "arena h' = arena h"
    | (applied) ev ctx l' stage where "r = Inr ev" "get_transaction_context l bc = Inr ctx"
        "apply_verified_transaction lib l tx vt ctx = Inr (l', stage)"
        "report_application lib tx skip l l' stage h = (Inr ev, h')"
proof (cases "get_transaction_context l bc")
  case (Inl e)
  then show ?thesis using assms failed by (auto simp: after_verification_def)
next
  case ctx: (Inr ctx)
  show ?thesis
  proof (cases "apply_verified_transaction lib l tx vt ctx")
    case (Inl e)
    then show ?thesis using assms ctx failed by (auto simp: after_verification_def)
  next
    case (Inr ls)
    then obtain l' stage where ls: "apply_verified_transaction lib l tx vt ctx = Inr (l', stage)"
      by (cases ls) simp
    then have rep: "report_application lib tx skip l l' stage h = (r, h')"
      using assms ctx by (simp add: after_verification_def)
    show ?thesis
    proof (cases r)
      case (Inl e)
      then show ?thesis
        using failed report_application_error [OF rep [unfolded Inl]] by blast
    next
      case (Inr ev)
      with rep ctx ls show ?thesis by (intro applied) auto
    qed
  qed
qed

text \<open>A successful verification is found again in the cache.\<close>

lemma get_verified_transaction_again:
  assumes "get_verified_transaction lib l tx bc txh cor h = (Inr vt, h')" "strict_cache h'' = strict_cache h'"
  shows "get_verified_transaction lib l tx bc txh cor h'' = (Inr vt, h'')"
  using assms by (auto simp: get_verified_transaction_def split: option.splits sum.splits)

text \<open>The effect of an application, and of one that was validated before.\<close>

lemma apply_transaction_effect:
  assumes "\<And>k bs. encode_key lib k = Some bs \<Longrightarrow> decode_key lib bs = Some k"
    and "apply_transaction lib cor state_key b bc c skip rv h = (r, h')"
  shows "case r of
      Inl _ \<Rightarrow> arena h' = arena h
    | Inr ev \<Rightarrow> \<exists>tx l vt ctx l' stage. decode_transaction lib b c = Inr tx \<and> get_ledger lib state_key h = Inr l
        \<and> apply_verified_transaction lib l tx vt ctx = Inr (l', stage) \<and> (all_applied ev \<longleftrightarrow> stage = AllApplied)
        \<and> arena h' = (arena h)(key_of lib l' \<mapsto> l') \<and> get_ledger lib (state_root ev) h' = Inr l'"
proof (cases rule: call_cases [where lib = lib and b = b and cons = c and state_key = state_key and h = h])
  case (loaded tx era l)
  from assms(2) show ?thesis
    unfolding apply_transaction_run [OF loaded(1,2)]
  proof (cases rule: st_bind_cases)
    case (failed e)
    then show ?thesis
      using get_verified_transaction_arena [OF failed(1)] by simp
  next
    case (passed vt h1)
    have h1: "arena h1 = arena h"
      using get_verified_transaction_arena [OF passed(1)] by simp
    from passed(2) show ?thesis
    proof (cases rule: after_verification_cases)
      case (failed e)
      with h1 show ?thesis by simp
    next
      case (applied ev ctx l' stage)
      from applied(4) obtain "arena h' = (arena h)(key_of lib l' \<mapsto> l')" "decode_key lib (state_root ev) = Some (key_of lib l')"
        "all_applied ev \<longleftrightarrow> stage = AllApplied"
        using assms(1) h1 by (elim report_application_ok) simp
      with applied(1,3) loaded(1,2) show ?thesis
        by (auto simp: get_ledger_def)
    qed
  qed
qed (use assms(2) in \<open>auto simp: apply_transaction_early\<close>)

lemma validated_applies:
  assumes "\<And>st vt ctx r. apply_guaranteed_only lib st vt ctx = Inr () \<Longrightarrow> snd (apply_tx lib st vt ctx) \<noteq> Failure r"
    and "validate_guaranteed_execution lib cor state_key b bc c rv h = (Inr (), h')"
  shows "case fst (apply_transaction lib cor state_key b bc c skip rv h') of
      Inr _ \<Rightarrow> True
    | Inl e \<Rightarrow> e \<in> {Le_FeeCalculationError, Le_BlockLimitExceededError} \<union> report_errors"
proof (cases rule: call_cases [where lib = lib and b = b and cons = c and state_key = state_key and h = h])
  case (loaded tx era l)
  let ?key = "tx_validation_cache_key lib rv b" and ?n = "state_network_id lib (state l)"
  obtain vt where gvt: "get_verified_transaction lib l tx bc ?key cor (h\<lparr>soft_cache := (soft_cache h)(?key := None)\<rparr>) = (Inr vt, h')"
    and dry: "dry_run lib l vt bc = Inr ()"
    using assms(2) unfolding validate_guaranteed_run [OF loaded(1,2) refl] by (elim st_bind_cases) auto
  then obtain ctx where ctx: "get_transaction_context l bc = Inr ctx" "apply_guaranteed_only lib (state l) vt ctx = Inr ()"
    by (auto simp: dry_run_ok)
  have "get_ledger lib state_key h' = Inr l"
    using loaded(2) get_verified_transaction_host [OF gvt] by (metis get_ledger_updates(1,2))
  moreover have "get_verified_transaction lib l tx bc ?key cor (set_network_id ?n h') = (Inr vt, set_network_id ?n h')"
    by (rule get_verified_transaction_again [OF gvt]) simp
  ultimately have run: "apply_transaction lib cor state_key b bc c skip rv h' = after_verification lib tx skip l bc vt (set_network_id ?n h')"
    by (simp add: apply_transaction_run [OF loaded(1)] st_bind_Inr)
  show ?thesis
  proof (cases "apply_verified_transaction lib l tx vt ctx")
    case (Inl e)
    then show ?thesis
      using apply_verified_error [OF Inl] assms(1) [OF ctx(2)] by (auto simp: run after_verification_def ctx)
  next
    case (Inr r)
    obtain r' h'' where rep: "report_application lib tx skip l (fst r) (snd r) (set_network_id ?n h') = (r', h'')"
      by fastforce
    have "e \<in> report_errors" if "r' = Inl e" for e
      using report_application_error [OF rep [unfolded that]] by simp
    then show ?thesis
      using rep Inr by (simp add: run after_verification_def ctx case_prod_beta split: sum.split)
  qed
qed (use assms(2) in \<open>simp_all add: validate_guaranteed_early\<close>)

text \<open>What the other host functions do to the arena.\<close>

lemma validate_guaranteed_arena:
  "arena (snd (validate_guaranteed_execution lib cor state_key b bc cons rv h)) = arena h"
proof (cases rule: call_cases [where lib = lib and b = b and cons = cons and state_key = state_key and h = h])
  case (loaded tx era l)
  obtain r h' where g: "get_verified_transaction lib l tx bc (tx_validation_cache_key lib rv b) cor
      (h\<lparr>soft_cache := (soft_cache h)(tx_validation_cache_key lib rv b := None)\<rparr>) = (r, h')"
    by fastforce
  then show ?thesis
    unfolding validate_guaranteed_run [OF loaded(1,2) refl]
    using get_verified_transaction_arena [OF g] by (simp add: st_bind_def split: sum.split)
qed (simp_all add: validate_guaranteed_early)

lemma apply_system_effect:
  assumes "\<And>k bs. encode_key lib k = Some bs \<Longrightarrow> decode_key lib bs = Some k"
    and "apply_system_transaction lib state_key b bc h = (r, h')"
  shows "case r of
      Inl _ \<Rightarrow> h' = h
    | Inr ev \<Rightarrow> \<exists>tx l l'. deserialize_system lib b = Some tx \<and> get_ledger lib state_key h = Inr l
        \<and> ledger_apply_system_tx lib l tx (tblock bc) = Inr l' \<and> get_ledger lib (system_state_root ev) h' = Inr l'"
  using assms(2) unfolding apply_system_transaction_def
  by (auto simp: st_bind_def ok_or_def serialize_root_def persist_def get_ledger_def assms(1)
      split: option.splits sum.splits prod.splits)

lemma post_block_effect:
  assumes "\<And>k. \<exists>bs. encode_key lib k = Some bs \<and> decode_key lib bs = Some k" "normalizes lib"
    and "get_ledger lib state_key h = Inr l"
  obtains root h' l' where "apply_post_block_update lib state_key bc h = Some (Inr root, h')"
    "ledger_apply_post_block_update lib l bc = Some l'" "get_ledger lib root h' = Inr l'" "block_fullness l' = cost_zero"
proof -
  obtain l' where l': "ledger_apply_post_block_update lib l bc = Some l'"
    using post_block_update_total [OF assms(2)] by blast
  then have zero: "block_fullness l' = cost_zero"
    by (auto simp: ledger_apply_post_block_update_def ledger_new_def split: option.splits)
  obtain root where root: "encode_key lib (key_of lib l') = Some root" "decode_key lib root = Some (key_of lib l')"
    using assms(1) by blast
  then have "apply_post_block_update lib state_key bc h = Some (Inr root, persist lib l' h)"
    using assms(3) l' by (simp add: apply_post_block_update_def serialize_root_def)
  moreover have "get_ledger lib root (persist lib l' h) = Inr l'"
    using root by (simp add: get_ledger_def persist_def)
  ultimately show thesis
    using that l' zero by blast
qed

section \<open>A concrete library\<close>

text \<open>
  A ledger whose state counts, whose transactions add to it and, for the
  transaction 7, report a failed second segment.
\<close>

definition lx_tx :: "u8 \<Rightarrow> inner_tx" where
  "lx_tx x = Standard \<lparr>segments = [0, 1], intents = [], actions = [(0, ActionCall [x] []), (1, ActionDeploy [x])],
     guaranteed_coins = True, fallible_coins = 0\<rparr>"

definition lx_lib :: "(u8, u8, u8, u8 list) mn_ledger" where
  "lx_lib = \<lparr>versioned_deserialize = (\<lambda>b. if b = [12, 3] then Some (True, 3) else if b = [13, 3] then Some (False, 3)
        else if b = [12, 7] then Some (True, 7) else None),
     tx_view = lx_tx, transaction_hash = (\<lambda>x. [x]), tx_identifiers = (\<lambda>x. []),
     tx_cost = (\<lambda>_ _. Some (cost_zero\<lparr>block_usage := 1\<rparr>)),
     well_formed = (\<lambda>x st t. Inr x),
     apply_tx = (\<lambda>st x ctx. (st + x, if x = 7 then PartialSuccess [(0, Inr ()), (1, Inl Ie_Transcript)] else Success)),
     apply_guaranteed_only = (\<lambda>_ _ _. Inr ()),
     system_cost = (\<lambda>_ _. cost_zero\<lparr>block_usage := 1\<rparr>), apply_system = (\<lambda>st _ _. Inr st),
     block_limits = (\<lambda>_. \<lparr>read_time = 9, compute_time = 9, block_usage = 9, bytes_written = 9, bytes_churned = 9\<rparr>),
     cost_add = (\<lambda>c d. c\<lparr>block_usage := block_usage c + block_usage d\<rparr>),
     normalize = (\<lambda>c l. if cost_le c l then Some \<lparr>norm_read_time = 0, norm_compute_time = 0, norm_block_usage = 0,
        norm_bytes_written = 0, norm_bytes_churned = 0\<rparr> else None),
     prevalidate_update = (\<lambda>_ _ _. True), apply_update = (\<lambda>st _ _ _. st), into_atomic_units = (\<lambda>_ m. m),
     timestamp_add = (+), state_hash = (\<lambda>st. [st]), state_utxos = (\<lambda>_. {}), state_network_id = (\<lambda>_. ''dev''),
     bridge_min_amount = (\<lambda>_. 0), key_of = (\<lambda>l. [state l]), encode_key = Some, decode_key = Some,
     serialize_address = Some, deserialize_dust_key = Some,
     serialize_event = (\<lambda>_. Some []), deserialize_event = (\<lambda>_. None), serialize_system = (\<lambda>_. Some []),
     deserialize_system = (\<lambda>_. None), system_hash = (\<lambda>_. []), twox128 = id,
     claims = \<lparr>NIGHT = [], mk_intent_hash = (\<lambda>_ _ _. [])\<rparr>,
     overrides = \<lparr>hex_decode = (\<lambda>_. None), read_overrides = (\<lambda>_. None)\<rparr>\<rparr>"

definition lx_host :: "(u8, u8, u8 list) host" where
  "lx_host = \<lparr>arena = [[5] \<mapsto> ledger_new 5], strict_cache = Map.empty, soft_cache = Map.empty,
     NETWORK_ID = None, OVERRIDES = None\<rparr>"

definition lx_block :: BlockContext where
  "lx_block = \<lparr>tblock = 100, tblock_err = 30, parent_block_hash = replicate 32 0, last_block_time = 94\<rparr>"

definition lx_env :: "(u8, u8, u8, u8 list) bridge_env" where
  "lx_env = \<lparr>be_lib = lx_lib, be_txs = {[12, 3], [13, 3]}, be_states = UNIV\<rparr>"

lemma ledger_new_sels [simp]: "state (ledger_new st) = st" "block_fullness (ledger_new st) = cost_zero"
  by (simp_all add: ledger_new_def)

lemma lx_lib_sels:
  "versioned_deserialize lx_lib [12, 3] = Some (True, 3)" "versioned_deserialize lx_lib [13, 3] = Some (False, 3)"
  "versioned_deserialize lx_lib [12, 7] = Some (True, 7)"
  "tx_view lx_lib = lx_tx" "apply_guaranteed_only lx_lib st vt ctx = Inr ()" "well_formed lx_lib x st tm = Inr x"
  "apply_tx lx_lib st x ctx = (st + x, if x = 7 then PartialSuccess [(0, Inr ()), (1, Inl Ie_Transcript)] else Success)"
  "encode_key lx_lib k = Some k" "decode_key lx_lib k = Some k" "key_of lx_lib l = [state l]"
  "state_network_id lx_lib st = ''dev''" "serialize_address lx_lib = Some" "state_utxos lx_lib st = {}" "tx_cost lx_lib x st = Some (cost_zero\<lparr>block_usage := 1\<rparr>)"
  by (simp_all add: lx_lib_def)

lemma lx_env_collision_free: "collision_free lx_env"
  by (simp add: collision_free_def lx_env_def lx_lib_def inj_on_def)

lemma lx_reachable: "reachable (host_init lx_env) (host_step lx_env) lx_host"
  using lx_env_collision_free by (intro reachable_init) (simp add: host_init_def lx_host_def)

lemma lx_call_ok: "call_ok lx_env None lx_block [5] [12, 3] lx_host" "call_ok lx_env None lx_block [5] [13, 3] lx_host"
  by (simp_all add: call_ok_def lx_env_def uncorrected_def)

lemma lx_ledger: "get_ledger lx_lib [5] lx_host = Inr (ledger_new 5)"
  by (simp add: get_ledger_def lx_lib_sels lx_host_def)

lemma lx_verified:
  "get_verified_transaction lx_lib (ledger_new 5) x lx_block txh None h =
     (case strict_cache h (strict_key lx_lib (ledger_new 5) lx_block txh) of Some vt \<Rightarrow> (Inr vt, h)
      | None \<Rightarrow> (Inr x, h\<lparr>strict_cache := (strict_cache h)(strict_key lx_lib (ledger_new 5) lx_block txh \<mapsto> x)\<rparr>))"
  by (simp add: get_verified_transaction_def get_transaction_context_def lx_block_def lx_lib_sels split: option.split)

lemma lx_applied:
  "apply_verified_transaction lx_lib (ledger_new 5) x vt ctx =
    Inr (\<lparr>state = 5 + vt, block_fullness = cost_zero\<lparr>block_usage := 1\<rparr>\<rparr>,
      if vt = 7 then StagePartial [(0, Inr ()), (1, Inl Ie_Transcript)] else AllApplied)"
  by (simp add: apply_verified_transaction_def prevalidate_post_block_update_def lx_lib_def ledger_new_def
      cost_le_def cost_zero_def Let_def)

section \<open>Properties\<close>


text \<open>
  the first version of the host functions, which runtimes from before the
  memo upgrade call, rejects memo-capable transactions at every height and
  otherwise agrees with the second version whatever context that one is given.
\<close>

lemma historical_entry_points:
  "apply_transaction_v1 lib cor state_key b bc rv h =
     (if memo_encoded lib b then (Inl Le_TransactionVersionNotActive, h)
      else apply_transaction_v2 lib cor state_key b bc c rv h)
   \<and> validate_transaction_v1 lib state_key b bc rv h =
     (if memo_encoded lib b then (Inl Le_TransactionVersionNotActive, h)
      else validate_transaction lib state_key b bc c rv h)
   \<and> validate_guaranteed_execution_v1 lib cor state_key b bc rv h =
     (if memo_encoded lib b then (Inl Le_TransactionVersionNotActive, h)
      else validate_guaranteed_execution lib cor state_key b bc c rv h)
   \<and> get_transaction_cost_v1 lib state_key b max_weight h =
     (if memo_encoded lib b then (Inl Le_TransactionVersionNotActive, h)
      else get_transaction_cost lib state_key b c max_weight h)"
  unfolding apply_transaction_v1_def apply_transaction_v2_def validate_transaction_v1_def
    validate_guaranteed_execution_v1_def get_transaction_cost_v1_def
    apply_transaction_def validate_transaction_def validate_guaranteed_execution_def get_transaction_cost_def
  by (simp add: decode_transaction_gate [of lib b c] decode_transaction_gate [of lib b MEMO_NEVER_ACTIVE])

text \<open>
  C7: the strict cache does not change a verdict.  In every state the host can
  reach, applying a transaction and validating it for a block give the result
  they give with an empty strict cache, as long as the hashes that key the
  cache do not collide and no correction of the block time applies.
\<close>

theorem strict_cache_transparent:
  assumes "reachable (host_init v) (host_step v) h" "call_ok v cor bc state_key b h"
  shows "fst (apply_transaction (be_lib v) cor state_key b bc c skip rv h)
      = fst (apply_transaction (be_lib v) cor state_key b bc c skip rv (h\<lparr>strict_cache := Map.empty\<rparr>))
    \<and> fst (validate_guaranteed_execution (be_lib v) cor state_key b bc c rv h)
      = fst (validate_guaranteed_execution (be_lib v) cor state_key b bc c rv (h\<lparr>strict_cache := Map.empty\<rparr>))"
proof -
  have inv: "collision_free v" "strict_inv v h" "strict_inv v (h\<lparr>strict_cache := Map.empty\<rparr>)"
    using lb.reachable_inv [OF assms(1)] by (simp_all add: host_inv_def strict_inv_def)
  show ?thesis
    using apply_transaction_transparent [OF inv assms(2)] validate_guaranteed_transparent [OF inv assms(2)] by simp
qed

theorem strict_cache_transparent_witness:
  "fst (apply_transaction lx_lib None [5] [12, 3] lx_block memo_always_active True 1 lx_host)
    = fst (apply_transaction lx_lib None [5] [12, 3] lx_block memo_always_active True 1 (lx_host\<lparr>strict_cache := Map.empty\<rparr>))"
  using strict_cache_transparent [OF lx_reachable lx_call_ok(1)] by (simp add: lx_env_def)

text \<open>
  C34: the same transaction in either encoding reaches the same verdict.  Where
  the two encodings decode to one transaction, applying the pre-memo encoding
  at any height gives the same result, state root and report included, as
  applying the memo-capable one in a block at or above the activation height.
\<close>

theorem encodings_agree:
  assumes "reachable (host_init v) (host_step v) h"
    and "call_ok v cor bc state_key b12 h" "call_ok v cor bc state_key b13 h"
    and "versioned_deserialize (be_lib v) b12 = Some (True, tx)" "versioned_deserialize (be_lib v) b13 = Some (False, tx)"
    and "memo_active c"
  shows "fst (apply_transaction (be_lib v) cor state_key b12 bc c' skip rv h)
    = fst (apply_transaction (be_lib v) cor state_key b13 bc c skip rv h)"
proof -
  let ?h = "h\<lparr>strict_cache := Map.empty\<rparr>"
  have inv: "collision_free v" "strict_inv v h" "strict_inv v ?h"
    using lb.reachable_inv [OF assms(1)] by (simp_all add: host_inv_def strict_inv_def)
  have dec: "decode_transaction (be_lib v) b12 c' = Inr tx" "decode_transaction (be_lib v) b13 c = Inr tx"
    using assms(4-6) by (simp_all add: decode_transaction_def decode_versioned_def)
  have "fst (apply_transaction (be_lib v) cor state_key b12 bc c' skip rv h)
      = fst (apply_transaction (be_lib v) cor state_key b12 bc c' skip rv ?h)"
    by (rule apply_transaction_transparent [OF inv assms(2), symmetric])
  also have "\<dots> = fst (apply_transaction (be_lib v) cor state_key b13 bc c skip rv ?h)"
    by (rule apply_transaction_empty_cache [OF _ dec]) simp
  also have "\<dots> = fst (apply_transaction (be_lib v) cor state_key b13 bc c skip rv h)"
    by (rule apply_transaction_transparent [OF inv assms(3)])
  finally show ?thesis .
qed

theorem encodings_agree_witness:
  "fst (apply_transaction lx_lib None [5] [12, 3] lx_block MEMO_NEVER_ACTIVE True 1 lx_host)
    = fst (apply_transaction lx_lib None [5] [13, 3] lx_block memo_always_active True 1 lx_host)"
  using encodings_agree [OF lx_reachable lx_call_ok, of 3 memo_always_active MEMO_NEVER_ACTIVE True 1]
  by (simp add: lx_env_def lx_lib_sels memo_always_active_def memo_active_def)

text \<open>
  C16: validation before dispatch keeps failed transactions out of a block.
  When the library applies no transaction to failure whose guaranteed part it
  could execute, a transaction that just passed \<open>validate_guaranteed_execution\<close> is
  applied to the same ledger, or is refused for its cost, for the block being
  full, or because its report could not be produced; never as undecodable,
  malformed, invalid or not active.
\<close>

theorem validated_transaction_applies:
  assumes "\<And>st vt ctx r. apply_guaranteed_only lib st vt ctx = Inr () \<Longrightarrow> snd (apply_tx lib st vt ctx) \<noteq> Failure r"
    and "validate_guaranteed_execution lib cor state_key b bc c rv h = (Inr (), h')"
  shows "case fst (apply_transaction lib cor state_key b bc c skip rv h') of
      Inr _ \<Rightarrow> True
    | Inl e \<Rightarrow> e \<in> {Le_FeeCalculationError, Le_BlockLimitExceededError} \<union> report_errors"
  using assms by (rule validated_applies)

theorem validated_transaction_applies_witness:
  "case fst (apply_transaction lx_lib None [5] [13, 3] lx_block memo_always_active True 1
        (snd (validate_guaranteed_execution lx_lib None [5] [13, 3] lx_block memo_always_active 1 lx_host))) of
      Inr _ \<Rightarrow> True
    | Inl e \<Rightarrow> e \<in> {Le_FeeCalculationError, Le_BlockLimitExceededError} \<union> report_errors"
proof -
  have dec: "decode_transaction lx_lib [13, 3] memo_always_active = Inr 3"
    by (simp add: decode_transaction_def decode_versioned_def lx_lib_sels memo_always_active_def memo_active_def)
  have "dry_run lx_lib (ledger_new 5) vt lx_block = Inr ()" for vt
    by (simp add: dry_run_def get_transaction_context_def lx_lib_sels lx_block_def)
  then have "fst (validate_guaranteed_execution lx_lib None [5] [13, 3] lx_block memo_always_active 1 lx_host) = Inr ()"
    unfolding validate_guaranteed_run [OF dec lx_ledger refl] by (simp add: st_bind_def lx_verified split: option.split)
  then show ?thesis
    by (intro validated_transaction_applies) (auto simp: lx_lib_sels prod_eq_iff split: if_splits)
qed

text \<open>
  C14: applying a transaction is all or nothing for the stored ledgers.  A
  failed application leaves the arena as it was; a successful one stores the
  ledger that the transaction led to, and the state root it returns is the key
  under which that ledger is found.
\<close>

theorem apply_transaction_commits:
  assumes "\<And>k bs. encode_key lib k = Some bs \<Longrightarrow> decode_key lib bs = Some k"
    and "apply_transaction lib cor state_key b bc c skip rv h = (r, h')"
  shows "case r of
      Inl _ \<Rightarrow> arena h' = arena h
    | Inr ev \<Rightarrow> \<exists>tx l vt ctx l' stage. decode_transaction lib b c = Inr tx \<and> get_ledger lib state_key h = Inr l
        \<and> apply_verified_transaction lib l tx vt ctx = Inr (l', stage) \<and> (all_applied ev \<longleftrightarrow> stage = AllApplied)
        \<and> arena h' = (arena h)(key_of lib l' \<mapsto> l') \<and> get_ledger lib (state_root ev) h' = Inr l'"
  using assms by (rule apply_transaction_effect)

lemma lx_report:
  assumes "NETWORK_ID h = Some ''dev''" "OVERRIDES h = None"
  shows "fst (after_verification lx_lib x True (ledger_new 5) lx_block x h) = Inr
    \<lparr>state_root = [5 + x], tx_hash = transaction_hash lx_lib x, all_applied = (x \<noteq> 7),
     call_addresses = (if x = 7 then [] else [[x]]), deploy_addresses = (if x = 7 then [] else [[x]]),
     maintain_addresses = [], claim_rewards = [], unshielded_utxos_created = [], unshielded_utxos_spent = []\<rparr>"
proof -
  have ctx: "get_transaction_context (ledger_new 5) lx_block = Inr \<lparr>ref_state = 5, block_context = lx_block\<rparr>"
    by (simp add: get_transaction_context_def lx_block_def)
  have utxos: "unshielded_utxos (claims lx_lib) (lx_tx x) = no_utxos" for x
    by (simp add: unshielded_utxos_def lx_tx_def no_utxos_def)
  have ops: "calls_and_deploys (lx_tx x) None = [Call [x] [], Deploy [x]]" "calls_and_deploys (lx_tx x) (Some [0, 1]) = []" for x
    by (simp_all add: calls_and_deploys_def lx_tx_def)
  have check: "check_utxos_response_integrity no_utxos 0 {} = Inr ([], [])"
    by (simp add: check_utxos_response_integrity_def segment_values_def no_utxos_def)
  have override: "get_override lx_lib txh h = (Inr None, h\<lparr>OVERRIDES := Some Map.empty\<rparr>)" for txh
    using assms by (simp add: get_override_def load_overrides_def)
  have removed: "remove_failed_segments segs no_utxos = no_utxos" for segs
    by (induction segs no_utxos rule: remove_failed_segments.induct) (simp_all add: no_utxos_def remove_segment_def)
  show ?thesis
    by (simp add: after_verification_def ctx lx_applied report_application_def lx_lib_sels utxos removed Let_def
        check st_bind_def override serialize_root_def ops add_operation_def add_address_def
        del: remove_failed_segments.simps)
qed

lemma lx_result:
  assumes "decode_transaction lx_lib b c = Inr x" "get_ledger lx_lib [5] h = Inr (ledger_new 5)"
    and "strict_cache h (strict_key lx_lib (ledger_new 5) lx_block (tx_validation_cache_key lx_lib 1 b)) \<in> {None, Some x}"
    and "NETWORK_ID h = None" "OVERRIDES h = None"
  shows "fst (apply_transaction lx_lib None [5] b lx_block c True 1 h) = Inr
    \<lparr>state_root = [5 + x], tx_hash = transaction_hash lx_lib x, all_applied = (x \<noteq> 7),
     call_addresses = (if x = 7 then [] else [[x]]), deploy_addresses = (if x = 7 then [] else [[x]]),
     maintain_addresses = [], claim_rewards = [], unshielded_utxos_created = [], unshielded_utxos_spent = []\<rparr>"
  unfolding apply_transaction_run [OF assms(1,2)]
  using assms(3-5) by (auto simp: st_bind_def lx_verified set_network_id_def lx_report lx_lib_sels)

lemma lx_decode:
  "decode_transaction lx_lib [12, 3] c = Inr 3" "decode_transaction lx_lib [12, 7] c = Inr 7"
  "memo_active c \<Longrightarrow> decode_transaction lx_lib [13, 3] c = Inr 3"
  by (simp_all add: decode_transaction_def decode_versioned_def lx_lib_sels)

theorem apply_transaction_commits_witness:
  "\<exists>ev l'. fst (apply_transaction lx_lib None [5] [12, 3] lx_block memo_always_active True 1 lx_host) = Inr ev
    \<and> get_ledger lx_lib (state_root ev) (snd (apply_transaction lx_lib None [5] [12, 3] lx_block memo_always_active True 1 lx_host)) = Inr l'"
proof -
  obtain r h' where run: "apply_transaction lx_lib None [5] [12, 3] lx_block memo_always_active True 1 lx_host = (r, h')"
    by fastforce
  then have "\<exists>ev. r = Inr ev"
    using lx_result [OF lx_decode(1) lx_ledger, of memo_always_active] by (simp add: lx_host_def)
  moreover have "case r of Inl _ \<Rightarrow> arena h' = arena lx_host
      | Inr ev \<Rightarrow> \<exists>tx l vt ctx l' stage. decode_transaction lx_lib [12, 3] memo_always_active = Inr tx \<and> get_ledger lx_lib [5] lx_host = Inr l
        \<and> apply_verified_transaction lx_lib l tx vt ctx = Inr (l', stage) \<and> (all_applied ev \<longleftrightarrow> stage = AllApplied)
        \<and> arena h' = (arena lx_host)(key_of lx_lib l' \<mapsto> l') \<and> get_ledger lx_lib (state_root ev) h' = Inr l'"
    using run by (intro apply_transaction_commits) (simp_all add: lx_lib_sels)
  ultimately show ?thesis
    using run by auto
qed

text \<open>
  on a partial success no contract operation is reported.  When the library
  lists the outcome of every segment of a transaction, successful segments
  included, a partly successful application reports none of its contract
  calls, deployments and maintenance updates, although those of the successful
  segments took effect.
\<close>

lemma partial_success_hides_operations:
  assumes "apply_transaction lib cor state_key b bc c True rv h = (Inr ev, h')" "\<not> all_applied ev"
    and "decode_transaction lib b c = Inr tx" "tx_view lib tx = Standard t"
    and "\<And>st vt ctx segs. snd (apply_tx lib st vt ctx) = PartialSuccess segs \<Longrightarrow> fst ` set (actions t) \<subseteq> fst ` set segs"
  shows "call_addresses ev = [] \<and> deploy_addresses ev = [] \<and> maintain_addresses ev = []"
proof (cases rule: call_cases [where lib = lib and b = b and cons = c and state_key = state_key and h = h])
  case (loaded tx' era l)
  have tx: "tx' = tx" using loaded(1) assms(3) by simp
  from assms(1) obtain vt h1 where after: "after_verification lib tx True l bc vt h1 = (Inr ev, h')"
    unfolding apply_transaction_run [OF loaded(1,2)] tx by (cases rule: st_bind_cases) simp_all
  then obtain ctx l' stage where ls: "apply_verified_transaction lib l tx vt ctx = Inr (l', stage)"
    "report_application lib tx True l l' stage h1 = (Inr ev, h')"
    by (cases rule: after_verification_cases) simp_all
  from ls(2) show ?thesis
  proof (cases rule: report_application_ok)
    case (1 ops ev0)
    then obtain segs where segs: "stage = StagePartial segs"
      using assms(2) by (cases stage) auto
    then have "snd (apply_tx lib (state l) vt ctx) = PartialSuccess segs"
      using ls(1) by (auto simp: apply_verified_transaction_def Let_def bind_result_Inr_iff
          split: option.splits prod.splits TransactionResult.splits)
    from assms(5) [OF this] have "\<forall>(sid, a) \<in> set (actions t). sid \<in> fst ` set segs"
      by (simp add: image_subset_iff case_prod_beta)
    then have "ops = []"
      using 1(6) segs by (simp add: calls_and_deploys_def assms(4) filter_empty_conv case_prod_beta)
    with 1(5,7-9) show ?thesis by simp
  qed
qed (use assms(1) in \<open>simp_all add: apply_transaction_early\<close>)

lemma partial_success_hides_operations_example:
  "\<exists>ev. fst (apply_transaction lx_lib None [5] [12, 7] lx_block memo_always_active True 1 lx_host) = Inr ev
    \<and> \<not> all_applied ev \<and> call_addresses ev = [] \<and> actions (case lx_tx 7 of Standard t \<Rightarrow> t) = [(0, ActionCall [7] []), (1, ActionDeploy [7])]"
proof -
  obtain r h' where run: "apply_transaction lx_lib None [5] [12, 7] lx_block memo_always_active True 1 lx_host = (r, h')"
    by fastforce
  then obtain ev where ev: "r = Inr ev" "\<not> all_applied ev"
    using lx_result [OF lx_decode(2) lx_ledger, of memo_always_active] by (simp add: lx_host_def)
  have "decode_transaction lx_lib [12, 7] memo_always_active = Inr 7"
    by (rule lx_decode)
  then have "call_addresses ev = [] \<and> deploy_addresses ev = [] \<and> maintain_addresses ev = []"
    using run ev by (intro partial_success_hides_operations [where tx = 7])
      (auto simp: lx_lib_sels lx_tx_def split: if_splits)
  with run ev show ?thesis by (simp add: lx_tx_def)
qed

end
