(* ===== verification/System_Executor.thy ===== *)
theory System_Executor
  imports Prelude "HOL-Library.Sublist"
begin

text \<open>
  The interface by which pallets run ledger system transactions
  (\<open>MidnightSystemTransactionExecutor\<close> in \<open>primitives/midnight/src/lib.rs\<close>).  The
  Midnight-System pallet provides it; the bridge from Cardano uses it.  What a
  client relies on is that a transaction that is reported as executed has been
  applied once, and that a failed one has not been applied.
\<close>

locale system_executor =
  fixes execute :: "u8 list \<Rightarrow> ('x, 'e, 'h) st_result"
    and applied :: "'x \<Rightarrow> u8 list list"
  assumes execute_ok: "execute b x = (Inr h, x') \<Longrightarrow> applied x' = applied x @ [b]"
    and execute_failed: "execute b x = (Inl e, x') \<Longrightarrow> applied x' = applied x"
begin

text \<open>A measure of the applied transactions grows by the executed one, or not at all.\<close>

lemma measured:
  fixes measure :: "u8 list \<Rightarrow> nat"
  shows "sum_list (map measure (applied (snd (execute b x)))) =
    sum_list (map measure (applied x)) + (if is_ok (fst (execute b x)) then measure b else 0)"
proof -
  obtain r x' where run: "execute b x = (r, x')" by fastforce
  show ?thesis
  proof (cases r)
    case (Inl e)
    with run execute_failed [OF run [unfolded Inl]] show ?thesis by simp
  next
    case (Inr h)
    with run execute_ok [OF run [unfolded Inr]] show ?thesis by simp
  qed
qed

text \<open>Applied transactions are never taken back.\<close>

lemma applied_prefix: "prefix (applied x) (applied (snd (execute b x)))"
proof -
  obtain r x' where run: "execute b x = (r, x')" by fastforce
  then show ?thesis
    using execute_ok execute_failed by (cases r) (fastforce simp: prefix_def)+
qed

end

end
