(* ===== verification/Midnight_Pallet.thy ===== *)
theory Midnight_Pallet
  imports Ledger_Bridge System_Executor
begin

text \<open>
  The Midnight pallet (\<open>pallets/midnight/src/lib.rs\<close>), which keeps the key of the
  chain's ledger and runs transactions on it through the host functions, and
  the Midnight-System pallet (\<open>pallets/midnight-system/src/lib.rs\<close>), which runs
  system transactions on the same ledger.

  The record \<open>runtime\<close> has the storage of the pallet, what it reads of
  \<open>frame_system\<close> and \<open>pallet_timestamp\<close>, the events deposited so far, and the host
  that the runtime calls.  The host is outside the storage: what it does is kept
  when a call fails.  FRAME's accounting of weights is a parameter.  A panic of
  a hook is \<open>None\<close>.
\<close>

section \<open>Data\<close>

datatype midnight_error =
    NewStateOutOfBounds
  | Deserialization DeserializationError
  | Serialization SerializationError
  | Transaction TransactionError
  | LedgerCacheError
  | NoLedgerState
  | LedgerStateScaleDecodingError
  | ContractCallCostError
  | BlockLimitExceededError
  | FeeCalculationError
  | HostApiError
  | NetworkIdNotString
  | GetTransactionContextError
  | ContractNotPresent
  | BeneficiaryNotFound
  | TransactionVersionNotActive

datatype midnight_event =
    ContractCall hash "u8 list"
  | ContractDeploy hash "u8 list"
  | TxApplied hash
  | ContractMaintain hash "u8 list"
  | PayoutMinted u128 "u8 list"
  | ClaimRewardsEvent hash u128
  | UnshieldedTokens "UtxoInfo list" "UtxoInfo list"
  | TxPartialSuccess hash
  | SystemTransactionApplied hash "u8 list"

datatype system_error =
    SystemTransactionNotAllowedForGovernance
  | Sys_Deserialization DeserializationError
  | Sys_Serialization SerializationError
  | Sys_Transaction TransactionError
  | Sys_LedgerCacheError
  | Sys_NoLedgerState
  | Sys_LedgerStateScaleDecodingError
  | Sys_ContractCallCostError
  | Sys_BlockLimitExceededError
  | Sys_FeeCalculationError
  | Sys_HostApiError
  | Sys_GetTransactionContextError
  | Sys_ContractNotPresent
  | Sys_BeneficiaryNotFound
  | Sys_TransactionVersionNotActive

text \<open>A dispatched call fails with an error of its pallet or because of its origin.\<close>

datatype 'e dispatch_error = BadOrigin | Module 'e

datatype midnight_call = send_mn_transaction_call "u8 list" | set_tx_size_weight_call weight

datatype TransactionValidityError = CustomInvalid u8 | InvalidExhaustsResources

record ValidTransaction =
  provides :: "string \<times> hash"
  longevity :: u64

datatype DispatchClass = Normal | Operational | Mandatory

text \<open>
  FRAME's view of weights: the dispatch class and weight of a call, the limits
  of a class, and the consumed weight of a block with its accounting.
\<close>

record 'w frame_weights =
  class_limits :: "DispatchClass \<Rightarrow> weight \<times> weight option \<times> weight option"
  max_block :: weight
  accrue :: "'w \<Rightarrow> weight \<Rightarrow> DispatchClass \<Rightarrow> 'w option"
  class_weight :: "'w \<Rightarrow> DispatchClass \<Rightarrow> weight"
  total_weight :: "'w \<Rightarrow> weight"
  db_write :: weight

record ('st, 'tx, 'vt, 'k, 'w) midnight_config =
  ledger_lib :: "('st, 'tx, 'vt, 'k) mn_ledger"
  tblock_correction :: "TBlockCorrection option"
  SlotDuration :: u64
  spec_version :: u32
  frame :: "'w frame_weights"

record ('st, 'vt, 'k, 'w) runtime =
  ledger_host :: "('st, 'vt, 'k) host"
  StateKey :: "u8 list"
  ParentTimestamp :: u64
  NetworkId :: string
  MemoActivationHeight :: u64
  ConfigurableTransactionSizeWeight :: weight
  ConfigurableOnInitializeWeight :: weight
  ConfigurableOnRuntimeUpgradeWeight :: weight
  MaxSkippedSlots :: u8
  deposited :: "midnight_event list"
  block_number :: u32
  parent_hash :: "u8 list"
  timestamp_now :: u64
  block_weight :: 'w

section \<open>Errors\<close>

fun midnight_error_from :: "LedgerApiError \<Rightarrow> midnight_error" where
  "midnight_error_from (Le_Deserialization e) = Deserialization e"
| "midnight_error_from (Le_Serialization e) = Serialization e"
| "midnight_error_from (Le_Transaction e) = Transaction e"
| "midnight_error_from Le_LedgerCacheError = LedgerCacheError"
| "midnight_error_from Le_NoLedgerState = NoLedgerState"
| "midnight_error_from Le_LedgerStateScaleDecodingError = LedgerStateScaleDecodingError"
| "midnight_error_from Le_ContractCallCostError = ContractCallCostError"
| "midnight_error_from Le_BlockLimitExceededError = BlockLimitExceededError"
| "midnight_error_from Le_FeeCalculationError = FeeCalculationError"
| "midnight_error_from Le_HostApiError = HostApiError"
| "midnight_error_from Le_GetTransactionContextError = GetTransactionContextError"
| "midnight_error_from Le_ContractNotPresent = ContractNotPresent"
| "midnight_error_from Le_BeneficiaryNotFound = BeneficiaryNotFound"
| "midnight_error_from Le_TransactionVersionNotActive = TransactionVersionNotActive"

fun system_error_from :: "LedgerApiError \<Rightarrow> system_error" where
  "system_error_from (Le_Deserialization e) = Sys_Deserialization e"
| "system_error_from (Le_Serialization e) = Sys_Serialization e"
| "system_error_from (Le_Transaction e) = Sys_Transaction e"
| "system_error_from Le_LedgerCacheError = Sys_LedgerCacheError"
| "system_error_from Le_NoLedgerState = Sys_NoLedgerState"
| "system_error_from Le_LedgerStateScaleDecodingError = Sys_LedgerStateScaleDecodingError"
| "system_error_from Le_ContractCallCostError = Sys_ContractCallCostError"
| "system_error_from Le_BlockLimitExceededError = Sys_BlockLimitExceededError"
| "system_error_from Le_FeeCalculationError = Sys_FeeCalculationError"
| "system_error_from Le_HostApiError = Sys_HostApiError"
| "system_error_from Le_GetTransactionContextError = Sys_GetTransactionContextError"
| "system_error_from Le_ContractNotPresent = Sys_ContractNotPresent"
| "system_error_from Le_BeneficiaryNotFound = Sys_BeneficiaryNotFound"
| "system_error_from Le_TransactionVersionNotActive = Sys_TransactionVersionNotActive"

section \<open>Contexts\<close>

definition consensus_context :: "('st, 'vt, 'k, 'w) runtime \<Rightarrow> ConsensusContext" where
  "consensus_context r = \<lparr>block_height = ucast (block_number r), memo_activation_height = MemoActivationHeight r\<rparr>"

definition get_block_context :: "('st, 'vt, 'k, 'w) runtime \<Rightarrow> BlockContext" where
  "get_block_context r = \<lparr>tblock = timestamp_now r div 1000, tblock_err = 30,
     parent_block_hash = parent_hash r, last_block_time = ParentTimestamp r\<rparr>"

definition mut_ledger_state ::
  "(u8 list \<Rightarrow> (('st, 'vt, 'k) host, 'e, u8 list \<times> 'a) st_result) \<Rightarrow> (('st, 'vt, 'k, 'w) runtime, 'e, 'a) st_result" where
  "mut_ledger_state f r =
    (case f (StateKey r) (ledger_host r) of
       (Inl e, h) \<Rightarrow> (Inl e, r\<lparr>ledger_host := h\<rparr>)
     | (Inr (new_state_key, a), h) \<Rightarrow> (Inr a, r\<lparr>ledger_host := h, StateKey := new_state_key\<rparr>))"

section \<open>Genesis and hooks\<close>

definition StateKeyLength :: nat where "StateKeyLength = 1065"
definition MaxNetworkIdLength :: nat where "MaxNetworkIdLength = 64"

definition initialize_state :: "string \<Rightarrow> u8 list \<Rightarrow> ('st, 'vt, 'k, 'w) runtime \<Rightarrow> ('st, 'vt, 'k, 'w) runtime option" where
  "initialize_state network_id state_key r =
    (if length state_key \<le> StateKeyLength \<and> length network_id \<le> MaxNetworkIdLength
     then Some (r\<lparr>StateKey := state_key, NetworkId := network_id\<rparr>) else None)"

definition genesis_build ::
  "string \<Rightarrow> u8 list \<Rightarrow> u64 \<Rightarrow> ('st, 'vt, 'k, 'w) runtime \<Rightarrow> ('st, 'vt, 'k, 'w) runtime option" where
  "genesis_build network_id genesis_state_key activation r =
    map_option (\<lambda>r. r\<lparr>MemoActivationHeight := activation\<rparr>) (initialize_state network_id genesis_state_key r)"

definition on_initialize :: "('st, 'vt, 'k, 'w) runtime \<Rightarrow> weight \<times> ('st, 'vt, 'k, 'w) runtime" where
  "on_initialize r = (ConfigurableOnInitializeWeight r, r\<lparr>ParentTimestamp := timestamp_now r div 1000\<rparr>)"

definition on_runtime_upgrade :: "('st, 'vt, 'k, 'w) runtime \<Rightarrow> weight \<times> ('st, 'vt, 'k, 'w) runtime" where
  "on_runtime_upgrade r = (ConfigurableOnRuntimeUpgradeWeight r, r)"

definition on_finalize ::
  "('st, 'tx, 'vt, 'k, 'w) midnight_config \<Rightarrow> ('st, 'vt, 'k, 'w) runtime \<Rightarrow> ('st, 'vt, 'k, 'w) runtime option" where
  "on_finalize cfg r =
    (case apply_post_block_update (ledger_lib cfg) (StateKey r) (get_block_context r) (ledger_host r) of
       Some (Inr root, h) \<Rightarrow> Some (r\<lparr>ledger_host := h, StateKey := root\<rparr>)
     | _ \<Rightarrow> None)"

section \<open>Calls\<close>

definition report_events :: "TransactionAppliedStateRoot \<Rightarrow> midnight_event list" where
  "report_events result =
    map (ContractCall (tx_hash result)) (call_addresses result)
    @ map (ContractDeploy (tx_hash result)) (deploy_addresses result)
    @ map (ContractMaintain (tx_hash result)) (maintain_addresses result)
    @ map (ClaimRewardsEvent (tx_hash result)) (claim_rewards result)
    @ (if unshielded_utxos_created result \<noteq> [] \<or> unshielded_utxos_spent result \<noteq> []
       then [UnshieldedTokens (unshielded_utxos_spent result) (unshielded_utxos_created result)] else [])
    @ [if all_applied result then TxApplied (tx_hash result) else TxPartialSuccess (tx_hash result)]"

definition send_mn_transaction ::
  "('st, 'tx, 'vt, 'k, 'w) midnight_config \<Rightarrow> u8 list \<Rightarrow> (('st, 'vt, 'k, 'w) runtime, midnight_error, unit) st_result" where
  "send_mn_transaction cfg midnight_tx r =
    (case apply_transaction_v2 (ledger_lib cfg) (tblock_correction cfg) (StateKey r) midnight_tx
            (get_block_context r) (consensus_context r) (spec_version cfg) (ledger_host r) of
       (Inl e, h) \<Rightarrow> (Inl (midnight_error_from e), r\<lparr>ledger_host := h\<rparr>)
     | (Inr result, h) \<Rightarrow> (Inr (), r\<lparr>ledger_host := h, StateKey := state_root result,
         deposited := deposited r @ report_events result\<rparr>))"

definition set_tx_size_weight :: "bool \<Rightarrow> weight \<Rightarrow> (('st, 'vt, 'k, 'w) runtime, midnight_error dispatch_error, unit) st_result" where
  "set_tx_size_weight root new_weight r =
    (if root then (Inr (), r\<lparr>ConfigurableTransactionSizeWeight := new_weight\<rparr>) else (Inl BadOrigin, r))"

definition run_system_transaction ::
  "('st, 'tx, 'vt, 'k, 'w) midnight_config \<Rightarrow> u8 list \<Rightarrow> (('st, 'vt, 'k, 'w) runtime, system_error dispatch_error, hash) st_result" where
  "run_system_transaction cfg system_tx r =
    mut_ledger_state (\<lambda>state_key h.
      case apply_system_transaction (ledger_lib cfg) state_key system_tx (get_block_context r) h of
        (Inl e, h') \<Rightarrow> (Inl (Module (system_error_from e)), h')
      | (Inr result, h') \<Rightarrow> (Inr (system_state_root result, system_tx_hash result), h')) r"

definition deposit_applied :: "u8 list \<Rightarrow> hash \<Rightarrow> (('st, 'vt, 'k, 'w) runtime, system_error dispatch_error, hash) st_result" where
  "deposit_applied system_tx h r = (Inr h, r\<lparr>deposited := deposited r @ [SystemTransactionApplied h system_tx]\<rparr>)"

definition send_mn_system_transaction ::
  "('st, 'tx, 'vt, 'k, 'w) midnight_config \<Rightarrow> bool \<Rightarrow> u8 list \<Rightarrow> (('st, 'vt, 'k, 'w) runtime, system_error dispatch_error, unit) st_result" where
  "send_mn_system_transaction cfg root midnight_system_tx =
    (if \<not> root then st_lift (Inl BadOrigin)
     else if \<not> is_governance_allowed_system_tx (ledger_lib cfg) midnight_system_tx
       then st_lift (Inl (Module SystemTransactionNotAllowedForGovernance))
     else st_bind (run_system_transaction cfg midnight_system_tx) (\<lambda>h.
       st_bind (deposit_applied midnight_system_tx h) (\<lambda>_. st_return ())))"

definition execute_system_transaction ::
  "('st, 'tx, 'vt, 'k, 'w) midnight_config \<Rightarrow> u8 list \<Rightarrow> (('st, 'vt, 'k, 'w) runtime, system_error dispatch_error, hash) st_result" where
  "execute_system_transaction cfg serialized_system_transaction =
    st_bind (run_system_transaction cfg serialized_system_transaction) (deposit_applied serialized_system_transaction)"

section \<open>Weights\<close>

definition EXTRA_WEIGHT_TX_SIZE :: weight where
  "EXTRA_WEIGHT_TX_SIZE = \<lparr>ref_time = 20000000000, proof_size = 0\<rparr>"

definition weight_add :: "weight \<Rightarrow> weight \<Rightarrow> weight" where
  "weight_add a b = \<lparr>ref_time = ref_time a + ref_time b, proof_size = proof_size a + proof_size b\<rparr>"

definition weight_saturating_add :: "weight \<Rightarrow> weight \<Rightarrow> weight" where
  "weight_saturating_add a b = \<lparr>ref_time = saturating_add (ref_time a) (ref_time b),
     proof_size = saturating_add (proof_size a) (proof_size b)\<rparr>"

definition any_gt :: "weight \<Rightarrow> weight \<Rightarrow> bool" where
  "any_gt a b \<longleftrightarrow> ref_time a > ref_time b \<or> proof_size a > proof_size b"

definition get_tx_weight ::
  "('st, 'tx, 'vt, 'k, 'w) midnight_config \<Rightarrow> u8 list \<Rightarrow> ('st, 'vt, 'k, 'w) runtime \<Rightarrow> weight" where
  "get_tx_weight cfg tx r =
    weight_add
      (case fst (get_transaction_cost (ledger_lib cfg) (StateKey r) tx (consensus_context r)
              (ref_time (max_block (frame cfg))) (ledger_host r)) of
         Inr gas_cost \<Rightarrow> \<lparr>ref_time = gas_cost, proof_size = 0\<rparr>
       | Inl _ \<Rightarrow> EXTRA_WEIGHT_TX_SIZE)
      (ConfigurableTransactionSizeWeight r)"

definition get_dispatch_info ::
  "('st, 'tx, 'vt, 'k, 'w) midnight_config \<Rightarrow> midnight_call \<Rightarrow> ('st, 'vt, 'k, 'w) runtime \<Rightarrow> weight \<times> DispatchClass" where
  "get_dispatch_info cfg call r =
    (case call of
       send_mn_transaction_call tx \<Rightarrow> (get_tx_weight cfg tx r, Normal)
     | set_tx_size_weight_call _ \<Rightarrow> (db_write (frame cfg), Operational))"

definition check_weight ::
  "('st, 'tx, 'vt, 'k, 'w) midnight_config \<Rightarrow> midnight_call \<Rightarrow> ('st, 'vt, 'k, 'w) runtime
    \<Rightarrow> (TransactionValidityError, unit) result" where
  "check_weight cfg call r =
    (let (call_weight, cls) = get_dispatch_info cfg call r;
         (base_extrinsic, max_total, reserved) = class_limits (frame cfg) cls;
         extrinsic_weight = weight_saturating_add call_weight base_extrinsic
     in case (max_total, reserved) of
          (Some max_total_limit, Some reserved_limit) \<Rightarrow>
            (case accrue (frame cfg) (block_weight r) extrinsic_weight cls of
               None \<Rightarrow> Inl InvalidExhaustsResources
             | Some all_weight \<Rightarrow>
                (let per_class = class_weight (frame cfg) all_weight cls;
                     class_limit_hit = any_gt per_class max_total_limit;
                     block_limit_hit = any_gt (total_weight (frame cfg) all_weight) (max_block (frame cfg))
                       \<and> any_gt per_class reserved_limit
                 in if \<not> class_limit_hit \<and> \<not> block_limit_hit then Inr () else Inl InvalidExhaustsResources))
        | _ \<Rightarrow> Inr ())"

section \<open>Validation\<close>

definition invalid_transaction :: "u8 \<Rightarrow> TransactionValidityError" where
  "invalid_transaction code = CustomInvalid code"

definition validate_unsigned_at ::
  "('st, 'tx, 'vt, 'k, 'w) midnight_config \<Rightarrow> midnight_call \<Rightarrow> BlockContext \<Rightarrow> ('st, 'vt, 'k, 'w) runtime
    \<Rightarrow> (TransactionValidityError, ValidTransaction) result \<times> ('st, 'vt, 'k) host" where
  "validate_unsigned_at cfg call bc r =
    (case call of
       send_mn_transaction_call midnight_tx \<Rightarrow>
         (case validate_transaction (ledger_lib cfg) (StateKey r) midnight_tx bc (consensus_context r)
                 (spec_version cfg) (ledger_host r) of
            (Inl e, h) \<Rightarrow> (Inl (invalid_transaction (error_code e)), h)
          | (Inr txh, h) \<Rightarrow> (Inr \<lparr>provides = (''Midnight'', txh), longevity = 600\<rparr>, h))
     | _ \<Rightarrow> (Inl (invalid_transaction 0), ledger_host r))"

definition pool_tblock :: "('st, 'tx, 'vt, 'k, 'w) midnight_config \<Rightarrow> ('st, 'vt, 'k, 'w) runtime \<Rightarrow> u64" where
  "pool_tblock cfg r =
    (let slot_duration_secs = SlotDuration cfg div 1000;
         skipped_slots_margin = saturating_mul slot_duration_secs (ucast (MaxSkippedSlots r))
     in saturating_add (saturating_add (tblock (get_block_context r)) slot_duration_secs) skipped_slots_margin)"

definition validate_unsigned ::
  "('st, 'tx, 'vt, 'k, 'w) midnight_config \<Rightarrow> midnight_call \<Rightarrow> ('st, 'vt, 'k, 'w) runtime
    \<Rightarrow> (TransactionValidityError, ValidTransaction) result \<times> ('st, 'vt, 'k) host" where
  "validate_unsigned cfg call r =
    validate_unsigned_at cfg call ((get_block_context r)\<lparr>tblock := pool_tblock cfg r\<rparr>) r"

definition pre_dispatch ::
  "('st, 'tx, 'vt, 'k, 'w) midnight_config \<Rightarrow> midnight_call \<Rightarrow> (('st, 'vt, 'k, 'w) runtime, TransactionValidityError, unit) st_result" where
  "pre_dispatch cfg call r =
    (case call of
       send_mn_transaction_call midnight_tx \<Rightarrow>
         (case check_weight cfg call r of
            Inl e \<Rightarrow> (Inl e, r)
          | Inr _ \<Rightarrow>
             (case validate_guaranteed_execution (ledger_lib cfg) (tblock_correction cfg) (StateKey r) midnight_tx
                     (get_block_context r) (consensus_context r) (spec_version cfg) (ledger_host r) of
                (Inl e, h) \<Rightarrow> (Inl (invalid_transaction (error_code e)), r\<lparr>ledger_host := h\<rparr>)
              | (Inr _, h) \<Rightarrow> (Inr (), r\<lparr>ledger_host := h\<rparr>)))
     | _ \<Rightarrow> (Inl (invalid_transaction 0), r))"

section \<open>The chain\<close>

text \<open>
  A chain goes through blocks: \<open>on_initialize\<close>, the timestamp inherent, then
  transactions that passed \<open>pre_dispatch\<close> and system transactions in any order,
  then \<open>on_finalize\<close>.  At any time the host may serve the transaction pool, other
  branches of the chain or the expiry of cache entries; none of these removes a
  ledger from the arena.  \<open>included\<close> lists the applied transactions with the
  height of their block.
\<close>

datatype block_phase = Idle | Initialized | Open

record ('st, 'vt, 'k, 'w) chain =
  rt :: "('st, 'vt, 'k, 'w) runtime"
  phase :: block_phase
  included :: "(u64 \<times> u8 list) list"

inductive chain_step ::
  "('st, 'tx, 'vt, 'k, 'w) midnight_config \<Rightarrow> ('st, 'vt, 'k, 'w) chain \<Rightarrow> ('st, 'vt, 'k, 'w) chain \<Rightarrow> bool"
  for cfg where
  chain_begin: "phase c = Idle \<Longrightarrow> length ph = 32 \<Longrightarrow>
    chain_step cfg c (c\<lparr>phase := Initialized,
      rt := snd (on_initialize ((rt c)\<lparr>block_number := block_number (rt c) + 1, parent_hash := ph, block_weight := w\<rparr>))\<rparr>)"
| chain_time: "phase c = Initialized \<Longrightarrow> timestamp_now (rt c) \<le> t \<Longrightarrow>
    chain_step cfg c (c\<lparr>phase := Open, rt := (rt c)\<lparr>timestamp_now := t\<rparr>\<rparr>)"
| chain_include: "phase c = Open \<Longrightarrow> pre_dispatch cfg (send_mn_transaction_call tx) (rt c) = (Inr (), r1) \<Longrightarrow>
    send_mn_transaction cfg tx r1 = (res, r2) \<Longrightarrow>
    chain_step cfg c (c\<lparr>rt := r2\<lparr>block_weight := w\<rparr>,
      included := (if is_ok res then included c @ [(block_height (consensus_context r1), tx)] else included c)\<rparr>)"
| chain_execute: "phase c \<noteq> Idle \<Longrightarrow>
    chain_step cfg c (c\<lparr>rt := snd (execute_system_transaction cfg b (rt c))\<rparr>)"
| chain_governance: "phase c \<noteq> Idle \<Longrightarrow>
    chain_step cfg c (c\<lparr>rt := snd (send_mn_system_transaction cfg root b (rt c))\<rparr>)"
| chain_weight: "phase c \<noteq> Idle \<Longrightarrow>
    chain_step cfg c (c\<lparr>rt := snd (set_tx_size_weight root w (rt c))\<rparr>)"
| chain_host: "arena (ledger_host (rt c)) \<subseteq>\<^sub>m arena h \<Longrightarrow>
    chain_step cfg c (c\<lparr>rt := (rt c)\<lparr>ledger_host := h\<rparr>\<rparr>)"
| chain_finalize: "phase c = Open \<Longrightarrow> on_finalize cfg (rt c) = Some r \<Longrightarrow>
    chain_step cfg c (c\<lparr>phase := Idle, rt := r\<rparr>)"

text \<open>
  A chain starts from a genesis whose ledger is in the arena at the start of a
  block, and before any transaction.
\<close>

definition chain_init ::
  "('st, 'tx, 'vt, 'k, 'w) midnight_config \<Rightarrow> u64 \<Rightarrow> ('st, 'vt, 'k, 'w) chain \<Rightarrow> bool" where
  "chain_init cfg activation c \<longleftrightarrow> phase c = Idle \<and> included c = [] \<and> ParentTimestamp (rt c) = 0
    \<and> (\<exists>network_id key r st. genesis_build network_id key activation r = Some (rt c)
         \<and> get_ledger (ledger_lib cfg) key (ledger_host r) = Inr (ledger_new st))"

text \<open>
  Documented of the library: arena keys survive serialization, a cost
  normalizes when it is within the limits, and a transaction does not change
  the block limits, which only a system transaction does.
\<close>

definition lib_laws :: "('st, 'tx, 'vt, 'k) mn_ledger \<Rightarrow> bool" where
  "lib_laws lib \<longleftrightarrow> (\<forall>k. \<exists>bs. encode_key lib k = Some bs \<and> decode_key lib bs = Some k)
    \<and> normalizes lib
    \<and> (\<forall>st vt ctx. block_limits lib (fst (apply_tx lib st vt ctx)) = block_limits lib st)"

definition ledger_ok ::
  "('st, 'tx, 'vt, 'k, 'w) midnight_config \<Rightarrow> block_phase \<Rightarrow> ('st, 'vt, 'k, 'w) runtime \<Rightarrow> bool" where
  "ledger_ok cfg ph r \<longleftrightarrow> (\<exists>l. get_ledger (ledger_lib cfg) (StateKey r) (ledger_host r) = Inr l
     \<and> cost_le (block_fullness l) (block_limits (ledger_lib cfg) (state l)) \<and> (ph = Idle \<longrightarrow> is_block_start l))"

definition chain_inv ::
  "('st, 'tx, 'vt, 'k, 'w) midnight_config \<Rightarrow> u64 \<Rightarrow> ('st, 'vt, 'k, 'w) chain \<Rightarrow> bool" where
  "chain_inv cfg activation c \<longleftrightarrow> ledger_ok cfg (phase c) (rt c)
    \<and> MemoActivationHeight (rt c) = activation
    \<and> list_all (\<lambda>(n, b). memo_encoded (ledger_lib cfg) b \<longrightarrow> activation \<le> n) (included c)
    \<and> ParentTimestamp (rt c) \<le> timestamp_now (rt c) div 1000"

section \<open>Lemmas\<close>

lemma cost_le_zero [simp]: "cost_le cost_zero l"
  by (simp add: cost_le_def cost_zero_def)

lemma key_roundtrip:
  "lib_laws lib \<Longrightarrow> encode_key lib k = Some bs \<Longrightarrow> decode_key lib bs = Some k"
  unfolding lib_laws_def by (metis option.inject)

lemma apply_verified_limits:
  assumes "lib_laws lib" "apply_verified_transaction lib l tx vt ctx = Inr (l', stage)"
  shows "cost_le (block_fullness l') (block_limits lib (state l'))"
proof -
  have "block_limits lib (state l') = block_limits lib (state l)"
    using assms by (auto simp: apply_verified_transaction_def Let_def bind_result_Inr_iff lib_laws_def
        split: option.splits prod.splits TransactionResult.splits) (metis fst_conv)+
  then show ?thesis
    using apply_verified_fullness [OF assms(2)] assms(1) by (simp add: lib_laws_def)
qed

lemma get_ledger_extends:
  "get_ledger lib k h = Inr l \<Longrightarrow> arena h \<subseteq>\<^sub>m arena h' \<Longrightarrow> get_ledger lib k h' = Inr l"
  by (auto simp: get_ledger_def ok_or_def map_le_def dom_def split: option.splits)

lemma get_ledger_arena: "arena h' = arena h \<Longrightarrow> get_ledger lib k h' = get_ledger lib k h"
  by (simp add: get_ledger_def split: option.split)

text \<open>The storage a call may change, besides the ledger's key and the events.\<close>

definition same_storage :: "('st, 'vt, 'k, 'w) runtime \<Rightarrow> ('st, 'vt, 'k, 'w) runtime \<Rightarrow> bool" where
  "same_storage r r' \<longleftrightarrow> (\<exists>h k evs. r' = r\<lparr>ledger_host := h, StateKey := k, deposited := evs\<rparr>)"

lemma same_storage_refl [simp, intro]: "same_storage r r"
  unfolding same_storage_def by (intro exI [of _ "ledger_host r"] exI [of _ "StateKey r"] exI [of _ "deposited r"]) simp

lemma same_storage_updates [simp]:
  "same_storage r (r'\<lparr>ledger_host := h\<rparr>) = same_storage r r'" "same_storage r (r'\<lparr>StateKey := k\<rparr>) = same_storage r r'"
  "same_storage r (r'\<lparr>deposited := evs\<rparr>) = same_storage r r'"
  by (cases r; cases r'; simp add: same_storage_def)+

lemma same_storage_fields:
  assumes "same_storage r r'"
  shows "MemoActivationHeight r' = MemoActivationHeight r" "ParentTimestamp r' = ParentTimestamp r"
    "timestamp_now r' = timestamp_now r" "block_number r' = block_number r" "parent_hash r' = parent_hash r"
  using assms by (auto simp: same_storage_def)

lemma ledger_ok_phase: "ph \<noteq> Idle \<Longrightarrow> ledger_ok cfg ph r = ledger_ok cfg Open r"
  by (simp add: ledger_ok_def)

lemma ledger_ok_Open: "ledger_ok cfg ph r \<Longrightarrow> ledger_ok cfg Open r"
  by (auto simp: ledger_ok_def)

lemma send_mn_transaction_effect:
  assumes "lib_laws (ledger_lib cfg)" "ledger_ok cfg Open r" "send_mn_transaction cfg tx r = (res, r')"
  shows "ledger_ok cfg Open r'" "same_storage r r'"
    "is_ok res \<Longrightarrow> memo_encoded (ledger_lib cfg) tx \<Longrightarrow> memo_active (consensus_context r)"
proof -
  let ?lib = "ledger_lib cfg"
  obtain q h where run: "apply_transaction ?lib (tblock_correction cfg) (StateKey r) tx (get_block_context r)
      (consensus_context r) True (spec_version cfg) (ledger_host r) = (q, h)"
    by fastforce
  note eff = apply_transaction_effect [OF key_roundtrip [OF assms(1)] run]
  have "ledger_ok cfg Open r' \<and> same_storage r r'
    \<and> (is_ok res \<and> memo_encoded ?lib tx \<longrightarrow> memo_active (consensus_context r))"
  proof (cases q)
    case (Inl e)
    then have "get_ledger ?lib (StateKey r) h = get_ledger ?lib (StateKey r) (ledger_host r)"
      using eff by (intro get_ledger_arena) simp
    moreover have "res = Inl (midnight_error_from e)" "r' = r\<lparr>ledger_host := h\<rparr>"
      using Inl assms(3) run by (simp_all add: send_mn_transaction_def apply_transaction_v2_def)
    ultimately show ?thesis
      using assms(2) by (simp add: ledger_ok_def)
  next
    case (Inr ev)
    then obtain tx' l vt ctx l' stage where ev: "decode_transaction ?lib tx (consensus_context r) = Inr tx'"
      "apply_verified_transaction ?lib l tx' vt ctx = Inr (l', stage)" "get_ledger ?lib (state_root ev) h = Inr l'"
      using eff by auto
    have "memo_encoded ?lib tx \<longrightarrow> memo_active (consensus_context r)"
      using ev(1) decode_transaction_gate [of ?lib tx "consensus_context r"] by (auto split: if_splits)
    moreover have "r' = r\<lparr>ledger_host := h, StateKey := state_root ev, deposited := deposited r @ report_events ev\<rparr>"
      using Inr assms(3) run by (simp add: send_mn_transaction_def apply_transaction_v2_def)
    ultimately show ?thesis
      using ev(3) apply_verified_limits [OF assms(1) ev(2)] by (simp add: ledger_ok_def)
  qed
  then show "ledger_ok cfg Open r'" "same_storage r r'"
    "is_ok res \<Longrightarrow> memo_encoded ?lib tx \<Longrightarrow> memo_active (consensus_context r)"
    by auto
qed

lemma run_system_effect:
  assumes "lib_laws (ledger_lib cfg)" "ledger_ok cfg Open r" "run_system_transaction cfg b r = (res, r')"
  shows "ledger_ok cfg Open r' \<and> same_storage r r' \<and> deposited r' = deposited r"
proof -
  obtain q h where run: "apply_system_transaction (ledger_lib cfg) (StateKey r) b (get_block_context r) (ledger_host r) = (q, h)"
    by fastforce
  note eff = apply_system_effect [OF key_roundtrip [OF assms(1)] run]
  show ?thesis
  proof (cases q)
    case (Inl e)
    then show ?thesis
      using eff assms(2,3) run by (auto simp: run_system_transaction_def mut_ledger_state_def)
  next
    case (Inr ev)
    then obtain tx l l' where ev: "ledger_apply_system_tx (ledger_lib cfg) l tx (tblock (get_block_context r)) = Inr l'"
      "get_ledger (ledger_lib cfg) (system_state_root ev) h = Inr l'"
      using eff by auto
    then show ?thesis
      using apply_system_fullness [OF ev(1)] assms(1,3) run Inr
      by (auto simp: run_system_transaction_def mut_ledger_state_def ledger_ok_def lib_laws_def)
  qed
qed

lemma ledger_ok_deposit [simp]: "ledger_ok cfg ph (r\<lparr>deposited := evs\<rparr>) = ledger_ok cfg ph r"
  by (simp add: ledger_ok_def)

lemma execute_effect:
  assumes "lib_laws (ledger_lib cfg)" "ledger_ok cfg Open r"
  shows "ledger_ok cfg Open (snd (execute_system_transaction cfg b r))
    \<and> same_storage r (snd (execute_system_transaction cfg b r))"
proof -
  obtain res r' where run: "run_system_transaction cfg b r = (res, r')" by fastforce
  show ?thesis
    using run_system_effect [OF assms run]
    by (auto simp: execute_system_transaction_def st_bind_def run deposit_applied_def split: sum.split)
qed

lemma governance_effect:
  assumes "lib_laws (ledger_lib cfg)" "ledger_ok cfg Open r"
  shows "ledger_ok cfg Open (snd (send_mn_system_transaction cfg root b r))
    \<and> same_storage r (snd (send_mn_system_transaction cfg root b r))"
proof -
  obtain res r' where run: "run_system_transaction cfg b r = (res, r')" by fastforce
  show ?thesis
    using run_system_effect [OF assms run] assms(2)
    by (auto simp: send_mn_system_transaction_def st_bind_def run deposit_applied_def split: sum.split)
qed

lemma pre_dispatch_effect:
  assumes "pre_dispatch cfg (send_mn_transaction_call tx) r = (Inr (), r1)"
  obtains h where "r1 = r\<lparr>ledger_host := h\<rparr>" "arena h = arena (ledger_host r)"
    "validate_guaranteed_execution (ledger_lib cfg) (tblock_correction cfg) (StateKey r) tx
       (get_block_context r) (consensus_context r) (spec_version cfg) (ledger_host r) = (Inr (), h)"
proof -
  obtain q h where v: "validate_guaranteed_execution (ledger_lib cfg) (tblock_correction cfg) (StateKey r) tx
       (get_block_context r) (consensus_context r) (spec_version cfg) (ledger_host r) = (q, h)"
    by fastforce
  then have "arena h = arena (ledger_host r)"
    by (metis snd_conv validate_guaranteed_arena)
  with v assms that show thesis
    by (auto simp: pre_dispatch_def split: sum.splits)
qed

lemma finalize_effect:
  assumes "lib_laws (ledger_lib cfg)" "ledger_ok cfg ph r"
  obtains h k where "on_finalize cfg r = Some (r\<lparr>ledger_host := h, StateKey := k\<rparr>)"
    "ledger_ok cfg Idle (r\<lparr>ledger_host := h, StateKey := k\<rparr>)"
proof -
  obtain l where l: "get_ledger (ledger_lib cfg) (StateKey r) (ledger_host r) = Inr l"
    using assms(2) by (auto simp: ledger_ok_def)
  have laws: "\<exists>bs. encode_key (ledger_lib cfg) k = Some bs \<and> decode_key (ledger_lib cfg) bs = Some k"
    "normalizes (ledger_lib cfg)" for k
    using assms(1) by (simp_all add: lib_laws_def)
  obtain root h l' where "apply_post_block_update (ledger_lib cfg) (StateKey r) (get_block_context r) (ledger_host r) = Some (Inr root, h)"
    "get_ledger (ledger_lib cfg) root h = Inr l'" "block_fullness l' = cost_zero"
    using post_block_effect [OF laws l] by metis
  then show thesis
    by (intro that [where h = h and k = root]) (simp_all add: on_finalize_def ledger_ok_def is_block_start_def cost_is_zero_iff)
qed

lemma chain_inv_storage:
  assumes "chain_inv cfg a c" "ledger_ok cfg (phase c) r'" "same_storage (rt c) r'"
  shows "chain_inv cfg a (c\<lparr>rt := r'\<rparr>)" "chain_inv cfg a (c\<lparr>rt := r'\<lparr>block_weight := w\<rparr>\<rparr>)"
  using assms same_storage_fields [OF assms(3)] by (simp_all add: chain_inv_def ledger_ok_def)

lemma chain_inv_call:
  assumes "chain_inv cfg a c" "phase c \<noteq> Idle"
    and "ledger_ok cfg Open (rt c) \<Longrightarrow> ledger_ok cfg Open r' \<and> same_storage (rt c) r'"
  shows "chain_inv cfg a (c\<lparr>rt := r'\<rparr>)"
proof -
  have "ledger_ok cfg Open (rt c)"
    using assms(1) by (auto simp: chain_inv_def dest: ledger_ok_Open)
  then show ?thesis
    using assms(3) by (intro chain_inv_storage(1) [OF assms(1)]) (simp_all add: ledger_ok_phase [OF assms(2)])
qed

lemma chain_step_inv:
  assumes laws: "lib_laws (ledger_lib cfg)" and inv: "chain_inv cfg a c" and step: "chain_step cfg c c'"
  shows "chain_inv cfg a c'"
  using step
proof (cases rule: chain_step.cases)
  case (chain_begin ph w)
  then show ?thesis
    using inv by (auto simp: chain_inv_def ledger_ok_def on_initialize_def)
next
  case (chain_time t)
  then have "timestamp_now (rt c) div 1000 \<le> t div 1000"
    by (simp add: word_le_nat_alt unat_div div_le_mono)
  then show ?thesis
    using chain_time inv by (auto simp: chain_inv_def ledger_ok_def)
next
  case (chain_include tx r1 res r2 w)
  obtain h where r1: "r1 = (rt c)\<lparr>ledger_host := h\<rparr>" "arena h = arena (ledger_host (rt c))"
    using pre_dispatch_effect [OF chain_include(3)] by metis
  have ok: "ledger_ok cfg Open r1"
    using inv chain_include(2) get_ledger_arena [OF r1(2), of "ledger_lib cfg" "StateKey (rt c)"]
    by (simp add: chain_inv_def ledger_ok_def r1(1))
  note eff = send_mn_transaction_effect [OF laws ok chain_include(4)]
  have "chain_inv cfg a (c\<lparr>rt := r2\<lparr>block_weight := w\<rparr>\<rparr>)"
    using eff(1,2) chain_include(2) by (intro chain_inv_storage [OF inv]) (simp_all add: r1(1) same_storage_def)
  moreover have "a \<le> block_height (consensus_context r1)" if "is_ok res" "memo_encoded (ledger_lib cfg) tx"
    using eff(3) [OF that] inv by (simp add: chain_inv_def memo_active_def consensus_context_def r1(1))
  ultimately show ?thesis
    unfolding chain_include(1) by (simp add: chain_inv_def ledger_ok_def)
next
  case (chain_execute b)
  then show ?thesis
    using chain_inv_call [OF inv chain_execute(2) execute_effect [OF laws]] by simp
next
  case (chain_governance root b)
  then show ?thesis
    using chain_inv_call [OF inv chain_governance(2) governance_effect [OF laws]] by simp
next
  case (chain_weight root w)
  then show ?thesis
    using inv by (simp add: chain_inv_def ledger_ok_def set_tx_size_weight_def)
next
  case (chain_host h)
  then show ?thesis
    using inv get_ledger_extends [OF _ chain_host(2)] by (auto simp: chain_inv_def ledger_ok_def)
next
  case (chain_finalize r)
  obtain h k where "on_finalize cfg (rt c) = Some ((rt c)\<lparr>ledger_host := h, StateKey := k\<rparr>)"
    "ledger_ok cfg Idle ((rt c)\<lparr>ledger_host := h, StateKey := k\<rparr>)"
    using inv finalize_effect [OF laws, of "phase c" "rt c"] unfolding chain_inv_def by metis
  then show ?thesis
    using inv chain_finalize by (simp add: chain_inv_def)
qed

lemma chain_init_inv:
  assumes "chain_init cfg a c"
  shows "chain_inv cfg a c"
proof -
  obtain network_id key r st where g: "genesis_build network_id key a r = Some (rt c)"
    "get_ledger (ledger_lib cfg) key (ledger_host r) = Inr (ledger_new st)"
    using assms by (auto simp: chain_init_def)
  then have "rt c = r\<lparr>StateKey := key, NetworkId := network_id, MemoActivationHeight := a\<rparr>"
    by (auto simp: genesis_build_def initialize_state_def split: if_splits)
  then show ?thesis
    using assms g(2) by (simp add: chain_init_def chain_inv_def ledger_ok_def is_block_start_def cost_is_zero_iff)
qed

interpretation mc: transition_invariant "chain_init cfg a" "chain_step cfg"
  "\<lambda>c. lib_laws (ledger_lib cfg) \<longrightarrow> chain_inv cfg a c"
  by unfold_locales (use chain_init_inv chain_step_inv in blast)+

text \<open>
  The pallet of system transactions is an executor: what it applied can be read
  off the events it deposited.
\<close>

definition applied_system :: "('st, 'vt, 'k, 'w) runtime \<Rightarrow> u8 list list" where
  "applied_system r = concat (map (\<lambda>ev. case ev of SystemTransactionApplied _ b \<Rightarrow> [b] | _ \<Rightarrow> []) (deposited r))"

lemma run_system_deposits: "run_system_transaction cfg b r = (res, r') \<Longrightarrow> deposited r' = deposited r"
  by (auto simp: run_system_transaction_def mut_ledger_state_def split: sum.splits prod.splits)

interpretation ms: system_executor "execute_system_transaction cfg" applied_system
proof unfold_locales
  show "execute_system_transaction cfg b r = (Inr h, r') \<Longrightarrow> applied_system r' = applied_system r @ [b]" for b r h r'
    by (auto simp: execute_system_transaction_def st_bind_def deposit_applied_def applied_system_def
        split: sum.splits prod.splits dest: run_system_deposits)
  show "execute_system_transaction cfg b r = (Inl e, r') \<Longrightarrow> applied_system r' = applied_system r" for b r e r'
    by (auto simp: execute_system_transaction_def st_bind_def deposit_applied_def applied_system_def
        split: sum.splits prod.splits dest: run_system_deposits)
qed

section \<open>A concrete chain\<close>

text \<open>
  A chain on the concrete library: memos are active from block 1, and block 1
  includes one memo-capable transaction.
\<close>

definition mx_cfg :: "(u8, u8, u8, u8 list, weight) midnight_config" where
  "mx_cfg = \<lparr>ledger_lib = lx_lib, tblock_correction = None, SlotDuration = 6000, spec_version = 1,
     frame = \<lparr>class_limits = (\<lambda>_. (\<lparr>ref_time = 1, proof_size = 0\<rparr>, None, None)), max_block = \<lparr>ref_time = 100, proof_size = 100\<rparr>,
       accrue = (\<lambda>w _ _. Some w), class_weight = (\<lambda>w _. w), total_weight = id, db_write = \<lparr>ref_time = 1, proof_size = 0\<rparr>\<rparr>\<rparr>"

definition mx_zero :: weight where
  "mx_zero = \<lparr>ref_time = 0, proof_size = 0\<rparr>"

definition mx_genesis :: "(u8, u8, u8 list, weight) runtime" where
  "mx_genesis = \<lparr>ledger_host = lx_host, StateKey = [5], ParentTimestamp = 0, NetworkId = ''dev'', MemoActivationHeight = 1,
     ConfigurableTransactionSizeWeight = mx_zero, ConfigurableOnInitializeWeight = mx_zero,
     ConfigurableOnRuntimeUpgradeWeight = mx_zero, MaxSkippedSlots = 1, deposited = [], block_number = 0,
     parent_hash = [], timestamp_now = 94000, block_weight = mx_zero\<rparr>"

definition mx_open :: "(u8, u8, u8 list, weight) chain" where
  "mx_open = \<lparr>rt = mx_genesis\<lparr>ParentTimestamp := 94, block_number := 1, parent_hash := replicate 32 0, timestamp_now := 100000\<rparr>,
     phase = Open, included = []\<rparr>"

lemma lx_laws: "lib_laws lx_lib"
  by (simp add: lib_laws_def normalizes_def lx_lib_def)

lemma mx_init: "chain_init mx_cfg 1 \<lparr>rt = mx_genesis, phase = Idle, included = []\<rparr>"
proof -
  have "genesis_build ''dev'' [5] 1 mx_genesis = Some mx_genesis"
    by (simp add: genesis_build_def initialize_state_def StateKeyLength_def MaxNetworkIdLength_def mx_genesis_def)
  moreover have "get_ledger (ledger_lib mx_cfg) [5] (ledger_host mx_genesis) = Inr (ledger_new 5)"
    using lx_ledger by (simp add: mx_cfg_def mx_genesis_def)
  moreover have "ParentTimestamp mx_genesis = 0"
    by (simp add: mx_genesis_def)
  ultimately show ?thesis
    unfolding chain_init_def by auto
qed

lemma mx_open_reachable: "reachable (chain_init mx_cfg 1) (chain_step mx_cfg) mx_open"
proof -
  let ?c0 = "\<lparr>rt = mx_genesis, phase = Idle, included = []\<rparr> :: (u8, u8, u8 list, weight) chain"
  let ?c1 = "\<lparr>rt = mx_genesis\<lparr>ParentTimestamp := 94, block_number := 1, parent_hash := replicate 32 0\<rparr>,
     phase = Initialized, included = []\<rparr> :: (u8, u8, u8 list, weight) chain"
  have "reachable (chain_init mx_cfg 1) (chain_step mx_cfg) ?c0"
    by (rule reachable_init) (rule mx_init)
  moreover have "chain_step mx_cfg ?c0 ?c1"
    using chain_begin [of ?c0 "replicate 32 0" mx_cfg mx_zero] by (simp add: on_initialize_def mx_genesis_def)
  moreover have "chain_step mx_cfg ?c1 mx_open"
    using chain_time [of ?c1 100000 mx_cfg] by (simp add: mx_open_def mx_genesis_def word_le_nat_alt)
  ultimately show ?thesis
    by (blast intro: reachable_step)
qed

lemma mx_context:
  "get_block_context (rt mx_open) = lx_block" "memo_active (consensus_context (rt mx_open))"
  by (simp_all add: get_block_context_def consensus_context_def memo_active_def mx_open_def mx_genesis_def lx_block_def)

lemma mx_frame:
  "ledger_lib mx_cfg = lx_lib" "tblock_correction mx_cfg = None" "spec_version mx_cfg = 1"
  "class_limits (frame mx_cfg) cls = (\<lparr>ref_time = 1, proof_size = 0\<rparr>, None, None)"
  "StateKey (rt mx_open) = [5]" "ledger_host (rt mx_open) = lx_host" "phase mx_open = Open" "included mx_open = []"
  by (simp_all add: mx_cfg_def mx_open_def mx_genesis_def)

lemma mx_pre_dispatch:
  obtains h where "pre_dispatch mx_cfg (send_mn_transaction_call [13, 3]) (rt mx_open) = (Inr (), (rt mx_open)\<lparr>ledger_host := h\<rparr>)"
    "fst (send_mn_transaction mx_cfg [13, 3] ((rt mx_open)\<lparr>ledger_host := h\<rparr>)) = Inr ()"
proof -
  let ?c = "consensus_context (rt mx_open)"
  let ?key = "tx_validation_cache_key lx_lib 1 [13, 3]"
  define h where "h = lx_host\<lparr>soft_cache := (soft_cache lx_host)(?key := None),
    strict_cache := [strict_key lx_lib (ledger_new 5) lx_block ?key \<mapsto> 3]\<rparr>"
  have dec: "decode_transaction lx_lib [13, 3] ?c = Inr 3"
    using mx_context(2) by (rule lx_decode)
  have "dry_run lx_lib (ledger_new 5) vt lx_block = Inr ()" for vt
    by (simp add: dry_run_def get_transaction_context_def lx_lib_sels lx_block_def)
  then have "validate_guaranteed_execution lx_lib None [5] [13, 3] lx_block ?c 1 lx_host = (Inr (), h)"
    unfolding validate_guaranteed_run [OF dec lx_ledger refl] by (simp add: st_bind_def lx_verified h_def lx_host_def)
  then have pre: "pre_dispatch mx_cfg (send_mn_transaction_call [13, 3]) (rt mx_open) = (Inr (), (rt mx_open)\<lparr>ledger_host := h\<rparr>)"
    by (simp add: pre_dispatch_def mx_frame mx_context check_weight_def get_dispatch_info_def)
  have h: "get_ledger lx_lib [5] h = Inr (ledger_new 5)" "NETWORK_ID h = None" "OVERRIDES h = None"
    "strict_cache h (strict_key lx_lib (ledger_new 5) lx_block ?key) \<in> {None, Some 3}"
    by (simp_all add: h_def get_ledger_def lx_lib_sels lx_host_def)
  have ctx: "get_block_context ((rt mx_open)\<lparr>ledger_host := h\<rparr>) = lx_block"
    "consensus_context ((rt mx_open)\<lparr>ledger_host := h\<rparr>) = ?c"
    using mx_context(1) by (simp_all add: get_block_context_def consensus_context_def)
  obtain q h' where run: "apply_transaction lx_lib None [5] [13, 3] lx_block ?c True 1 h = (q, h')"
    by fastforce
  moreover from this have "\<exists>ev. q = Inr ev"
    using lx_result [OF dec h(1,4,2,3)] by simp
  ultimately have "fst (send_mn_transaction mx_cfg [13, 3] ((rt mx_open)\<lparr>ledger_host := h\<rparr>)) = Inr ()"
    by (auto simp: send_mn_transaction_def apply_transaction_v2_def mx_frame ctx)
  with pre that show thesis by blast
qed

lemma mx_included:
  obtains c where "reachable (chain_init mx_cfg 1) (chain_step mx_cfg) c" "included c = [(1, [13, 3])]"
proof -
  obtain h where h: "pre_dispatch mx_cfg (send_mn_transaction_call [13, 3]) (rt mx_open) = (Inr (), (rt mx_open)\<lparr>ledger_host := h\<rparr>)"
    "fst (send_mn_transaction mx_cfg [13, 3] ((rt mx_open)\<lparr>ledger_host := h\<rparr>)) = Inr ()"
    by (rule mx_pre_dispatch)
  then obtain r where r: "send_mn_transaction mx_cfg [13, 3] ((rt mx_open)\<lparr>ledger_host := h\<rparr>) = (Inr (), r)"
    by (metis prod.collapse)
  have "block_height (consensus_context ((rt mx_open)\<lparr>ledger_host := h\<rparr>)) = 1"
    by (simp add: consensus_context_def mx_open_def)
  then have "chain_step mx_cfg mx_open (mx_open\<lparr>rt := r\<lparr>block_weight := mx_zero\<rparr>, included := [(1, [13, 3])]\<rparr>)"
    using chain_include [OF mx_frame(7) h(1) r, of mx_zero] by (simp add: mx_frame)
  from reachable_step [OF mx_open_reachable this] show thesis
    by (rule that) simp
qed

text \<open>The same runtime when the block is full.\<close>

definition mx_full :: "(u8, u8, u8 list, weight) runtime" where
  "mx_full = (rt mx_open)\<lparr>ledger_host := lx_host\<lparr>arena := [[5] \<mapsto> \<lparr>state = 5, block_fullness = cost_zero\<lparr>block_usage := 9\<rparr>\<rparr>]\<rparr>\<rparr>"

lemma mx_full_dispatch:
  obtains r1 r2 where "pre_dispatch mx_cfg (send_mn_transaction_call [12, 3]) mx_full = (Inr (), r1)"
    "send_mn_transaction mx_cfg [12, 3] r1 = (Inl BlockLimitExceededError, r2)"
proof -
  let ?l = "\<lparr>state = 5, block_fullness = cost_zero\<lparr>block_usage := 9\<rparr>\<rparr> :: u8 Ledger"
  let ?c = "consensus_context mx_full"
  have ctx: "get_block_context (mx_full\<lparr>ledger_host := h\<rparr>) = lx_block" "consensus_context (mx_full\<lparr>ledger_host := h\<rparr>) = ?c"
    "get_block_context mx_full = lx_block" "StateKey mx_full = [5]" for h
    using mx_context(1) by (simp_all add: mx_full_def get_block_context_def consensus_context_def mx_frame)
  have tctx: "get_transaction_context ?l lx_block = Inr \<lparr>ref_state = 5, block_context = lx_block\<rparr>"
    by (simp add: get_transaction_context_def lx_block_def)
  have ledger: "get_ledger lx_lib [5] h = Inr ?l" if "arena h = arena (ledger_host mx_full)" for h
    using that by (simp add: get_ledger_def lx_lib_sels mx_full_def)
  have ver: "\<exists>vt h'. get_verified_transaction lx_lib ?l 3 lx_block k None h = (Inr vt, h')" for k h
    by (simp add: get_verified_transaction_def tctx lx_lib_sels split: option.split)
  have dry: "dry_run lx_lib ?l vt lx_block = Inr ()" for vt
    by (simp add: dry_run_def tctx lx_lib_sels)
  obtain q h where v: "validate_guaranteed_execution lx_lib None [5] [12, 3] lx_block ?c 1 (ledger_host mx_full) = (q, h)"
    by fastforce
  then have "q = Inr ()"
    unfolding validate_guaranteed_run [OF lx_decode(1) ledger [OF refl] refl]
    using ver [of "tx_validation_cache_key lx_lib 1 [12, 3]"
        "(ledger_host mx_full)\<lparr>soft_cache := (soft_cache (ledger_host mx_full))(tx_validation_cache_key lx_lib 1 [12, 3] := None)\<rparr>"]
    by (auto simp: st_bind_def dry)
  moreover have "arena h = arena (ledger_host mx_full)"
    using v by (metis snd_conv validate_guaranteed_arena)
  ultimately have pre: "pre_dispatch mx_cfg (send_mn_transaction_call [12, 3]) mx_full = (Inr (), mx_full\<lparr>ledger_host := h\<rparr>)"
    and l: "get_ledger lx_lib [5] h = Inr ?l"
    using v ledger by (simp_all add: pre_dispatch_def mx_frame ctx check_weight_def get_dispatch_info_def)
  have "apply_verified_transaction lx_lib ?l 3 vt txc = Inl Le_BlockLimitExceededError" for vt txc
    by (simp add: apply_verified_transaction_def prevalidate_post_block_update_def lx_lib_def cost_le_def cost_zero_def Let_def)
  then have "fst (apply_transaction lx_lib None [5] [12, 3] lx_block ?c True 1 h) = Inl Le_BlockLimitExceededError"
    unfolding apply_transaction_run [OF lx_decode(1) l]
    using ver [of "tx_validation_cache_key lx_lib 1 [12, 3]" "set_network_id (state_network_id lx_lib (state ?l)) h"]
    by (auto simp: st_bind_def after_verification_def tctx)
  then have "\<exists>r2. send_mn_transaction mx_cfg [12, 3] (mx_full\<lparr>ledger_host := h\<rparr>) = (Inl BlockLimitExceededError, r2)"
    by (auto simp: send_mn_transaction_def apply_transaction_v2_def mx_frame ctx split: prod.split sum.split)
  with pre that show thesis by blast
qed

section \<open>Properties\<close>

text \<open>
  C2: the end of a block always succeeds.  In every block of a chain the stored
  key resolves to a ledger, so \<open>on_finalize\<close>, whose failure would be fatal for the
  chain, does not panic, and it leaves a ledger at the start of a block.
\<close>

theorem on_finalize_total:
  assumes "lib_laws (ledger_lib cfg)" "reachable (chain_init cfg a) (chain_step cfg) c"
  shows "\<exists>r l. on_finalize cfg (rt c) = Some r \<and> get_ledger (ledger_lib cfg) (StateKey r) (ledger_host r) = Inr l
    \<and> is_block_start l"
proof -
  have "ledger_ok cfg (phase c) (rt c)"
    using mc.reachable_inv [OF assms(2)] assms(1) by (simp add: chain_inv_def)
  then obtain h k where "on_finalize cfg (rt c) = Some ((rt c)\<lparr>ledger_host := h, StateKey := k\<rparr>)"
    "ledger_ok cfg Idle ((rt c)\<lparr>ledger_host := h, StateKey := k\<rparr>)"
    using finalize_effect [OF assms(1)] by metis
  then show ?thesis
    unfolding ledger_ok_def by blast
qed

theorem on_finalize_total_witness:
  "\<exists>c r l. reachable (chain_init mx_cfg 1) (chain_step mx_cfg) c \<and> included c = [(1, [13, 3])] \<and> on_finalize mx_cfg (rt c) = Some r
    \<and> get_ledger lx_lib (StateKey r) (ledger_host r) = Inr l \<and> is_block_start l"
proof -
  obtain c where c: "reachable (chain_init mx_cfg 1) (chain_step mx_cfg) c" "included c = [(1, [13, 3])]"
    by (rule mx_included)
  moreover have "\<exists>r l. on_finalize mx_cfg (rt c) = Some r \<and> get_ledger lx_lib (StateKey r) (ledger_host r) = Inr l \<and> is_block_start l"
    using on_finalize_total [OF _ c(1)] lx_laws by (simp add: mx_frame)
  ultimately show ?thesis by blast
qed

text \<open>
  C3: a block never exceeds the ledger's limits.  The fullness that accumulates
  over the transactions and system transactions of a block stays within the
  limits, so the clamping at the end of the block changes nothing.
\<close>

theorem block_within_limits:
  assumes "lib_laws (ledger_lib cfg)" "reachable (chain_init cfg a) (chain_step cfg) c"
    and "get_ledger (ledger_lib cfg) (StateKey (rt c)) (ledger_host (rt c)) = Inr l"
  shows "clamp (block_fullness l) (block_limits (ledger_lib cfg) (state l)) = block_fullness l"
proof -
  have "ledger_ok cfg (phase c) (rt c)"
    using mc.reachable_inv [OF assms(2)] assms(1) by (simp add: chain_inv_def)
  then show ?thesis
    using assms(3) by (intro clamp_id) (auto simp: ledger_ok_def)
qed

theorem block_within_limits_witness:
  "clamp cost_zero (block_limits lx_lib 5) = cost_zero"
  using block_within_limits [OF _ mx_open_reachable, of "ledger_new 5"] lx_laws lx_ledger by (simp add: mx_frame)



text \<open>
  C17: a transaction that passed \<open>pre_dispatch\<close> is applied.  Its dispatch can fail
  only because a fee cannot be computed, the block is full or the report cannot
  be produced, and a failure leaves the storage of the pallet as it was.
\<close>

theorem dispatch_after_pre_dispatch:
  assumes "\<And>st vt ctx e. apply_guaranteed_only (ledger_lib cfg) st vt ctx = Inr () \<Longrightarrow>
      snd (apply_tx (ledger_lib cfg) st vt ctx) \<noteq> Failure e"
    and "pre_dispatch cfg (send_mn_transaction_call tx) r = (Inr (), r1)"
    and "send_mn_transaction cfg tx r1 = (Inl e, r2)"
  shows "e \<in> midnight_error_from ` ({Le_FeeCalculationError, Le_BlockLimitExceededError} \<union> report_errors)
    \<and> r2 = r\<lparr>ledger_host := ledger_host r2\<rparr>"
proof -
  obtain h where r1: "r1 = r\<lparr>ledger_host := h\<rparr>" and v: "validate_guaranteed_execution (ledger_lib cfg)
      (tblock_correction cfg) (StateKey r) tx (get_block_context r) (consensus_context r) (spec_version cfg) (ledger_host r) = (Inr (), h)"
    using pre_dispatch_effect [OF assms(2)] by metis
  have ctx: "get_block_context (r\<lparr>ledger_host := h\<rparr>) = get_block_context r"
    "consensus_context (r\<lparr>ledger_host := h\<rparr>) = consensus_context r"
    by (simp_all add: get_block_context_def consensus_context_def)
  obtain q h2 where run: "apply_transaction (ledger_lib cfg) (tblock_correction cfg) (StateKey r) tx (get_block_context r)
      (consensus_context r) True (spec_version cfg) h = (q, h2)"
    by fastforce
  obtain e' where e': "q = Inl e'" "e = midnight_error_from e'" "r2 = r\<lparr>ledger_host := h2\<rparr>"
    using assms(3) run by (cases q) (auto simp: send_mn_transaction_def apply_transaction_v2_def ctx r1)
  have "case fst (apply_transaction (ledger_lib cfg) (tblock_correction cfg) (StateKey r) tx (get_block_context r)
      (consensus_context r) True (spec_version cfg) h) of Inr _ \<Rightarrow> True
    | Inl e \<Rightarrow> e \<in> {Le_FeeCalculationError, Le_BlockLimitExceededError} \<union> report_errors"
    using assms(1) v by (rule validated_applies)
  with run e' show ?thesis by auto
qed

theorem dispatch_after_pre_dispatch_witness:
  "\<exists>r1 e r2. pre_dispatch mx_cfg (send_mn_transaction_call [12, 3]) mx_full = (Inr (), r1)
    \<and> send_mn_transaction mx_cfg [12, 3] r1 = (Inl e, r2) \<and> r2 = mx_full\<lparr>ledger_host := ledger_host r2\<rparr>"
proof -
  obtain r1 r2 where r: "pre_dispatch mx_cfg (send_mn_transaction_call [12, 3]) mx_full = (Inr (), r1)"
    "send_mn_transaction mx_cfg [12, 3] r1 = (Inl BlockLimitExceededError, r2)"
    by (rule mx_full_dispatch)
  then have "r2 = mx_full\<lparr>ledger_host := ledger_host r2\<rparr>"
    using dispatch_after_pre_dispatch [OF _ r] by (simp add: mx_frame lx_lib_sels)
  with r show ?thesis by blast
qed



end
