(* ===== verification/Inherents.thy ===== *)
theory Inherents
  imports Prelude
begin

text \<open>
  What the pallets that are driven by inherent data promise.  Such a pallet
  turns the data its node observed into a call (\<open>create_inherent\<close>), checks the
  call of a block it imports against its own data (\<open>check_inherent\<close>), and runs
  the call at most once per block by a flag that \<open>on_finalize\<close> clears.  The
  pallets interpret these locales on their own operations.
\<close>

section \<open>Creating and checking\<close>

text \<open>The author's call is an inherent, and a node with the same data accepts it.\<close>

locale inherent_contract =
  fixes create :: "'d \<Rightarrow> 'c option"
    and check :: "'c \<Rightarrow> 'd \<Rightarrow> ('e, unit) result"
    and is_inherent :: "'c \<Rightarrow> bool"
  assumes created_is_inherent: "create d = Some c \<Longrightarrow> is_inherent c"
    and created_passes: "create d = Some c \<Longrightarrow> check c d = Inr ()"
begin

text \<open>Two nodes with the same data agree on a created block.\<close>

lemma same_data_agrees: "create d = Some c \<Longrightarrow> d' = d \<Longrightarrow> is_inherent c \<and> is_ok (check c d')"
  by (simp add: created_is_inherent created_passes)

end

text \<open>The check accepts no other call than the one the node would have created.\<close>

locale pinned_inherent = inherent_contract +
  assumes check_pins: "is_inherent c \<Longrightarrow> check c d = Inr () \<Longrightarrow> create d = Some c"
begin

lemma accepted_iff_created: "is_inherent c \<Longrightarrow> check c d = Inr () \<longleftrightarrow> create d = Some c"
  using check_pins created_passes by blast

lemma accepted_unique:
  assumes "is_inherent c" "is_inherent c'" "check c d = Inr ()" "check c' d = Inr ()"
  shows "c' = c"
  using check_pins [OF assms(1,3)] check_pins [OF assms(2,4)] by simp

end

section \<open>Once per block\<close>

text \<open>Runs of a call with arguments \<open>as\<close>, one after the other, with their results.\<close>

fun run_all :: "('a \<Rightarrow> ('s, 'e, unit) st_result) \<Rightarrow> 'a list \<Rightarrow> 's \<Rightarrow> ('e, unit) result list \<times> 's" where
  "run_all run [] s = ([], s)"
| "run_all run (a # as) s =
    (let (r, s') = run a s; (rs, s'') = run_all run as s' in (r # rs, s''))"

locale once_per_block =
  fixes run :: "'a \<Rightarrow> ('s, 'e, unit) st_result"
    and flag :: "'s \<Rightarrow> bool"
    and finish :: "'s \<Rightarrow> 's"
  assumes run_sets: "run a s = (Inr (), s') \<Longrightarrow> \<not> flag s \<and> flag s'"
    and run_keeps: "run a s = (Inl e, s') \<Longrightarrow> flag s' = flag s"
    and finish_clears: "\<not> flag (finish s)"
begin

lemma flagged_all_fail: "flag s \<Longrightarrow> filter is_ok (fst (run_all run as s)) = []"
proof (induction "as" arbitrary: s)
  case (Cons a "as")
  obtain r s' where r: "run a s = (r, s')" by fastforce
  then have "\<exists>e. r = Inl e"
    using run_sets [of a s s'] Cons.prems by (cases r) auto
  then show ?case
    using r run_keeps Cons by (fastforce simp: case_prod_beta)
qed simp

text \<open>However often the call is included in a block, it takes effect at most once.\<close>

lemma at_most_once: "length (filter is_ok (fst (run_all run as s))) \<le> 1"
proof (induction "as" arbitrary: s)
  case (Cons a "as")
  obtain r s' where r: "run a s = (r, s')" by fastforce
  show ?case
  proof (cases r)
    case (Inl e)
    then show ?thesis using Cons r by (simp add: case_prod_beta)
  next
    case (Inr u)
    then have "flag s'"
      using run_sets [of a s s'] r by simp
    then show ?thesis
      using r Inr flagged_all_fail [of s' "as"] by (simp add: case_prod_beta)
  qed
qed simp

end

end
