(* ===== verification/CNight_Observation.thy ===== *)
theory CNight_Observation
  imports Ledger_Bridge Inherents Cardano_Position "HOL-Library.AList"
begin

text \<open>
  The cNIGHT observation pallet (\<open>pallets/cnight-observation/src/lib.rs\<close> and
  \<open>migrations/v1.rs\<close>).  An inherent brings the UTXOs observed on Cardano; the
  pallet keeps the registrations of reward addresses, the owners of cNIGHT
  UTXOs, and turns creations and spends into the events of a ledger system
  transaction.

  The double map \<open>Mapping\<close> is an association list per reward address, with at
  most one entry per UTXO; nothing depends on the order of its entries.  The hash
  of the runtime, the executor of system transactions and the ledger library are
  parameters.  Weights and log output are left out.
\<close>

section \<open>Data\<close>

type_synonym utxo_id = "mc_hash \<times> u16"

record CmstHeader =
  cmst_block_hash :: mc_hash
  cmst_tx_index_in_block :: u32

datatype UtxoActionType = Create | Destroy

definition action_code :: "UtxoActionType \<Rightarrow> u8" where
  "action_code a = (case a of Create \<Rightarrow> 0 | Destroy \<Rightarrow> 1)"

definition INITIAL_CARDANO_BLOCK_WINDOW_SIZE :: u32 where "INITIAL_CARDANO_BLOCK_WINDOW_SIZE = 1000"
definition DEFAULT_CARDANO_TX_CAPACITY_PER_BLOCK :: u32 where "DEFAULT_CARDANO_TX_CAPACITY_PER_BLOCK = 200"
definition UTXO_PER_TX_OVERESTIMATE :: u32 where "UTXO_PER_TX_OVERESTIMATE = 64"
definition CARDANO_BECH32_ADDRESS_MAX_LENGTH :: nat where "CARDANO_BECH32_ADDRESS_MAX_LENGTH = 108"
definition CNIGHT_POLICY_ID_LENGTH :: nat where "CNIGHT_POLICY_ID_LENGTH = 28"
definition CARDANO_ASSET_NAME_MAX_LENGTH :: nat where "CARDANO_ASSET_NAME_MAX_LENGTH = 32"

record MappingEntry =
  entry_address :: reward_address
  entry_dust_key :: dust_key
  entry_utxo_id :: utxo_id

datatype cnight_event =
    RegistrationEvent reward_address dust_key
  | DeregistrationEvent reward_address dust_key
  | MappingAdded MappingEntry
  | MappingRemoved MappingEntry
  | SystemTransactionApplied CmstHeader hash

datatype cnight_error =
    MaxCardanoAddrLengthExceeded
  | NonAsciiAssetName
  | InherentAlreadyExecuted
  | CardanoPositionRegression
  | TooManyUtxos

text \<open>A call fails because of its origin, with an error of the pallet, or with the error of the executor.\<close>

datatype 'e cnight_failure = CnBadOrigin | CnError cnight_error | CnExecutor 'e

datatype InherentError = InherentMissing | InherentOther | InherentDecodeFailed

record MidnightObservationTokenMovement =
  movement_utxos :: "ObservedUtxo list"
  movement_position :: CardanoPosition

datatype cnight_call = process_tokens_call "ObservedUtxo list" CardanoPosition | other_call

record cnight_storage =
  MainChainMappingValidatorAddress :: "u8 list"
  MainChainAuthTokenAssetName :: "u8 list"
  Mapping :: "reward_address \<Rightarrow> (utxo_id \<times> dust_key) list"
  UtxoOwners :: "hash \<Rightarrow> dust_key option"
  NextCardanoPosition :: CardanoPosition
  CNightIdentifier :: "u8 list \<times> u8 list"
  CardanoBlockWindowSize :: u32
  CardanoTxCapacityPerBlock :: u32
  InherentExecutedThisBlock :: bool
  on_chain_storage_version :: u16
  v0_Mappings :: "(reward_address \<times> MappingEntry list) list"
  cn_events :: "cnight_event list"

text \<open>What the pallet is configured with; \<open>'x\<close> is the state of the executor.\<close>

record ('st, 'tx, 'vt, 'k, 'x, 'e) cnight_env =
  cn_lib :: "('st, 'tx, 'vt, 'k) mn_ledger"
  Hashing :: "u8 list \<Rightarrow> hash"
  executor :: "u8 list \<Rightarrow> ('x, 'e, hash) st_result"

section \<open>Genesis\<close>

record CNightGenesis =
  gen_mapping_validator_address :: "u8 list"
  gen_cnight_policy_id :: "u8 list"
  gen_cnight_asset_name :: "u8 list"
  gen_auth_token_asset_name :: "u8 list"
  gen_mappings :: "(reward_address \<times> MappingEntry list) list"
  gen_utxo_owners :: "(hash \<times> dust_key) list"
  gen_next_cardano_position :: CardanoPosition

definition mapping_insert :: "reward_address \<Rightarrow> utxo_id \<Rightarrow> dust_key \<Rightarrow> cnight_storage \<Rightarrow> cnight_storage" where
  "mapping_insert addr utxo_id dust_key s =
    s\<lparr>Mapping := (Mapping s)(addr := AList.update utxo_id dust_key (Mapping s addr))\<rparr>"

definition insert_entries :: "reward_address \<Rightarrow> MappingEntry list \<Rightarrow> cnight_storage \<Rightarrow> cnight_storage" where
  "insert_entries addr entries s =
    fold (\<lambda>entry. mapping_insert addr (entry_utxo_id entry) (entry_dust_key entry)) entries s"

definition genesis_build :: "CNightGenesis \<Rightarrow> cnight_storage \<Rightarrow> cnight_storage option" where
  "genesis_build g s =
    (if length (gen_mapping_validator_address g) \<le> CARDANO_BECH32_ADDRESS_MAX_LENGTH
        \<and> length (gen_cnight_policy_id g) \<le> CNIGHT_POLICY_ID_LENGTH
        \<and> length (gen_cnight_asset_name g) \<le> CARDANO_ASSET_NAME_MAX_LENGTH
        \<and> length (gen_auth_token_asset_name g) \<le> CARDANO_ASSET_NAME_MAX_LENGTH
     then let s1 = s\<lparr>MainChainMappingValidatorAddress := gen_mapping_validator_address g,
                CNightIdentifier := (gen_cnight_policy_id g, gen_cnight_asset_name g),
                MainChainAuthTokenAssetName := gen_auth_token_asset_name g\<rparr>;
              s2 = fold (\<lambda>(addr, entries). insert_entries addr entries) (gen_mappings g) s1;
              s3 = s2\<lparr>UtxoOwners := fold (\<lambda>(k, v) m. m(k \<mapsto> v)) (gen_utxo_owners g) (UtxoOwners s2)\<rparr>
          in Some (s3\<lparr>NextCardanoPosition := gen_next_cardano_position g\<rparr>)
     else None)"

section \<open>Inherent data\<close>

text \<open>The inherent data of the pallet is absent, present, or does not decode.\<close>

type_synonym cnight_data = "(unit, MidnightObservationTokenMovement option) result"

definition get_data_from_inherent_data ::
  "cnight_data \<Rightarrow> (InherentError, MidnightObservationTokenMovement option) result" where
  "get_data_from_inherent_data data = (case data of Inl _ \<Rightarrow> Inl InherentDecodeFailed | Inr m \<Rightarrow> Inr m)"

definition create_inherent :: "cnight_data \<Rightarrow> cnight_call option" where
  "create_inherent data =
    (case get_data_from_inherent_data data of
       Inr (Some m) \<Rightarrow> Some (process_tokens_call (movement_utxos m) (movement_position m))
     | Inr None \<Rightarrow> None
     | Inl _ \<Rightarrow> None)"

definition check_inherent :: "cnight_call \<Rightarrow> cnight_data \<Rightarrow> (InherentError, unit) result" where
  "check_inherent call data =
    (case call of
       process_tokens_call utxos next_cardano_position \<Rightarrow>
         bind_result (get_data_from_inherent_data data) (\<lambda>m.
         bind_result (ok_or InherentOther m) (\<lambda>parsed.
         if movement_utxos parsed \<noteq> utxos \<or> movement_position parsed \<noteq> next_cardano_position
         then Inl InherentOther else Inr ()))
     | _ \<Rightarrow> Inr ())"

definition is_inherent :: "cnight_call \<Rightarrow> bool" where
  "is_inherent call = (case call of process_tokens_call _ _ \<Rightarrow> True | _ \<Rightarrow> False)"

definition is_inherent_required :: "cnight_data \<Rightarrow> (InherentError, InherentError option) result" where
  "is_inherent_required data =
    bind_result (get_data_from_inherent_data data) (\<lambda>m.
      Inr (case m of Some _ \<Rightarrow> Some InherentMissing | None \<Rightarrow> None))"

section \<open>Registrations\<close>

definition unique_dust_key :: "reward_address \<Rightarrow> cnight_storage \<Rightarrow> dust_key option" where
  "unique_dust_key addr s = (case map snd (Mapping s addr) of [only] \<Rightarrow> Some only | _ \<Rightarrow> None)"

definition get_registration :: "reward_address \<Rightarrow> cnight_storage \<Rightarrow> dust_key option" where
  "get_registration wallet s = unique_dust_key wallet s"

definition is_registered :: "reward_address \<Rightarrow> cnight_storage \<Rightarrow> bool" where
  "is_registered utxo_holder s \<longleftrightarrow> unique_dust_key utxo_holder s \<noteq> None"

definition cn_deposit :: "cnight_event \<Rightarrow> cnight_storage \<Rightarrow> cnight_storage" where
  "cn_deposit ev s = s\<lparr>cn_events := cn_events s @ [ev]\<rparr>"

definition header_utxo_id :: "ObservedUtxoHeader \<Rightarrow> utxo_id" where
  "header_utxo_id h = (utxo_tx_hash h, utxo_index h)"

definition handle_registration :: "ObservedUtxoHeader \<Rightarrow> RegistrationData \<Rightarrow> cnight_storage \<Rightarrow> cnight_storage" where
  "handle_registration hdr d s =
    (let addr = reg_address d; utxo_id = header_utxo_id hdr;
         previous_dust_key = unique_dust_key addr s;
         s1 = mapping_insert addr utxo_id (reg_dust_key d) s;
         new_dust_key = unique_dust_key addr s1;
         s2 = (case (previous_dust_key, new_dust_key) of
             (None, Some sole_dust_key) \<Rightarrow> cn_deposit (RegistrationEvent addr sole_dust_key) s1
           | (Some prev_dust_key, None) \<Rightarrow> cn_deposit (DeregistrationEvent addr prev_dust_key) s1
           | _ \<Rightarrow> s1)
     in cn_deposit (MappingAdded \<lparr>entry_address = addr, entry_dust_key = reg_dust_key d, entry_utxo_id = utxo_id\<rparr>) s2)"

definition handle_registration_removal :: "ObservedUtxoHeader \<Rightarrow> DeregistrationData \<Rightarrow> cnight_storage \<Rightarrow> cnight_storage" where
  "handle_registration_removal hdr d s =
    (let addr = dereg_address d; utxo_id = header_utxo_id hdr;
         reg_entry = \<lparr>entry_address = addr, entry_dust_key = dereg_dust_key d, entry_utxo_id = utxo_id\<rparr>;
         previous_dust_key = unique_dust_key addr s;
         s1 = s\<lparr>Mapping := (Mapping s)(addr := AList.delete utxo_id (Mapping s addr))\<rparr>;
         new_dust_key = unique_dust_key addr s1;
         s2 = (case (previous_dust_key, new_dust_key) of
             (None, Some sole_dust_key) \<Rightarrow> cn_deposit (RegistrationEvent addr sole_dust_key) s1
           | (Some _, None) \<Rightarrow> cn_deposit (DeregistrationEvent addr (dereg_dust_key d)) s1
           | _ \<Rightarrow> s1)
     in cn_deposit (MappingRemoved reg_entry) s2)"

section \<open>Creations and spends\<close>

definition u16_to_be_bytes :: "u16 \<Rightarrow> u8 list" where
  "u16_to_be_bytes v = rev (word_bytes 2 v)"

text \<open>The bytes of \<open>asset_create\<close>.\<close>

definition asset_create_prefix :: "u8 list" where
  "asset_create_prefix = [97, 115, 115, 101, 116, 95, 99, 114, 101, 97, 116, 101]"

definition asset_nonce :: "('st, 'tx, 'vt, 'k, 'x, 'e) cnight_env \<Rightarrow> mc_hash \<Rightarrow> u16 \<Rightarrow> hash" where
  "asset_nonce env txh index = Hashing env (asset_create_prefix @ txh @ u16_to_be_bytes index)"

definition handle_create ::
  "('st, 'tx, 'vt, 'k, 'x, 'e) cnight_env \<Rightarrow> u64 \<Rightarrow> CreateData \<Rightarrow> cnight_storage \<Rightarrow> u8 list option \<times> cnight_storage" where
  "handle_create env cur_time d s =
    (case get_registration (create_owner d) s of
       None \<Rightarrow> (None, s)
     | Some dust_public_key \<Rightarrow>
        (let nonce = asset_nonce env (create_utxo_tx_hash d) (create_utxo_tx_index d) in
         case construct_cnight_generates_dust_event (cn_lib env) (create_value d) dust_public_key cur_time
                (action_code Create) nonce of
           Inr event_bytes \<Rightarrow> (Some event_bytes, s\<lparr>UtxoOwners := (UtxoOwners s)(nonce \<mapsto> dust_public_key)\<rparr>)
         | Inl _ \<Rightarrow> (None, s)))"

definition handle_spend ::
  "('st, 'tx, 'vt, 'k, 'x, 'e) cnight_env \<Rightarrow> u64 \<Rightarrow> SpendData \<Rightarrow> cnight_storage \<Rightarrow> u8 list option \<times> cnight_storage" where
  "handle_spend env cur_time d s =
    (let nonce = asset_nonce env (spend_utxo_tx_hash d) (spend_utxo_tx_index d) in
     case UtxoOwners s nonce of
       None \<Rightarrow> (None, s)
     | Some dust_public_key \<Rightarrow>
        (let s1 = s\<lparr>UtxoOwners := (UtxoOwners s)(nonce := None)\<rparr> in
         case construct_cnight_generates_dust_event (cn_lib env) (spend_value d) dust_public_key cur_time
                (action_code Destroy) nonce of
           Inr event_bytes \<Rightarrow> (Some event_bytes, s1)
         | Inl _ \<Rightarrow> (None, s1)))"

section \<open>The inherent\<close>

definition process_utxo ::
  "('st, 'tx, 'vt, 'k, 'x, 'e) cnight_env \<Rightarrow> ObservedUtxo \<Rightarrow> cnight_storage \<Rightarrow> u8 list option \<times> cnight_storage" where
  "process_utxo env utxo s =
    (let now = block_timestamp (tx_position (header utxo)) div 1000 in
     case utxo_data utxo of
       Registration d \<Rightarrow> (None, handle_registration (header utxo) d s)
     | Deregistration d \<Rightarrow> (None, handle_registration_removal (header utxo) d s)
     | AssetCreate d \<Rightarrow> handle_create env now d s
     | AssetSpend d \<Rightarrow> handle_spend env now d s)"

fun process_utxos ::
  "('st, 'tx, 'vt, 'k, 'x, 'e) cnight_env \<Rightarrow> ObservedUtxo list \<Rightarrow> cnight_storage \<Rightarrow> u8 list list \<times> cnight_storage" where
  "process_utxos env [] s = ([], s)"
| "process_utxos env (u # us) s =
    (let (ev, s1) = process_utxo env u s; (evs, s2) = process_utxos env us s1
     in ((case ev of Some e \<Rightarrow> e # evs | None \<Rightarrow> evs), s2))"

definition STORAGE_VERSION :: u16 where "STORAGE_VERSION = 1"

definition process_tokens ::
  "('st, 'tx, 'vt, 'k, 'x, 'e) cnight_env \<Rightarrow> bool \<Rightarrow> ObservedUtxo list \<times> CardanoPosition
    \<Rightarrow> (cnight_storage \<times> 'x, 'e cnight_failure, unit) st_result" where
  "process_tokens env none_origin = (\<lambda>(utxos, next_cardano_position) (s, x).
    if \<not> none_origin then (Inl CnBadOrigin, s, x)
    else if \<not> (word_of_nat (length utxos) :: u32) \<le> saturating_mul (CardanoTxCapacityPerBlock s) UTXO_PER_TX_OVERESTIMATE
      then (Inl (CnError TooManyUtxos), s, x)
    else if InherentExecutedThisBlock s then (Inl (CnError InherentAlreadyExecuted), s, x)
    else let s0 = s\<lparr>InherentExecutedThisBlock := True\<rparr> in
    if on_chain_storage_version s < STORAGE_VERSION then (Inr (), s0, x)
    else if \<not> pos_le (NextCardanoPosition s) next_cardano_position
      then (Inl (CnError CardanoPositionRegression), s, x)
    else let (events, s1) = process_utxos env utxos s0;
             s2 = s1\<lparr>NextCardanoPosition := next_cardano_position\<rparr> in
    if events = [] then (Inr (), s2, x)
    else case construct_cnight_generates_dust_system_tx (cn_lib env) events of
           Inl _ \<Rightarrow> (Inr (), s2, x)
         | Inr midnight_system_tx \<Rightarrow>
            (case executor env midnight_system_tx x of
               (Inl e, x') \<Rightarrow> (Inl (CnExecutor e), s, x')
             | (Inr system_transaction_hash, x') \<Rightarrow>
                 (Inr (), cn_deposit (SystemTransactionApplied
                    \<lparr>cmst_block_hash = block_hash next_cardano_position,
                     cmst_tx_index_in_block = tx_index_in_block next_cardano_position\<rparr> system_transaction_hash) s2, x')))"

definition on_finalize :: "cnight_storage \<times> 'x \<Rightarrow> cnight_storage \<times> 'x" where
  "on_finalize = (\<lambda>(s, x). (s\<lparr>InherentExecutedThisBlock := False\<rparr>, x))"

section \<open>Governance calls\<close>

definition is_ascii :: "u8 list \<Rightarrow> bool" where
  "is_ascii bs \<longleftrightarrow> list_all (\<lambda>b. b < 128) bs"

definition set_mapping_validator_contract_address ::
  "bool \<Rightarrow> u8 list \<Rightarrow> (cnight_storage, 'e cnight_failure, unit) st_result" where
  "set_mapping_validator_contract_address root addr s =
    (if \<not> root then (Inl CnBadOrigin, s)
     else if length addr \<le> CARDANO_BECH32_ADDRESS_MAX_LENGTH
       then (Inr (), s\<lparr>MainChainMappingValidatorAddress := addr\<rparr>)
     else (Inl (CnError MaxCardanoAddrLengthExceeded), s))"

definition set_cnight_identifier ::
  "bool \<Rightarrow> u8 list \<Rightarrow> u8 list \<Rightarrow> (cnight_storage, 'e cnight_failure, unit) st_result" where
  "set_cnight_identifier root policy_id asset_name s =
    (if \<not> root then (Inl CnBadOrigin, s)
     else if \<not> is_ascii asset_name then (Inl (CnError NonAsciiAssetName), s)
     else (Inr (), s\<lparr>CNightIdentifier := (take CNIGHT_POLICY_ID_LENGTH policy_id, asset_name)\<rparr>))"

definition set_auth_token_asset_name ::
  "bool \<Rightarrow> u8 list \<Rightarrow> (cnight_storage, 'e cnight_failure, unit) st_result" where
  "set_auth_token_asset_name root asset_name s =
    (if \<not> root then (Inl CnBadOrigin, s)
     else if \<not> is_ascii asset_name then (Inl (CnError NonAsciiAssetName), s)
     else (Inr (), s\<lparr>MainChainAuthTokenAssetName := asset_name\<rparr>))"

section \<open>Migration of the mappings\<close>

text \<open>
  The rows of the old map are listed in the order of iteration, that of their
  hashed keys.  The meter is the weight that remains.
\<close>

definition any_lt :: "weight \<Rightarrow> weight \<Rightarrow> bool" where
  "any_lt a b \<longleftrightarrow> ref_time a < ref_time b \<or> proof_size a < proof_size b"

definition try_consume :: "weight \<Rightarrow> weight \<Rightarrow> weight option" where
  "try_consume remaining required =
    (if any_lt remaining required then None
     else Some \<lparr>ref_time = ref_time remaining - ref_time required, proof_size = proof_size remaining - proof_size required\<rparr>)"

definition iter_rows ::
  "(reward_address \<Rightarrow> u8 list) \<Rightarrow> reward_address option \<Rightarrow> cnight_storage \<Rightarrow> (reward_address \<times> MappingEntry list) list" where
  "iter_rows hashed_key cursor s =
    (case cursor of
       Some last_key \<Rightarrow> filter (\<lambda>(a, _). hashed_key last_key < hashed_key a) (v0_Mappings s)
     | None \<Rightarrow> v0_Mappings s)"

definition v0_remove :: "reward_address \<Rightarrow> cnight_storage \<Rightarrow> cnight_storage" where
  "v0_remove addr s = s\<lparr>v0_Mappings := filter (\<lambda>(a, _). a \<noteq> addr) (v0_Mappings s)\<rparr>"

lemma insert_entries_v0 [simp]:
  "v0_Mappings (insert_entries addr es s) = v0_Mappings s"
  by (induction es arbitrary: s) (simp_all add: insert_entries_def mapping_insert_def)

function migrate_loop ::
  "(reward_address \<Rightarrow> u8 list) \<Rightarrow> weight \<Rightarrow> weight \<Rightarrow> reward_address option \<Rightarrow> cnight_storage
    \<Rightarrow> reward_address option \<times> cnight_storage" where
  "migrate_loop hashed_key required remaining cursor s =
    (case try_consume remaining required of
       None \<Rightarrow> (cursor, s)
     | Some remaining' \<Rightarrow>
        (case iter_rows hashed_key cursor s of
           (addr, entries) # _ \<Rightarrow>
             migrate_loop hashed_key required remaining' (Some addr) (insert_entries addr entries (v0_remove addr s))
         | [] \<Rightarrow> (None, s\<lparr>on_chain_storage_version := 1\<rparr>)))"
  by pat_completeness auto

text \<open>Every round removes a row of the old map.\<close>

lemma iter_rows_subset: "set (iter_rows hk c s) \<subseteq> set (v0_Mappings s)"
  by (auto simp: iter_rows_def split: option.split)

lemma iter_rows_head: "iter_rows hk c s = (addr, entries) # rows \<Longrightarrow> (addr, entries) \<in> set (v0_Mappings s)"
  using iter_rows_subset [of hk c s] by auto

termination migrate_loop
  by (relation "measure (\<lambda>(hk, req, rem, c, s). length (v0_Mappings s))")
    (auto simp: v0_remove_def dest!: iter_rows_head intro!: length_filter_less)

declare migrate_loop.simps [simp del]

definition migration_step ::
  "(reward_address \<Rightarrow> u8 list) \<Rightarrow> weight \<Rightarrow> weight \<Rightarrow> reward_address option \<Rightarrow> cnight_storage
    \<Rightarrow> (weight, reward_address option \<times> cnight_storage) result" where
  "migration_step hashed_key required remaining cursor s =
    (if any_lt remaining required then Inl required
     else Inr (migrate_loop hashed_key required remaining cursor s))"

section \<open>Lemmas\<close>

text \<open>Registrations as the events tell them.\<close>

fun replay_event :: "(reward_address \<Rightarrow> dust_key option) \<Rightarrow> cnight_event \<Rightarrow> reward_address \<Rightarrow> dust_key option" where
  "replay_event m (RegistrationEvent a k) = m(a \<mapsto> k)"
| "replay_event m (DeregistrationEvent a k) = m(a := None)"
| "replay_event m _ = m"

definition registrations :: "cnight_storage \<Rightarrow> reward_address \<Rightarrow> dust_key option" where
  "registrations s = (\<lambda>a. get_registration a s)"

text \<open>
  The datum of a UTXO fixes the key it registers, so a stored mapping and a
  registration of the same UTXO agree.
\<close>

definition mapping_consistent :: "(utxo_id \<Rightarrow> dust_key) \<Rightarrow> cnight_storage \<Rightarrow> bool" where
  "mapping_consistent datum s \<longleftrightarrow> (\<forall>a u k. (u, k) \<in> set (Mapping s a) \<longrightarrow> k = datum u)"

definition utxo_consistent :: "(utxo_id \<Rightarrow> dust_key) \<Rightarrow> ObservedUtxo \<Rightarrow> bool" where
  "utxo_consistent datum u = (case utxo_data u of
     Registration d \<Rightarrow> reg_dust_key d = datum (header_utxo_id (header u)) | _ \<Rightarrow> True)"

lemma unique_alt: "unique_dust_key a s = (case Mapping s a of [(u, k)] \<Rightarrow> Some k | _ \<Rightarrow> None)"
  by (auto simp: unique_dust_key_def split: list.splits)

lemma unique_deposit [simp]: "unique_dust_key a (cn_deposit ev s) = unique_dust_key a s"
  by (simp add: unique_dust_key_def cn_deposit_def)

lemma unique_flag [simp]:
  "unique_dust_key a (s\<lparr>InherentExecutedThisBlock := b\<rparr>) = unique_dust_key a s"
  "unique_dust_key a (s\<lparr>NextCardanoPosition := p\<rparr>) = unique_dust_key a s"
  "unique_dust_key a (s\<lparr>UtxoOwners := m\<rparr>) = unique_dust_key a s"
  by (simp_all add: unique_dust_key_def)

text \<open>Events that tell a change of the key of one address.\<close>

definition tells :: "cnight_storage \<Rightarrow> cnight_storage \<Rightarrow> bool" where
  "tells s s' \<longleftrightarrow> (\<exists>evs. cn_events s' = cn_events s @ evs \<and> foldl replay_event (registrations s) evs = registrations s')"

lemma tells_refl [intro, simp]: "tells s s"
  by (simp add: tells_def)

lemma tells_trans: "tells s s' \<Longrightarrow> tells s' s'' \<Longrightarrow> tells s s''"
  unfolding tells_def by (metis append.assoc foldl_append)

lemma tells_frame:
  assumes "cn_events s' = cn_events s" "Mapping s' = Mapping s"
  shows "tells s s'"
  using assms by (simp add: tells_def registrations_def get_registration_def unique_dust_key_def)

lemma unique_mapping_insert:
  "unique_dust_key a (mapping_insert addr u k s) =
    (if a = addr \<and> (case Mapping s addr of [] \<Rightarrow> True | [(u', _)] \<Rightarrow> u' = u | _ \<Rightarrow> False) then Some k
     else if a = addr then None else unique_dust_key a s)"
  by (auto simp: unique_alt mapping_insert_def split: list.splits)

lemma change_tells:
  assumes "cn_events s1 = cn_events s" "\<And>a. a \<noteq> addr \<Longrightarrow> unique_dust_key a s1 = unique_dust_key a s"
    and "unique_dust_key addr s \<noteq> None \<Longrightarrow> unique_dust_key addr s1 \<noteq> None \<Longrightarrow>
      unique_dust_key addr s1 = unique_dust_key addr s"
  shows "tells s (case (unique_dust_key addr s, unique_dust_key addr s1) of
      (None, Some k) \<Rightarrow> cn_deposit (RegistrationEvent addr k) s1
    | (Some k, None) \<Rightarrow> cn_deposit (DeregistrationEvent addr (f k)) s1
    | _ \<Rightarrow> s1)"
proof -
  have regs: "registrations s1 = (registrations s)(addr := unique_dust_key addr s1)"
    using assms(2) by (auto simp: registrations_def get_registration_def)
  show ?thesis
  proof (cases "unique_dust_key addr s1 = unique_dust_key addr s")
    case True
    then have "registrations s1 = registrations s"
      using regs by (auto simp: registrations_def get_registration_def)
    then have "tells s s1"
      using assms(1) by (simp add: tells_def)
    then show ?thesis
      using True by (cases "unique_dust_key addr s") simp_all
  next
    case False
    then show ?thesis
      using assms(1,3) regs
      by (cases "unique_dust_key addr s"; cases "unique_dust_key addr s1")
        (force simp: tells_def cn_deposit_def registrations_def get_registration_def unique_dust_key_def)+
  qed
qed

lemma tells_deposit_mapping:
  "tells s s' \<Longrightarrow> tells s (cn_deposit (MappingAdded e) s')" "tells s s' \<Longrightarrow> tells s (cn_deposit (MappingRemoved e) s')"
  by (force simp: tells_def cn_deposit_def registrations_def get_registration_def unique_dust_key_def)+

lemma consistent_deposit [simp]: "mapping_consistent datum (cn_deposit ev s) = mapping_consistent datum s"
  by (simp add: mapping_consistent_def cn_deposit_def)

lemma set_update_subset: "set (AList.update u k xs) \<subseteq> insert (u, k) (set xs)"
  by (induction xs) auto

lemma registration_tells:
  assumes "mapping_consistent datum s" "reg_dust_key d = datum (header_utxo_id hdr)"
  shows "tells s (handle_registration hdr d s)" "mapping_consistent datum (handle_registration hdr d s)"
proof -
  let ?a = "reg_address d" and ?u = "header_utxo_id hdr"
  let ?s1 = "mapping_insert ?a ?u (reg_dust_key d) s"
  have "unique_dust_key ?a ?s1 = unique_dust_key ?a s"
    if "unique_dust_key ?a s \<noteq> None" "unique_dust_key ?a ?s1 \<noteq> None"
  proof -
    from that(1) obtain u' y where m: "Mapping s ?a = [(u', y)]"
      by (auto simp: unique_alt split: list.splits)
    then have "y = datum u'"
      using assms(1) unfolding mapping_consistent_def by (metis list.set_intros(1))
    then show ?thesis
      using that(2) m assms(2) by (auto simp: mapping_insert_def unique_alt split: if_splits)
  qed
  then have "tells s (case (unique_dust_key ?a s, unique_dust_key ?a ?s1) of
      (None, Some k) \<Rightarrow> cn_deposit (RegistrationEvent ?a k) ?s1
    | (Some k, None) \<Rightarrow> cn_deposit (DeregistrationEvent ?a k) ?s1
    | _ \<Rightarrow> ?s1)"
    by (intro change_tells) (simp_all add: unique_mapping_insert, simp add: mapping_insert_def)
  then show "tells s (handle_registration hdr d s)"
    unfolding handle_registration_def Let_def by (rule tells_deposit_mapping)
  have "mapping_consistent datum ?s1"
    using assms set_update_subset [of ?u "reg_dust_key d" "Mapping s ?a"]
    unfolding mapping_consistent_def mapping_insert_def by (auto split: if_splits)
  then show "mapping_consistent datum (handle_registration hdr d s)"
    by (simp add: handle_registration_def Let_def split: option.split)
qed

lemma removal_tells:
  "tells s (handle_registration_removal hdr d s)"
  "mapping_consistent datum s \<Longrightarrow> mapping_consistent datum (handle_registration_removal hdr d s)"
proof -
  let ?a = "dereg_address d" and ?u = "header_utxo_id hdr"
  let ?s1 = "s\<lparr>Mapping := (Mapping s)(?a := AList.delete ?u (Mapping s ?a))\<rparr>"
  have "unique_dust_key ?a ?s1 = unique_dust_key ?a s"
    if "unique_dust_key ?a s \<noteq> None" "unique_dust_key ?a ?s1 \<noteq> None"
    using that by (auto simp: unique_alt AList.delete_eq split: list.splits if_splits)
  then have "tells s (case (unique_dust_key ?a s, unique_dust_key ?a ?s1) of
      (None, Some k) \<Rightarrow> cn_deposit (RegistrationEvent ?a k) ?s1
    | (Some k, None) \<Rightarrow> cn_deposit (DeregistrationEvent ?a (dereg_dust_key d)) ?s1
    | _ \<Rightarrow> ?s1)"
    by (intro change_tells) (simp_all add: unique_dust_key_def)
  then show "tells s (handle_registration_removal hdr d s)"
    unfolding handle_registration_removal_def Let_def by (rule tells_deposit_mapping)
  assume "mapping_consistent datum s"
  then have "mapping_consistent datum ?s1"
    by (auto simp: mapping_consistent_def AList.delete_eq)
  then show "mapping_consistent datum (handle_registration_removal hdr d s)"
    by (simp add: handle_registration_removal_def Let_def split: option.split)
qed

text \<open>The two halves of the storage: creations and spends leave the registrations alone.\<close>

lemma create_frame:
  "cn_events (snd (handle_create env now d s)) = cn_events s" "Mapping (snd (handle_create env now d s)) = Mapping s"
  by (simp_all add: handle_create_def Let_def split: option.split sum.split)

lemma spend_frame:
  "cn_events (snd (handle_spend env now d s)) = cn_events s" "Mapping (snd (handle_spend env now d s)) = Mapping s"
  by (simp_all add: handle_spend_def Let_def split: option.split sum.split)

lemma process_utxo_tells:
  assumes "mapping_consistent datum s" "utxo_consistent datum u"
  shows "tells s (snd (process_utxo env u s)) \<and> mapping_consistent datum (snd (process_utxo env u s))"
proof (cases "utxo_data u")
  case (Registration d)
  then show ?thesis
    using registration_tells [OF assms(1), of d "header u"] assms(2) by (simp add: process_utxo_def utxo_consistent_def)
next
  case (Deregistration d)
  then show ?thesis
    using removal_tells assms(1) by (simp add: process_utxo_def)
next
  case (AssetCreate d)
  then show ?thesis
    using assms(1) by (simp add: process_utxo_def tells_frame create_frame mapping_consistent_def)
next
  case (AssetSpend d)
  then show ?thesis
    using assms(1) by (simp add: process_utxo_def tells_frame spend_frame mapping_consistent_def)
qed

lemma process_utxos_tells:
  assumes "mapping_consistent datum s" "list_all (utxo_consistent datum) us"
  shows "tells s (snd (process_utxos env us s)) \<and> mapping_consistent datum (snd (process_utxos env us s))"
  using assms
proof (induction us arbitrary: s)
  case (Cons u us)
  then have "tells s (snd (process_utxo env u s)) \<and> mapping_consistent datum (snd (process_utxo env u s))"
    by (intro process_utxo_tells) simp_all
  with Cons show ?case
    by (auto simp: case_prod_beta intro: tells_trans)
qed simp

text \<open>How a successful inherent ends.\<close>

lemma process_tokens_ok:
  assumes "process_tokens env none (utxos, next) (s, x) = (Inr (), s', x')"
  obtains (migrating) "on_chain_storage_version s < STORAGE_VERSION" "s' = s\<lparr>InherentExecutedThisBlock := True\<rparr>" "x' = x"
    | (silent) evs s1 where "process_utxos env utxos (s\<lparr>InherentExecutedThisBlock := True\<rparr>) = (evs, s1)"
        "s' = s1\<lparr>NextCardanoPosition := next\<rparr>" "x' = x" "pos_le (NextCardanoPosition s) next"
        "evs = [] \<or> (\<exists>e. construct_cnight_generates_dust_system_tx (cn_lib env) evs = Inl e)"
    | (applied) evs s1 b h hdr where "process_utxos env utxos (s\<lparr>InherentExecutedThisBlock := True\<rparr>) = (evs, s1)"
        "s' = cn_deposit (SystemTransactionApplied hdr h) (s1\<lparr>NextCardanoPosition := next\<rparr>)"
        "construct_cnight_generates_dust_system_tx (cn_lib env) evs = Inr b" "executor env b x = (Inr h, x')"
        "pos_le (NextCardanoPosition s) next" "evs \<noteq> []"
proof -
  obtain evs s1 where run: "process_utxos env utxos (s\<lparr>InherentExecutedThisBlock := True\<rparr>) = (evs, s1)"
    by fastforce
  show thesis
  proof (cases "on_chain_storage_version s < STORAGE_VERSION")
    case True
    then show ?thesis
      using assms by (intro migrating) (auto simp: process_tokens_def Let_def split: if_splits)
  next
    case current: False
    have pos: "pos_le (NextCardanoPosition s) next"
      using assms current by (auto simp: process_tokens_def Let_def split: if_splits)
    show ?thesis
    proof (cases "evs = []")
      case True
      then show ?thesis
        using assms current run pos by (intro silent) (auto simp: process_tokens_def Let_def split: if_splits)
    next
      case False
      then show ?thesis
        using assms current run pos applied silent
        by (cases "construct_cnight_generates_dust_system_tx (cn_lib env) evs")
          (auto simp: process_tokens_def Let_def split: if_splits prod.splits sum.splits)
    qed
  qed
qed

lemma process_tokens_failed:
  "process_tokens env none call (s, x) = (Inl e, s', x') \<Longrightarrow> s' = s"
  by (cases call) (auto simp: process_tokens_def Let_def split: if_splits prod.splits sum.splits)

lemma registration_frame:
  "UtxoOwners (handle_registration hdr d s) = UtxoOwners s"
  "InherentExecutedThisBlock (handle_registration hdr d s) = InherentExecutedThisBlock s"
  by (simp_all add: handle_registration_def Let_def cn_deposit_def mapping_insert_def split: option.split)

lemma removal_frame:
  "UtxoOwners (handle_registration_removal hdr d s) = UtxoOwners s"
  "InherentExecutedThisBlock (handle_registration_removal hdr d s) = InherentExecutedThisBlock s"
  by (simp_all add: handle_registration_removal_def Let_def cn_deposit_def split: option.split)

lemma process_utxo_flag: "InherentExecutedThisBlock (snd (process_utxo env u s)) = InherentExecutedThisBlock s"
  by (cases "utxo_data u")
    (simp_all add: process_utxo_def Let_def registration_frame removal_frame handle_create_def handle_spend_def
      split: option.split sum.split)

lemma process_utxos_flag: "InherentExecutedThisBlock (snd (process_utxos env us s)) = InherentExecutedThisBlock s"
  by (induction us arbitrary: s) (simp_all add: case_prod_beta process_utxo_flag)

lemma process_tokens_flag:
  assumes "process_tokens env none call (s, x) = (Inr (), s', x')"
  shows "\<not> InherentExecutedThisBlock s \<and> InherentExecutedThisBlock s'"
proof -
  obtain utxos p where call: "call = (utxos, p)" by (cases call)
  have "InherentExecutedThisBlock s'"
    using assms [unfolded call]
  proof (cases rule: process_tokens_ok)
    case (silent evs s1)
    then show ?thesis
      using process_utxos_flag [of env utxos "s\<lparr>InherentExecutedThisBlock := True\<rparr>"] by simp
  next
    case (applied evs s1 b h hdr)
    then show ?thesis
      using process_utxos_flag [of env utxos "s\<lparr>InherentExecutedThisBlock := True\<rparr>"] by (simp add: cn_deposit_def)
  qed simp
  moreover have "\<not> InherentExecutedThisBlock s"
    using assms by (cases call) (auto simp: process_tokens_def split: if_splits)
  ultimately show ?thesis by blast
qed

interpretation cn_once: once_per_block "process_tokens env none" "\<lambda>(s, x). InherentExecutedThisBlock s" on_finalize
proof unfold_locales
  show "process_tokens env none a st = (Inr (), st') \<Longrightarrow>
      \<not> (case st of (s, x) \<Rightarrow> InherentExecutedThisBlock s) \<and> (case st' of (s, x) \<Rightarrow> InherentExecutedThisBlock s)"
    for a st st'
    by (cases st; cases st') (auto dest: process_tokens_flag)
  show "process_tokens env none a st = (Inl e, st') \<Longrightarrow>
      (case st' of (s, x) \<Rightarrow> InherentExecutedThisBlock s) = (case st of (s, x) \<Rightarrow> InherentExecutedThisBlock s)"
    for a st e st'
    by (cases st; cases st') (auto dest: process_tokens_failed)
qed (simp add: on_finalize_def case_prod_beta)

interpretation cn_inherent: pinned_inherent create_inherent check_inherent is_inherent
proof unfold_locales
  fix d c
  show "create_inherent d = Some c \<Longrightarrow> is_inherent c"
    by (auto simp: create_inherent_def is_inherent_def split: sum.splits option.splits)
  show "create_inherent d = Some c \<Longrightarrow> check_inherent c d = Inr ()"
    by (auto simp: create_inherent_def check_inherent_def split: sum.splits option.splits)
  show "is_inherent c \<Longrightarrow> check_inherent c d = Inr () \<Longrightarrow> create_inherent d = Some c"
    by (auto simp: create_inherent_def check_inherent_def is_inherent_def bind_result_Inr_iff ok_or_def
        split: cnight_call.splits if_splits option.splits)
qed

text \<open>The dust events as the ledger sees them, and the owners of UTXOs they leave.\<close>

definition track :: "CNightGeneratesDustEvent \<Rightarrow> (hash \<Rightarrow> u8 list option) \<Rightarrow> hash \<Rightarrow> u8 list option" where
  "track ev m = m(event_nonce ev := (if event_create ev then Some (event_owner ev) else None))"

text \<open>Every destruction is of a UTXO that was created before, and names its owner.\<close>

fun destroys_created :: "(hash \<Rightarrow> u8 list option) \<Rightarrow> CNightGeneratesDustEvent list \<Rightarrow> bool" where
  "destroys_created m [] = True"
| "destroys_created m (ev # evs) =
    ((event_create ev \<or> m (event_nonce ev) = Some (event_owner ev)) \<and> destroys_created (track ev m) evs)"

definition owners_view :: "('st, 'tx, 'vt, 'k, 'x, 'e) cnight_env \<Rightarrow> cnight_storage \<Rightarrow> hash \<Rightarrow> u8 list option" where
  "owners_view env s n = Option.bind (UtxoOwners s n) (deserialize_dust_key (cn_lib env))"

definition owners_ok :: "('st, 'tx, 'vt, 'k, 'x, 'e) cnight_env \<Rightarrow> cnight_storage \<Rightarrow> bool" where
  "owners_ok env s \<longleftrightarrow> (\<forall>n k. UtxoOwners s n = Some k \<longrightarrow> deserialize_dust_key (cn_lib env) k \<noteq> None)"

text \<open>
  Documented of the library: dust events and system transactions can be
  serialized, and deserialize to what they were.
\<close>

definition dust_laws :: "('st, 'tx, 'vt, 'k) mn_ledger \<Rightarrow> bool" where
  "dust_laws lib \<longleftrightarrow> (\<forall>ev. \<exists>b. serialize_event lib ev = Some b \<and> deserialize_event lib b = Some ev)
    \<and> (\<forall>evs. \<exists>b. serialize_system lib (CNightGeneratesDustUpdate evs) = Some b
         \<and> deserialize_system lib b = Some (CNightGeneratesDustUpdate evs))"

text \<open>One step: the bytes of at most one event, and what it does to the owners.\<close>

definition dust_step :: "('st, 'tx, 'vt, 'k, 'x, 'e) cnight_env \<Rightarrow> u8 list option \<Rightarrow> cnight_storage \<Rightarrow> cnight_storage \<Rightarrow> bool" where
  "dust_step env out s s' \<longleftrightarrow> owners_ok env s' \<and>
    (case out of
       None \<Rightarrow> owners_view env s' = owners_view env s
     | Some b \<Rightarrow> \<exists>ev. deserialize_event (cn_lib env) b = Some ev \<and> owners_view env s' = track ev (owners_view env s)
         \<and> (event_create ev \<or> owners_view env s (event_nonce ev) = Some (event_owner ev)))"

lemma construct_event:
  assumes "dust_laws lib" "deserialize_dust_key lib owner = Some key"
  obtains b where "construct_cnight_generates_dust_event lib v owner time (action_code a) nonce = Inr b"
    "deserialize_event lib b = Some \<lparr>event_value = v, event_owner = key, event_time = time,
      event_create = (a = Create), event_nonce = nonce\<rparr>"
proof -
  obtain b where "serialize_event lib \<lparr>event_value = v, event_owner = key, event_time = time,
      event_create = (a = Create), event_nonce = nonce\<rparr> = Some b"
    "deserialize_event lib b = Some \<lparr>event_value = v, event_owner = key, event_time = time,
      event_create = (a = Create), event_nonce = nonce\<rparr>"
    using assms(1) unfolding dust_laws_def by blast
  with assms(2) that show thesis
    by (cases a) (auto simp: construct_cnight_generates_dust_event_def action_code_def)
qed

lemma construct_bad_key:
  "deserialize_dust_key lib owner = None \<Longrightarrow>
    \<exists>e. construct_cnight_generates_dust_event lib v owner time action nonce = Inl e"
  by (simp add: construct_cnight_generates_dust_event_def)

lemma create_dust_step:
  assumes "dust_laws (cn_lib env)" "owners_ok env s"
  shows "dust_step env (fst (handle_create env now d s)) s (snd (handle_create env now d s))"
proof (cases "get_registration (create_owner d) s")
  case None
  then show ?thesis using assms(2) by (simp add: handle_create_def dust_step_def)
next
  case (Some owner)
  let ?nonce = "asset_nonce env (create_utxo_tx_hash d) (create_utxo_tx_index d)"
  show ?thesis
  proof (cases "deserialize_dust_key (cn_lib env) owner")
    case None
    then show ?thesis
      using construct_bad_key [OF None, of "create_value d" now "action_code Create" ?nonce] Some assms(2)
      by (auto simp: handle_create_def dust_step_def Let_def)
  next
    case key: (Some key)
    obtain b where "construct_cnight_generates_dust_event (cn_lib env) (create_value d) owner now (action_code Create) ?nonce = Inr b"
      "deserialize_event (cn_lib env) b = Some \<lparr>event_value = create_value d, event_owner = key, event_time = now,
        event_create = (Create = Create), event_nonce = ?nonce\<rparr>"
      using assms(1) key by (rule construct_event)
    then show ?thesis
      using Some key assms(2)
      by (auto simp: handle_create_def dust_step_def Let_def owners_ok_def owners_view_def track_def)
  qed
qed

lemma spend_dust_step:
  assumes "dust_laws (cn_lib env)" "owners_ok env s"
  shows "dust_step env (fst (handle_spend env now d s)) s (snd (handle_spend env now d s))"
proof -
  let ?nonce = "asset_nonce env (spend_utxo_tx_hash d) (spend_utxo_tx_index d)"
  show ?thesis
  proof (cases "UtxoOwners s ?nonce")
    case None
    then show ?thesis using assms(2) by (simp add: handle_spend_def dust_step_def Let_def)
  next
    case (Some owner)
    then obtain key where key: "deserialize_dust_key (cn_lib env) owner = Some key"
      using assms(2) by (auto simp: owners_ok_def)
    obtain b where "construct_cnight_generates_dust_event (cn_lib env) (spend_value d) owner now (action_code Destroy) ?nonce = Inr b"
      "deserialize_event (cn_lib env) b = Some \<lparr>event_value = spend_value d, event_owner = key, event_time = now,
        event_create = (Destroy = Create), event_nonce = ?nonce\<rparr>"
      using assms(1) key by (rule construct_event)
    then show ?thesis
      using Some key assms(2)
      by (auto simp: handle_spend_def dust_step_def Let_def owners_ok_def owners_view_def track_def)
  qed
qed

lemma process_utxo_dust_step:
  assumes "dust_laws (cn_lib env)" "owners_ok env s"
  shows "dust_step env (fst (process_utxo env u s)) s (snd (process_utxo env u s))"
  using assms create_dust_step [OF assms] spend_dust_step [OF assms]
  by (cases "utxo_data u")
    (auto simp: process_utxo_def Let_def dust_step_def owners_ok_def owners_view_def registration_frame removal_frame)

lemma process_utxos_dust:
  assumes "dust_laws (cn_lib env)" "owners_ok env s" "process_utxos env us s = (bs, s')"
  shows "\<exists>evs. map (deserialize_event (cn_lib env)) bs = map Some evs \<and> destroys_created (owners_view env s) evs
    \<and> fold track evs (owners_view env s) = owners_view env s' \<and> owners_ok env s'"
  using assms(2,3)
proof (induction us arbitrary: s bs)
  case (Cons u us)
  obtain out s1 where step: "process_utxo env u s = (out, s1)" by fastforce
  obtain bs1 where rest: "process_utxos env us s1 = (bs1, s')" "bs = (case out of Some b \<Rightarrow> b # bs1 | None \<Rightarrow> bs1)"
    using Cons.prems(2) step by (auto simp: case_prod_beta prod_eq_iff)
  have ds: "dust_step env out s s1"
    using process_utxo_dust_step [OF assms(1) Cons.prems(1), of u] step by simp
  then have ok: "owners_ok env s1"
    by (simp add: dust_step_def)
  obtain evs where evs: "map (deserialize_event (cn_lib env)) bs1 = map Some evs" "destroys_created (owners_view env s1) evs"
    "fold track evs (owners_view env s1) = owners_view env s'" "owners_ok env s'"
    using Cons.IH [OF ok rest(1)] by blast
  show ?case
  proof (cases out)
    case None
    with ds evs rest(2) show ?thesis by (auto simp: dust_step_def)
  next
    case (Some b)
    then obtain ev where "deserialize_event (cn_lib env) b = Some ev" "owners_view env s1 = track ev (owners_view env s)"
      "event_create ev \<or> owners_view env s (event_nonce ev) = Some (event_owner ev)"
      using ds by (auto simp: dust_step_def)
    with evs rest(2) Some show ?thesis
      by (intro exI [of _ "ev # evs"]) simp
  qed
qed simp

lemma construct_system:
  assumes "dust_laws lib" "map (deserialize_event lib) bs = map Some evs"
  obtains b where "construct_cnight_generates_dust_system_tx lib bs = Inr b"
    "deserialize_system lib b = Some (CNightGeneratesDustUpdate evs)"
proof -
  have "those (map Some evs) = Some evs"
    by (induction evs) simp_all
  moreover obtain b where "serialize_system lib (CNightGeneratesDustUpdate evs) = Some b"
    "deserialize_system lib b = Some (CNightGeneratesDustUpdate evs)"
    using assms(1) unfolding dust_laws_def by blast
  ultimately show thesis
    using assms(2) that by (auto simp: construct_cnight_generates_dust_system_tx_def tagged_system_def)
qed

text \<open>
  The migration: the cursor is behind every row that is left, and inserting the
  rows that are left always leads to the same mappings.
\<close>

definition migration_inv :: "(reward_address \<Rightarrow> u8 list) \<Rightarrow> reward_address option \<Rightarrow> cnight_storage \<Rightarrow> bool" where
  "migration_inv hk cursor s \<longleftrightarrow> sorted_wrt (\<lambda>r r'. hk (fst r) < hk (fst r')) (v0_Mappings s)
    \<and> (\<forall>k. cursor = Some k \<longrightarrow> (\<forall>r \<in> set (v0_Mappings s). hk k < hk (fst r)))"

definition move_rows :: "(reward_address \<times> MappingEntry list) list \<Rightarrow> cnight_storage \<Rightarrow> cnight_storage" where
  "move_rows rows s = fold (\<lambda>(addr, entries). insert_entries addr entries) rows s"

definition same_but_mappings :: "cnight_storage \<Rightarrow> cnight_storage \<Rightarrow> bool" where
  "same_but_mappings s s' \<longleftrightarrow> s' = s\<lparr>Mapping := Mapping s', v0_Mappings := v0_Mappings s',
     on_chain_storage_version := on_chain_storage_version s'\<rparr>"

lemma insert_entries_frame: "\<exists>m. insert_entries addr es s = s\<lparr>Mapping := m\<rparr>"
proof (induction es arbitrary: s)
  case Nil
  show ?case by (intro exI [of _ "Mapping s"]) (simp add: insert_entries_def)
next
  case (Cons e es)
  have "insert_entries addr (e # es) s = insert_entries addr es (mapping_insert addr (entry_utxo_id e) (entry_dust_key e) s)"
    by (simp add: insert_entries_def)
  with Cons [of "mapping_insert addr (entry_utxo_id e) (entry_dust_key e) s"] show ?case
    by (auto simp: mapping_insert_def)
qed

lemma insert_entries_Mapping:
  "Mapping s' = Mapping s \<Longrightarrow> Mapping (insert_entries addr es s') = Mapping (insert_entries addr es s)"
proof (induction es arbitrary: s s')
  case (Cons e es)
  have "Mapping (mapping_insert addr (entry_utxo_id e) (entry_dust_key e) s')
      = Mapping (mapping_insert addr (entry_utxo_id e) (entry_dust_key e) s)"
    by (simp add: mapping_insert_def Cons.prems)
  from Cons.IH [OF this] show ?case
    by (simp add: insert_entries_def)
qed (simp add: insert_entries_def)

lemma move_rows_Mapping: "Mapping s' = Mapping s \<Longrightarrow> Mapping (move_rows rows s') = Mapping (move_rows rows s)"
proof (induction rows arbitrary: s s')
  case (Cons row rows)
  obtain addr es where row: "row = (addr, es)" by (cases row)
  from Cons.IH [OF insert_entries_Mapping [OF Cons.prems, of addr es]] show ?case
    by (simp add: move_rows_def row)
qed (simp add: move_rows_def)

lemma iter_rows_all: "migration_inv hk c s \<Longrightarrow> iter_rows hk c s = v0_Mappings s"
  by (auto simp: migration_inv_def iter_rows_def case_prod_beta filter_id_conv split: option.split)

text \<open>Moving the first row.\<close>

lemma move_first:
  assumes "migration_inv hk c s" "v0_Mappings s = (addr, es) # rest"
  shows "v0_Mappings (insert_entries addr es (v0_remove addr s)) = rest"
    "migration_inv hk (Some addr) (insert_entries addr es (v0_remove addr s))"
    "Mapping (move_rows rest (insert_entries addr es (v0_remove addr s))) = Mapping (move_rows (v0_Mappings s) s)"
    "same_but_mappings s (insert_entries addr es (v0_remove addr s))"
    "on_chain_storage_version (insert_entries addr es (v0_remove addr s)) = on_chain_storage_version s"
proof -
  have others: "\<forall>r \<in> set rest. hk addr < hk (fst r)"
    using assms by (simp add: migration_inv_def)
  then have "filter (\<lambda>(a, _). a \<noteq> addr) rest = rest"
    by (auto simp: filter_id_conv)
  then show rest: "v0_Mappings (insert_entries addr es (v0_remove addr s)) = rest"
    using assms(2) by (simp add: v0_remove_def)
  show "migration_inv hk (Some addr) (insert_entries addr es (v0_remove addr s))"
    using assms others unfolding migration_inv_def rest by simp
  have eq: "Mapping (insert_entries addr es (v0_remove addr s)) = Mapping (insert_entries addr es s)"
    by (rule insert_entries_Mapping) (simp add: v0_remove_def)
  have "move_rows (v0_Mappings s) s = move_rows rest (insert_entries addr es s)"
    by (simp add: assms(2) move_rows_def)
  then show "Mapping (move_rows rest (insert_entries addr es (v0_remove addr s))) = Mapping (move_rows (v0_Mappings s) s)"
    using move_rows_Mapping [OF eq, of rest] by simp
  obtain m where "insert_entries addr es (v0_remove addr s) = (v0_remove addr s)\<lparr>Mapping := m\<rparr>"
    using insert_entries_frame by blast
  then show "same_but_mappings s (insert_entries addr es (v0_remove addr s))"
    "on_chain_storage_version (insert_entries addr es (v0_remove addr s)) = on_chain_storage_version s"
    by (simp_all add: v0_remove_def same_but_mappings_def)
qed

lemma same_but_mappings_trans:
  "same_but_mappings s s' \<Longrightarrow> same_but_mappings s' s'' \<Longrightarrow> same_but_mappings s s''"
  by (cases s; cases s'; cases s'') (simp add: same_but_mappings_def)

definition migrated :: "cnight_storage \<Rightarrow> bool" where
  "migrated s \<longleftrightarrow> v0_Mappings s = [] \<and> on_chain_storage_version s = 1"

lemma migrate_loop_effect:
  assumes "migration_inv hk c s" "migrate_loop hk req rem c s = (c', s')"
  shows "migration_inv hk c' s' \<and> same_but_mappings s s'
    \<and> Mapping (move_rows (v0_Mappings s') s') = Mapping (move_rows (v0_Mappings s) s)
    \<and> (if any_lt rem req then c' = c \<and> s' = s
       else c' = None \<and> migrated s' \<or> c' \<noteq> None \<and> length (v0_Mappings s') < length (v0_Mappings s))"
  using assms
proof (induction hk req rem c s rule: migrate_loop.induct)
  case (1 hk req rem c s)
  show ?case
  proof (cases "try_consume rem req")
    case None
    with "1.prems" show ?thesis
      by (auto simp: migrate_loop.simps [of hk req rem] try_consume_def same_but_mappings_def split: if_splits)
  next
    case (Some rem')
    then have afford: "\<not> any_lt rem req"
      by (auto simp: try_consume_def split: if_splits)
    show ?thesis
    proof (cases "v0_Mappings s")
      case Nil
      then show ?thesis
        using "1.prems" Some afford
        by (auto simp: migrate_loop.simps [of hk req rem] iter_rows_all migration_inv_def migrated_def same_but_mappings_def move_rows_def)
    next
      case (Cons row rest)
      obtain addr es where row: "row = (addr, es)" by (cases row)
      note first = move_first [OF "1.prems"(1) Cons [unfolded row]]
      let ?s = "insert_entries addr es (v0_remove addr s)"
      have rec: "migrate_loop hk req rem' (Some addr) ?s = (c', s')"
        using "1.prems" Some Cons row by (simp add: migrate_loop.simps [of hk req rem] iter_rows_all)
      have "iter_rows hk c s = (addr, es) # rest"
        using iter_rows_all [OF "1.prems"(1)] Cons row by simp
      note ih = "1.IH" [OF Some this refl first(2) rec]
      have "length (v0_Mappings s') \<le> length rest"
        using ih first(1) by (auto simp: migrated_def split: if_splits)
      moreover have "c' \<noteq> None \<or> migrated s'"
        using ih by (auto split: if_splits)
      moreover have "same_but_mappings s s'"
        using same_but_mappings_trans [OF first(4)] ih by blast
      ultimately show ?thesis
        using ih afford first(1,3) Cons by (cases c') simp_all
    qed
  qed
qed

text \<open>The migration driver calls the step once per block, each time with the weight that block leaves.\<close>

fun drive ::
  "(reward_address \<Rightarrow> u8 list) \<Rightarrow> weight \<Rightarrow> weight list \<Rightarrow> reward_address option \<Rightarrow> cnight_storage \<Rightarrow> bool \<times> cnight_storage" where
  "drive hk req [] cursor s = (False, s)"
| "drive hk req (m # ms) cursor s =
    (case migration_step hk req m cursor s of
       Inl _ \<Rightarrow> (False, s)
     | Inr (None, s') \<Rightarrow> (True, s')
     | Inr (Some c, s') \<Rightarrow> drive hk req ms (Some c) s')"

lemma drive_completes:
  assumes "migration_inv hk c s" "list_all (\<lambda>m. \<not> any_lt m req) meters" "length (v0_Mappings s) < length meters"
  shows "\<exists>s'. drive hk req meters c s = (True, s') \<and> migrated s' \<and> same_but_mappings s s'
    \<and> Mapping s' = Mapping (move_rows (v0_Mappings s) s)"
  using assms
proof (induction meters arbitrary: c s)
  case (Cons m ms)
  obtain c' s' where loop: "migrate_loop hk req m c s = (c', s')" by fastforce
  have ok: "\<not> any_lt m req" using Cons.prems(2) by simp
  note eff = migrate_loop_effect [OF Cons.prems(1) loop]
  show ?case
  proof (cases c')
    case None
    with eff ok loop show ?thesis
      by (auto simp: migration_step_def migrated_def move_rows_def)
  next
    case (Some k)
    then have "length (v0_Mappings s') < length ms"
      using eff ok Cons.prems(3) by auto
    moreover have "migration_inv hk (Some k) s'"
      using eff Some by blast
    ultimately obtain s'' where "drive hk req ms (Some k) s' = (True, s'')" "migrated s''" "same_but_mappings s' s''"
      "Mapping s'' = Mapping (move_rows (v0_Mappings s') s')"
      using Cons.IH [of "Some k" s'] Cons.prems(2) by auto
    moreover from this(3) have "same_but_mappings s s''"
      using eff same_but_mappings_trans by blast
    moreover have "drive hk req (m # ms) c s = drive hk req ms (Some k) s'"
      using ok loop Some by (simp add: migration_step_def)
    ultimately show ?thesis
      using eff by simp
  qed
qed simp

section \<open>A concrete library\<close>

text \<open>Dust events as sequences of numbers in unary, each closed by a zero byte.\<close>

definition enc_nat :: "nat \<Rightarrow> u8 list" where
  "enc_nat n = replicate n 1 @ [0]"

fun dec_nat :: "u8 list \<Rightarrow> (nat \<times> u8 list) option" where
  "dec_nat [] = None"
| "dec_nat (b # bs) = (if b = 0 then Some (0, bs) else map_option (\<lambda>(n, r). (Suc n, r)) (dec_nat bs))"

definition enc_list :: "('a \<Rightarrow> u8 list) \<Rightarrow> 'a list \<Rightarrow> u8 list" where
  "enc_list enc xs = enc_nat (length xs) @ concat (map enc xs)"

primrec dec_many :: "(u8 list \<Rightarrow> ('a \<times> u8 list) option) \<Rightarrow> nat \<Rightarrow> u8 list \<Rightarrow> ('a list \<times> u8 list) option" where
  "dec_many dec 0 bs = Some ([], bs)"
| "dec_many dec (Suc n) bs =
    Option.bind (dec bs) (\<lambda>(x, r). map_option (\<lambda>(xs, r'). (x # xs, r')) (dec_many dec n r))"

definition dec_list :: "(u8 list \<Rightarrow> ('a \<times> u8 list) option) \<Rightarrow> u8 list \<Rightarrow> ('a list \<times> u8 list) option" where
  "dec_list dec bs = Option.bind (dec_nat bs) (\<lambda>(n, r). dec_many dec n r)"

definition enc_event :: "CNightGeneratesDustEvent \<Rightarrow> u8 list" where
  "enc_event ev = enc_list enc_nat ([unat (event_value ev), unat (event_time ev), of_bool (event_create ev),
     length (event_owner ev)] @ map unat (event_owner ev @ event_nonce ev))"

definition dec_event :: "u8 list \<Rightarrow> (CNightGeneratesDustEvent \<times> u8 list) option" where
  "dec_event bs = Option.bind (dec_list dec_nat bs) (\<lambda>(ns, r).
    case ns of
      v # t # c # l # rest \<Rightarrow> Some (\<lparr>event_value = word_of_nat v, event_owner = map word_of_nat (take l rest),
        event_time = word_of_nat t, event_create = (c \<noteq> 0), event_nonce = map word_of_nat (drop l rest)\<rparr>, r)
    | _ \<Rightarrow> None)"

lemma dec_enc_nat [simp]: "dec_nat (enc_nat n @ r) = Some (n, r)"
  by (induction n) (simp_all add: enc_nat_def)

lemma dec_enc_many:
  assumes "\<And>x r. dec (enc x @ r) = Some (x, r)"
  shows "dec_many dec (length xs) (concat (map enc xs) @ r) = Some (xs, r)"
  by (induction xs) (simp_all add: assms)

lemma dec_enc_list:
  assumes "\<And>x r. dec (enc x @ r) = Some (x, r)"
  shows "dec_list dec (enc_list enc xs @ r) = Some (xs, r)"
  using dec_enc_many [of dec enc xs r] by (simp add: dec_list_def enc_list_def assms)

lemma dec_enc_event: "dec_event (enc_event ev @ r) = Some (ev, r)"
  using dec_enc_list [of dec_nat enc_nat]
  by (cases ev) (simp add: dec_event_def enc_event_def comp_def map_idI)

definition cx_lib :: "(u8, u8, u8, u8 list) mn_ledger" where
  "cx_lib = lx_lib\<lparr>serialize_event := (\<lambda>ev. Some (enc_event ev)), deserialize_event := (\<lambda>b. map_option fst (dec_event b)),
     serialize_system := (\<lambda>tx. case tx of CNightGeneratesDustUpdate evs \<Rightarrow> Some (enc_list enc_event evs) | _ \<Rightarrow> None),
     deserialize_system := (\<lambda>b. map_option (\<lambda>(evs, _). CNightGeneratesDustUpdate evs) (dec_list dec_event b))\<rparr>"

lemma cx_laws: "dust_laws cx_lib"
  using dec_enc_event [of _ "[]"] dec_enc_list [of dec_event enc_event _ "[]", OF dec_enc_event]
  by (simp add: dust_laws_def cx_lib_def)

text \<open>
  A storage with one registration, and the UTXOs of a second registration, of a
  creation and of its spend.  The executor counts the transactions it is given.
\<close>

definition cx_env :: "(u8, u8, u8, u8 list, nat, unit) cnight_env" where
  "cx_env = \<lparr>cn_lib = cx_lib, Hashing = id, executor = (\<lambda>b n. (Inr b, Suc n))\<rparr>"

definition cx_position :: "u32 \<Rightarrow> CardanoPosition" where
  "cx_position n = \<lparr>block_hash = [1], block_number = n, block_timestamp = 5000, tx_index_in_block = 0\<rparr>"

definition cx_state :: cnight_storage where
  "cx_state = \<lparr>MainChainMappingValidatorAddress = [], MainChainAuthTokenAssetName = [],
     Mapping = (\<lambda>a. if a = [7] then [(([1], 0), [9])] else []), UtxoOwners = Map.empty, NextCardanoPosition = cx_position 3,
     CNightIdentifier = ([], []), CardanoBlockWindowSize = 1000, CardanoTxCapacityPerBlock = 200,
     InherentExecutedThisBlock = False, on_chain_storage_version = 1, v0_Mappings = [], cn_events = []\<rparr>"

definition cx_header :: "u8 \<Rightarrow> ObservedUtxoHeader" where
  "cx_header n = \<lparr>tx_position = cx_position 4, tx_hash = [n], utxo_tx_hash = [n], utxo_index = 0\<rparr>"

definition cx_register :: ObservedUtxo where
  "cx_register = \<lparr>header = cx_header 2, utxo_data = Registration \<lparr>reg_address = [7], reg_dust_key = [8]\<rparr>\<rparr>"

definition cx_create :: ObservedUtxo where
  "cx_create = \<lparr>header = cx_header 5, utxo_data = AssetCreate
     \<lparr>create_value = 3, create_owner = [7], create_utxo_tx_hash = [5], create_utxo_tx_index = 0\<rparr>\<rparr>"

definition cx_spend :: ObservedUtxo where
  "cx_spend = \<lparr>header = cx_header 6, utxo_data = AssetSpend
     \<lparr>spend_value = 3, spend_owner = [7], spend_utxo_tx_hash = [5], spend_utxo_tx_index = 0, spending_tx_hash = [6]\<rparr>\<rparr>"

lemmas cx_defs = cx_env_def cx_position_def cx_state_def cx_header_def cx_register_def cx_create_def cx_spend_def

lemma cx_run:
  obtains s' x' where "process_tokens cx_env True ([cx_create, cx_spend], cx_position 4) (cx_state, 0) = (Inr (), s', x')" "x' = 1"
proof -
  have lib: "deserialize_dust_key cx_lib k = Some k" "serialize_event cx_lib ev = Some (enc_event ev)" "cn_lib cx_env = cx_lib" for k ev
    by (simp_all add: cx_lib_def lx_lib_def cx_env_def)
  obtain s1 where "process_utxos cx_env [cx_create, cx_spend] (cx_state\<lparr>InherentExecutedThisBlock := True\<rparr>)
      = ([enc_event \<lparr>event_value = 3, event_owner = [9], event_time = 5, event_create = True, event_nonce = asset_nonce cx_env [5] 0\<rparr>,
          enc_event \<lparr>event_value = 3, event_owner = [9], event_time = 5, event_create = False, event_nonce = asset_nonce cx_env [5] 0\<rparr>], s1)"
    (is "_ = (?bs, _)")
    by (simp add: process_utxo_def handle_create_def handle_spend_def get_registration_def unique_dust_key_def
        construct_cnight_generates_dust_event_def action_code_def lib Let_def
        cx_create_def cx_spend_def cx_header_def cx_position_def cx_state_def)
  moreover have "\<exists>b. construct_cnight_generates_dust_system_tx cx_lib ?bs = Inr b"
    using dec_enc_event [of _ "[]"]
    by (simp add: construct_cnight_generates_dust_system_tx_def tagged_system_def cx_lib_def)
  ultimately show thesis
    using that by (auto simp: process_tokens_def lib UTXO_PER_TX_OVERESTIMATE_def STORAGE_VERSION_def pos_le_def position_cmp_def cmp_def
        saturating_mul_def Let_def cx_env_def cx_state_def cx_position_def)
qed

section \<open>Properties\<close>

text \<open>
  C24: the events of the pallet tell its registrations.  After any inherent,
  whatever it observed, a reader who started from the registrations before it
  and follows the registration and deregistration events has the registrations
  after it: an address is registered exactly while a single mapping is stored
  for it.
\<close>

theorem registrations_replay:
  assumes "mapping_consistent datum s" "list_all (utxo_consistent datum) utxos"
    and "process_tokens env none (utxos, next) (s, x) = (Inr (), s', x')"
  shows "\<exists>evs. cn_events s' = cn_events s @ evs \<and> foldl replay_event (registrations s) evs = registrations s'"
proof -
  let ?s0 = "s\<lparr>InherentExecutedThisBlock := True\<rparr>"
  have "mapping_consistent datum ?s0"
    using assms(1) by (simp add: mapping_consistent_def)
  then have all: "tells ?s0 (snd (process_utxos env utxos ?s0))"
    using process_utxos_tells assms(2) by blast
  have start: "tells s ?s0"
    by (rule tells_frame) simp_all
  have sys: "tells s1 (cn_deposit (SystemTransactionApplied hdr h) (s1\<lparr>NextCardanoPosition := next\<rparr>))" for s1 hdr h
    unfolding tells_def by (intro exI [of _ "[SystemTransactionApplied hdr h]"])
      (simp add: cn_deposit_def registrations_def get_registration_def unique_dust_key_def)
  have pos: "tells s1 (s1\<lparr>NextCardanoPosition := next\<rparr>)" for s1
    by (rule tells_frame) simp_all
  have "tells s s'"
    using assms(3)
  proof (cases rule: process_tokens_ok)
    case migrating
    with start show ?thesis by simp
  next
    case (silent evs s1)
    with all have "tells ?s0 s1" by simp
    with start pos silent(2) show ?thesis by (blast intro: tells_trans)
  next
    case (applied evs s1 b h hdr)
    with all have "tells ?s0 s1" by simp
    with start sys applied(2) show ?thesis by (blast intro: tells_trans)
  qed
  then show ?thesis by (simp add: tells_def)
qed

theorem registrations_replay_witness:
  "\<exists>evs s' x'. process_tokens cx_env True ([cx_register], cx_position 4) (cx_state, 0) = (Inr (), s', x')
    \<and> foldl replay_event (registrations cx_state) evs = registrations s' \<and> registrations s' [7] = None"
proof -
  obtain s' x' where run: "process_tokens cx_env True ([cx_register], cx_position 4) (cx_state, 0) = (Inr (), s', x')"
    and none: "unique_dust_key [7] s' = None"
    by (simp add: process_tokens_def process_utxo_def handle_registration_def mapping_insert_def unique_dust_key_def
        header_utxo_id_def cn_deposit_def UTXO_PER_TX_OVERESTIMATE_def STORAGE_VERSION_def pos_le_def position_cmp_def cmp_def
        saturating_mul_def Let_def cx_defs)
  have "mapping_consistent (\<lambda>u. if u = ([1], 0) then [9] else [8]) cx_state"
    "list_all (utxo_consistent (\<lambda>u. if u = ([1], 0) then [9] else [8])) [cx_register]"
    by (simp_all add: mapping_consistent_def utxo_consistent_def header_utxo_id_def cx_defs)
  from registrations_replay [OF this run] run none show ?thesis
    by (auto simp: registrations_def get_registration_def)
qed

text \<open>
  C19: the ledger is told of a cNIGHT UTXO exactly as the pallet tracks it.  The
  events that an inherent hands to the ledger, read back, create and destroy
  the owners that the pallet stores, and a destruction is only sent for a UTXO
  whose creation was sent before, with the owner it was created with.
\<close>

theorem dust_events_track_owners:
  assumes "dust_laws (cn_lib env)" "owners_ok env s" "STORAGE_VERSION \<le> on_chain_storage_version s"
    and "process_tokens env none (utxos, next) (s, x) = (Inr (), s', x')"
  shows "\<exists>evs. (if evs = [] then x' = x
      else \<exists>b h. deserialize_system (cn_lib env) b = Some (CNightGeneratesDustUpdate evs) \<and> executor env b x = (Inr h, x'))
    \<and> destroys_created (owners_view env s) evs \<and> fold track evs (owners_view env s) = owners_view env s' \<and> owners_ok env s'"
proof -
  let ?s0 = "s\<lparr>InherentExecutedThisBlock := True\<rparr>"
  have view: "owners_view env (s1\<lparr>NextCardanoPosition := p\<rparr>) = owners_view env s1"
    "owners_view env (cn_deposit ev s1) = owners_view env s1" "owners_view env ?s0 = owners_view env s"
    "owners_ok env (s1\<lparr>NextCardanoPosition := p\<rparr>) = owners_ok env s1" "owners_ok env (cn_deposit ev s1) = owners_ok env s1"
    "owners_ok env ?s0" for s1 p ev
    using assms(2) by (simp_all add: owners_view_def fun_eq_iff owners_ok_def cn_deposit_def)
  from assms(4) show ?thesis
  proof (cases rule: process_tokens_ok)
    case migrating
    with assms(3) show ?thesis by simp
  next
    case (silent bs s1)
    obtain evs where evs: "map (deserialize_event (cn_lib env)) bs = map Some evs" "destroys_created (owners_view env s) evs"
      "fold track evs (owners_view env s) = owners_view env s1" "owners_ok env s1"
      using process_utxos_dust [OF assms(1) view(6) silent(1)] view(3) by auto
    have "\<exists>b. construct_cnight_generates_dust_system_tx (cn_lib env) bs = Inr b"
      using construct_system [OF assms(1) evs(1)] by metis
    with silent(5) evs(1) have "evs = []" by auto
    with evs silent(2,3) view show ?thesis by (intro exI [of _ "[]"]) simp
  next
    case (applied bs s1 b h hdr)
    obtain evs where evs: "map (deserialize_event (cn_lib env)) bs = map Some evs" "destroys_created (owners_view env s) evs"
      "fold track evs (owners_view env s) = owners_view env s1" "owners_ok env s1"
      using process_utxos_dust [OF assms(1) view(6) applied(1)] view(3) by auto
    obtain b' where "construct_cnight_generates_dust_system_tx (cn_lib env) bs = Inr b'"
      "deserialize_system (cn_lib env) b' = Some (CNightGeneratesDustUpdate evs)"
      using construct_system [OF assms(1) evs(1)] by metis
    moreover have "evs \<noteq> []" using applied(6) evs(1) by auto
    ultimately show ?thesis
      using evs applied(2,3,4) view by (intro exI [of _ evs]) auto
  qed
qed

theorem dust_events_track_owners_witness:
  "\<exists>s' evs b h. process_tokens cx_env True ([cx_create, cx_spend], cx_position 4) (cx_state, 0) = (Inr (), s', 1)
    \<and> deserialize_system cx_lib b = Some (CNightGeneratesDustUpdate evs) \<and> executor cx_env b 0 = (Inr h, 1)
    \<and> destroys_created Map.empty evs"
proof -
  obtain s' x' where run: "process_tokens cx_env True ([cx_create, cx_spend], cx_position 4) (cx_state, 0) = (Inr (), s', x')"
    and x': "x' = 1"
    by (rule cx_run)
  have "owners_ok cx_env cx_state" "STORAGE_VERSION \<le> on_chain_storage_version cx_state" "owners_view cx_env cx_state = Map.empty"
    by (simp_all add: owners_ok_def owners_view_def fun_eq_iff STORAGE_VERSION_def cx_defs)
  moreover have "cn_lib cx_env = cx_lib"
    by (simp add: cx_env_def)
  ultimately show ?thesis
    using dust_events_track_owners [OF _ _ _ run] cx_laws run x' by (auto split: if_splits)
qed


definition cx_rows :: "(reward_address \<times> MappingEntry list) list" where
  "cx_rows = [([1], [\<lparr>entry_address = [1], entry_dust_key = [8], entry_utxo_id = ([2], 0)\<rparr>]),
     ([2], [\<lparr>entry_address = [2], entry_dust_key = [9], entry_utxo_id = ([3], 0)\<rparr>])]"


end
