(* ===== verification/C2M_Bridge.thy ===== *)
theory C2M_Bridge
  imports Ledger_Bridge Inherents System_Executor
begin

text \<open>
  The bridge from Cardano: the token bridge pallet of the partner-chains toolkit
  (\<open>partner-chains/toolkit/bridge/pallet/src/lib.rs\<close>), whose inherent carries the
  transfers observed on Cardano, and the c2m-bridge pallet
  (\<open>pallets/c2m-bridge/src/lib.rs\<close>), which handles each transfer with a ledger
  system transaction.

  The executor of system transactions, the minimum amount that the ledger asks
  for, the hash function and the ledger library are parameters.  A panic is
  \<open>None\<close>.
\<close>

section \<open>Data\<close>

datatype 'r TransferRecipient = Address 'r | Reserve | Invalid

record 'r BridgeTransferV1 =
  mc_tx_hash :: hash
  amount :: u64
  recipient :: "'r TransferRecipient"

definition new_invalid :: "hash \<Rightarrow> u64 \<Rightarrow> 'r BridgeTransferV1" where
  "new_invalid h a = \<lparr>mc_tx_hash = h, amount = a, recipient = Invalid\<rparr>"

datatype BridgeDataCheckpoint = TxCheckpoint hash | BlockCheckpoint u32

record 'r TokenBridgeTransfersV1 =
  transfers :: "'r BridgeTransferV1 list"
  data_checkpoint :: BridgeDataCheckpoint

record MainChainScripts =
  token_policy_id :: "u8 list"
  token_asset_name :: "u8 list"
  illiquid_circulation_supply_validator_address :: "u8 list"
  reserve_validator_address :: "u8 list"

type_synonym BridgeRecipient = "u8 list"

definition BRIDGE_RECIPIENT_MAX_BYTES :: nat where "BRIDGE_RECIPIENT_MAX_BYTES = 32"

definition recipient_try_from :: "u8 list \<Rightarrow> BridgeRecipient option" where
  "recipient_try_from bytes = (if length bytes \<le> BRIDGE_RECIPIENT_MAX_BYTES then Some bytes else None)"

section \<open>The token bridge pallet\<close>

datatype bridge_error = InherentAlreadyExecuted
datatype bridge_failure = BridgeBadOrigin | BridgeError bridge_error

datatype bridge_inherent_error = InherentRequired | InherentNotExpected | IncorrectInherent

datatype 'r bridge_call = handle_transfers_call "'r BridgeTransferV1 list" BridgeDataCheckpoint | other_bridge_call

record bridge_storage =
  MainChainScriptsConfiguration :: "MainChainScripts option"
  DataCheckpoint :: "BridgeDataCheckpoint option"
  InherentExecutedThisBlock :: bool

definition bridge_genesis_build :: "MainChainScripts option \<Rightarrow> hash option \<Rightarrow> bridge_storage \<Rightarrow> bridge_storage" where
  "bridge_genesis_build scripts initial_checkpoint s =
    s\<lparr>MainChainScriptsConfiguration := scripts, DataCheckpoint := map_option TxCheckpoint initial_checkpoint\<rparr>"

definition bridge_on_finalize :: "bridge_storage \<times> 'h \<Rightarrow> bridge_storage \<times> 'h" where
  "bridge_on_finalize = (\<lambda>(s, h). (s\<lparr>InherentExecutedThisBlock := False\<rparr>, h))"

definition handle_transfers ::
  "('r BridgeTransferV1 \<Rightarrow> 'h \<Rightarrow> 'h) \<Rightarrow> bool \<Rightarrow> 'r BridgeTransferV1 list \<times> BridgeDataCheckpoint
    \<Rightarrow> (bridge_storage \<times> 'h, bridge_failure, unit) st_result" where
  "handle_transfers handle_incoming none_origin = (\<lambda>(ts, checkpoint) (s, h).
    if \<not> none_origin then (Inl BridgeBadOrigin, s, h)
    else if InherentExecutedThisBlock s then (Inl (BridgeError InherentAlreadyExecuted), s, h)
    else (Inr (), s\<lparr>InherentExecutedThisBlock := True, DataCheckpoint := Some checkpoint\<rparr>, fold handle_incoming ts h))"

definition set_main_chain_scripts ::
  "bool \<Rightarrow> MainChainScripts \<Rightarrow> BridgeDataCheckpoint \<Rightarrow> (bridge_storage, bridge_failure, unit) st_result" where
  "set_main_chain_scripts governance new_scripts checkpoint s =
    (if \<not> governance then (Inl BridgeBadOrigin, s)
     else (Inr (), s\<lparr>MainChainScriptsConfiguration := Some new_scripts, DataCheckpoint := Some checkpoint\<rparr>))"

text \<open>
  The inherent data of the pallet, when it decodes, is absent or a list of
  transfers; data that does not decode, or too many transfers, is a panic.
\<close>

type_synonym 'r bridge_data = "'r TokenBridgeTransfersV1 option option"

definition bridge_create_inherent :: "nat \<Rightarrow> 'r bridge_data \<Rightarrow> 'r bridge_call option option" where
  "bridge_create_inherent max_transfers data =
    (case data of
       None \<Rightarrow> None
     | Some None \<Rightarrow> Some None
     | Some (Some d) \<Rightarrow>
         (if length (transfers d) \<le> max_transfers
          then Some (Some (handle_transfers_call (transfers d) (data_checkpoint d))) else None))"

definition bridge_check_inherent ::
  "nat \<Rightarrow> 'r bridge_call \<Rightarrow> 'r bridge_data \<Rightarrow> (bridge_inherent_error, unit) result option" where
  "bridge_check_inherent max_transfers call data =
    map_option (\<lambda>expected. case expected of
        None \<Rightarrow> Inl InherentNotExpected
      | Some expected_call \<Rightarrow> if call \<noteq> expected_call then Inl IncorrectInherent else Inr ())
      (bridge_create_inherent max_transfers data)"

definition bridge_is_inherent :: "'r bridge_call \<Rightarrow> bool" where
  "bridge_is_inherent call = (case call of handle_transfers_call _ _ \<Rightarrow> True | _ \<Rightarrow> False)"

definition bridge_is_inherent_required :: "'r bridge_data \<Rightarrow> bridge_inherent_error option option" where
  "bridge_is_inherent_required data = map_option (map_option (\<lambda>_. InherentRequired)) data"

section \<open>The c2m-bridge pallet\<close>

record SubminimalTransfersState =
  sub_count :: u32
  sub_sum :: u64

datatype c2m_event =
    UserTransfer hash u64 BridgeRecipient hash
  | ReserveTransfer hash u64 hash
  | InvalidTransfer hash u64 hash
  | UnapprovedTransfer hash u64 BridgeRecipient hash
  | SubminimalFlushTransfer u64 u32 hash

record c2m_storage =
  subminimal_transfers_flush_threshold :: u64
  SubminimalTransfers :: SubminimalTransfersState
  TransferCounter :: u32
  ApprovedMcTxHashes :: "hash \<Rightarrow> bool"
  c2m_events :: "c2m_event list"

record ('st, 'tx, 'vt, 'k, 'x, 'e) c2m_env =
  c2m_lib :: "('st, 'tx, 'vt, 'k) mn_ledger"
  blake2_256 :: "u8 list \<Rightarrow> u8 list"
  c2m_parent_hash :: "u8 list"
  c2m_executor :: "u8 list \<Rightarrow> ('x, 'e, hash) st_result"
  min_bridge_amount :: "'x \<Rightarrow> (LedgerApiError, u128) result"

definition no_subminimal :: SubminimalTransfersState where
  "no_subminimal = \<lparr>sub_count = 0, sub_sum = 0\<rparr>"

definition c2m_genesis_build :: "u64 \<Rightarrow> hash list \<Rightarrow> c2m_storage \<Rightarrow> c2m_storage" where
  "c2m_genesis_build threshold approved_txs s =
    s\<lparr>subminimal_transfers_flush_threshold := threshold,
      ApprovedMcTxHashes := fold (\<lambda>h m. m(h := True)) approved_txs (ApprovedMcTxHashes s)\<rparr>"

definition c2m_on_finalize :: "c2m_storage \<Rightarrow> c2m_storage" where
  "c2m_on_finalize s = s\<lparr>TransferCounter := 0\<rparr>"

definition set_subminimal_transfers_config :: "bool \<Rightarrow> u64 \<Rightarrow> (c2m_storage, unit, unit) st_result" where
  "set_subminimal_transfers_config governance threshold s =
    (if governance then (Inr (), s\<lparr>subminimal_transfers_flush_threshold := threshold\<rparr>) else (Inl (), s))"

definition add_approved_mc_tx_hashes :: "bool \<Rightarrow> hash list \<Rightarrow> (c2m_storage, unit, unit) st_result" where
  "add_approved_mc_tx_hashes governance hashes s =
    (if governance then (Inr (), s\<lparr>ApprovedMcTxHashes := fold (\<lambda>h m. m(h := True)) hashes (ApprovedMcTxHashes s)\<rparr>)
     else (Inl (), s))"

text \<open>The bytes of \<open>midnight:bridge-transfer-nonce:\<close>.\<close>

definition nonce_prefix :: "u8 list" where
  "nonce_prefix = map word_of_nat [109, 105, 100, 110, 105, 103, 104, 116, 58, 98, 114, 105, 100, 103, 101, 45,
     116, 114, 97, 110, 115, 102, 101, 114, 45, 110, 111, 110, 99, 101, 58]"

definition generate_nonce ::
  "('st, 'tx, 'vt, 'k, 'x, 'e) c2m_env \<Rightarrow> c2m_storage \<Rightarrow> u8 list \<times> c2m_storage" where
  "generate_nonce env s =
    (blake2_256 env (nonce_prefix @ c2m_parent_hash env @ u32_to_le_bytes (TransferCounter s)),
     s\<lparr>TransferCounter := TransferCounter s + 1\<rparr>)"

definition execute_serialized_tx ::
  "('st, 'tx, 'vt, 'k, 'x, 'e) c2m_env \<Rightarrow> (LedgerApiError, u8 list) result \<Rightarrow> (hash \<Rightarrow> c2m_event)
    \<Rightarrow> c2m_storage \<times> 'x \<Rightarrow> c2m_storage \<times> 'x" where
  "execute_serialized_tx env result make_event = (\<lambda>(s, x).
    case result of
      Inr serialized_tx \<Rightarrow>
        (case c2m_executor env serialized_tx x of
           (Inr txh, x') \<Rightarrow> (s\<lparr>c2m_events := c2m_events s @ [make_event txh]\<rparr>, x')
         | (Inl _, x') \<Rightarrow> (s, x'))
    | Inl _ \<Rightarrow> (s, x))"

definition handle_subminimal_transfer ::
  "('st, 'tx, 'vt, 'k, 'x, 'e) c2m_env \<Rightarrow> BridgeRecipient BridgeTransferV1 \<Rightarrow> c2m_storage \<times> 'x \<Rightarrow> c2m_storage \<times> 'x" where
  "handle_subminimal_transfer env t = (\<lambda>(s, x).
    let total = saturating_add (sub_sum (SubminimalTransfers s)) (amount t);
        n = saturating_add (sub_count (SubminimalTransfers s)) 1
    in if total > subminimal_transfers_flush_threshold s
       then let (s', x') = execute_serialized_tx env
                  (construct_unlock_to_treasury_system_tx (c2m_lib env) (ucast total)) (SubminimalFlushTransfer total n) (s, x)
            in (s'\<lparr>SubminimalTransfers := no_subminimal\<rparr>, x')
       else (s\<lparr>SubminimalTransfers := \<lparr>sub_count = n, sub_sum = total\<rparr>\<rparr>, x))"

definition handle_invalid_transfer ::
  "('st, 'tx, 'vt, 'k, 'x, 'e) c2m_env \<Rightarrow> hash \<Rightarrow> u64 \<Rightarrow> c2m_storage \<times> 'x \<Rightarrow> c2m_storage \<times> 'x" where
  "handle_invalid_transfer env mc_hash amt =
    execute_serialized_tx env (construct_unlock_to_treasury_system_tx (c2m_lib env) (ucast amt)) (InvalidTransfer mc_hash amt)"

definition handle_reserve_transfer ::
  "('st, 'tx, 'vt, 'k, 'x, 'e) c2m_env \<Rightarrow> hash \<Rightarrow> u64 \<Rightarrow> c2m_storage \<times> 'x \<Rightarrow> c2m_storage \<times> 'x" where
  "handle_reserve_transfer env mc_hash amt =
    execute_serialized_tx env (construct_distribute_reserve_system_tx (c2m_lib env) (ucast amt)) (ReserveTransfer mc_hash amt)"

definition handle_user_transfer ::
  "('st, 'tx, 'vt, 'k, 'x, 'e) c2m_env \<Rightarrow> hash \<Rightarrow> u64 \<Rightarrow> BridgeRecipient \<Rightarrow> c2m_storage \<times> 'x \<Rightarrow> c2m_storage \<times> 'x" where
  "handle_user_transfer env mc_hash amt rcpt = (\<lambda>(s, x).
    if \<not> ApprovedMcTxHashes s mc_hash
    then execute_serialized_tx env (construct_unlock_to_treasury_system_tx (c2m_lib env) (ucast amt))
           (UnapprovedTransfer mc_hash amt rcpt) (s, x)
    else let s1 = s\<lparr>ApprovedMcTxHashes := (ApprovedMcTxHashes s)(mc_hash := False)\<rparr>;
             (nonce, s2) = generate_nonce env s1
         in execute_serialized_tx env
              (construct_distribute_night_cardano_bridge_system_tx (c2m_lib env) (ucast amt) rcpt nonce)
              (UserTransfer mc_hash amt rcpt) (s2, x))"

definition handle_regular_transfer ::
  "('st, 'tx, 'vt, 'k, 'x, 'e) c2m_env \<Rightarrow> BridgeRecipient BridgeTransferV1 \<Rightarrow> c2m_storage \<times> 'x \<Rightarrow> c2m_storage \<times> 'x" where
  "handle_regular_transfer env t =
    (case recipient t of
       Invalid \<Rightarrow> handle_invalid_transfer env (mc_tx_hash t) (amount t)
     | Reserve \<Rightarrow> handle_reserve_transfer env (mc_tx_hash t) (amount t)
     | Address rcpt \<Rightarrow> handle_user_transfer env (mc_tx_hash t) (amount t) rcpt)"

definition handle_incoming_transfer ::
  "('st, 'tx, 'vt, 'k, 'x, 'e) c2m_env \<Rightarrow> BridgeRecipient BridgeTransferV1 \<Rightarrow> c2m_storage \<times> 'x \<Rightarrow> c2m_storage \<times> 'x" where
  "handle_incoming_transfer env t = (\<lambda>(s, x).
    case min_bridge_amount env x of
      Inr min_amount \<Rightarrow>
        if (ucast (amount t) :: u128) < min_amount then handle_subminimal_transfer env t (s, x)
        else handle_regular_transfer env t (s, x)
    | Inl _ \<Rightarrow> handle_regular_transfer env t (s, x))"

section \<open>The value of transfers\<close>

text \<open>
  What a serialized system transaction moves, what has been moved by the
  transactions that were applied, and what is accounted for: the latter together
  with the stash of subminimal transfers.
\<close>

definition tx_value :: "('st, 'tx, 'vt, 'k) mn_ledger \<Rightarrow> u8 list \<Rightarrow> nat" where
  "tx_value lib b = (case deserialize_system lib b of
     Some (UnlockToTreasury v) \<Rightarrow> unat v
   | Some (DistributeReserve v) \<Rightarrow> unat v
   | Some (DistributeNight _ outs) \<Rightarrow> sum_list (map (\<lambda>out. unat (instruction_amount out)) outs)
   | _ \<Rightarrow> 0)"

definition accounted :: "('st, 'tx, 'vt, 'k) mn_ledger \<Rightarrow> ('x \<Rightarrow> u8 list list) \<Rightarrow> c2m_storage \<times> 'x \<Rightarrow> nat" where
  "accounted lib applied = (\<lambda>(s, x). unat (sub_sum (SubminimalTransfers s)) + sum_list (map (tx_value lib) (applied x)))"

text \<open>
  Documented of the library: the system transactions of the bridge serialize, and
  deserialize to what they were.
\<close>

definition bridge_tx :: "SystemTransaction \<Rightarrow> bool" where
  "bridge_tx tx = (case tx of
     UnlockToTreasury _ \<Rightarrow> True
   | DistributeReserve _ \<Rightarrow> True
   | DistributeNight CardanoBridge [out] \<Rightarrow> length (instruction_target out) = 32
   | _ \<Rightarrow> False)"

definition system_laws :: "('st, 'tx, 'vt, 'k) mn_ledger \<Rightarrow> bool" where
  "system_laws lib \<longleftrightarrow>
    (\<forall>tx. bridge_tx tx \<longrightarrow> (\<exists>b. serialize_system lib tx = Some b \<and> deserialize_system lib b = Some tx))"

text \<open>
  A transfer is creditable when a user's recipient is a ledger address, and the
  stash can hold it.  The executor accepts, in a state, when it executes every
  well-formed system transaction there.
\<close>

definition creditable :: "BridgeRecipient BridgeTransferV1 \<Rightarrow> bool" where
  "creditable t \<longleftrightarrow> (case recipient t of Address r \<Rightarrow> length r = 32 | _ \<Rightarrow> True)"

definition accepting :: "('st, 'tx, 'vt, 'k, 'x, 'e) c2m_env \<Rightarrow> 'x \<Rightarrow> bool" where
  "accepting env x \<longleftrightarrow> (\<forall>b. deserialize_system (c2m_lib env) b \<noteq> None \<longrightarrow> is_ok (fst (c2m_executor env b x)))"

lemma unat_ucast_u64 [simp]: "unat (ucast (a :: u64) :: u128) = unat a"
proof -
  have "unat a < 2 ^ LENGTH(64)"
    by (rule unsigned_less)
  then show ?thesis
    by (simp add: unsigned_ucast_eq take_bit_nat_eq_self_iff)
qed

lemma construct_values:
  assumes "system_laws lib"
  shows "\<exists>b. construct_unlock_to_treasury_system_tx lib (ucast (a :: u64)) = Inr b \<and> tx_value lib b = unat a
      \<and> deserialize_system lib b \<noteq> None"
    "\<exists>b. construct_distribute_reserve_system_tx lib (ucast a) = Inr b \<and> tx_value lib b = unat a
      \<and> deserialize_system lib b \<noteq> None"
    "length r = 32 \<Longrightarrow> \<exists>b. construct_distribute_night_cardano_bridge_system_tx lib (ucast a) r nonce = Inr b
      \<and> tx_value lib b = unat a \<and> deserialize_system lib b \<noteq> None"
    "length r \<noteq> 32 \<Longrightarrow> construct_distribute_night_cardano_bridge_system_tx lib (ucast a) r nonce
      = Inl (Le_Deserialization De_UserAddress)"
proof -
  have ser: "\<exists>b. tagged_system lib tx = Inr b \<and> deserialize_system lib b = Some tx" if kind: "bridge_tx tx" for tx
  proof -
    obtain b where "serialize_system lib tx = Some b" "deserialize_system lib b = Some tx"
      using assms kind unfolding system_laws_def by blast
    then show ?thesis by (simp add: tagged_system_def)
  qed
  show "\<exists>b. construct_unlock_to_treasury_system_tx lib (ucast a) = Inr b \<and> tx_value lib b = unat a
      \<and> deserialize_system lib b \<noteq> None"
    using ser [of "UnlockToTreasury (ucast a)"] by (auto simp: construct_unlock_to_treasury_system_tx_def tx_value_def bridge_tx_def)
  show "\<exists>b. construct_distribute_reserve_system_tx lib (ucast a) = Inr b \<and> tx_value lib b = unat a
      \<and> deserialize_system lib b \<noteq> None"
    using ser [of "DistributeReserve (ucast a)"] by (auto simp: construct_distribute_reserve_system_tx_def tx_value_def bridge_tx_def)
  show "length r = 32 \<Longrightarrow> \<exists>b. construct_distribute_night_cardano_bridge_system_tx lib (ucast a) r nonce = Inr b
      \<and> tx_value lib b = unat a \<and> deserialize_system lib b \<noteq> None"
    using ser [of "DistributeNight CardanoBridge [\<lparr>instruction_amount = ucast a, instruction_target = r, instruction_nonce = nonce\<rparr>]"]
    by (auto simp: construct_distribute_night_cardano_bridge_system_tx_def night_address_def tx_value_def bridge_tx_def)
qed (simp add: construct_distribute_night_cardano_bridge_system_tx_def night_address_def)

text \<open>Running a constructed transaction of value \<open>v\<close>, or failing to construct one.\<close>

lemma execute_accounted:
  assumes "system_executor (c2m_executor env) applied"
    and "r = Inr b \<and> tx_value (c2m_lib env) b = v \<and> deserialize_system (c2m_lib env) b \<noteq> None \<or> (\<exists>e. r = Inl e)"
  shows "accounted (c2m_lib env) applied (execute_serialized_tx env r mk (s, x)) \<le> accounted (c2m_lib env) applied (s, x) + v"
    and "accepting env x \<Longrightarrow> r = Inr b \<Longrightarrow>
      accounted (c2m_lib env) applied (execute_serialized_tx env r mk (s, x)) = accounted (c2m_lib env) applied (s, x) + v"
    and "SubminimalTransfers (fst (execute_serialized_tx env r mk (s, x))) = SubminimalTransfers s"
proof -
  obtain q x' where run: "c2m_executor env b x = (q, x')" by fastforce
  note m = system_executor.measured [OF assms(1), where measure = "tx_value (c2m_lib env)" and b = b and x = x]
  show "accounted (c2m_lib env) applied (execute_serialized_tx env r mk (s, x)) \<le> accounted (c2m_lib env) applied (s, x) + v"
    using assms(2) m run by (auto simp: execute_serialized_tx_def accounted_def split: sum.split if_splits)
  show "SubminimalTransfers (fst (execute_serialized_tx env r mk (s, x))) = SubminimalTransfers s"
    by (auto simp: execute_serialized_tx_def split: sum.split prod.split)
  assume "accepting env x" "r = Inr b"
  moreover from this assms(2) have "is_ok q"
    using run by (auto simp: accepting_def)
  ultimately show "accounted (c2m_lib env) applied (execute_serialized_tx env r mk (s, x)) = accounted (c2m_lib env) applied (s, x) + v"
    using assms(2) m run by (cases q) (auto simp: execute_serialized_tx_def accounted_def)
qed

text \<open>The stash cannot overflow by a transfer that leaves the sum below \<open>2 ^ 64\<close>.\<close>

lemma saturating_le: "unat (saturating_add a (b :: u64)) \<le> unat a + unat b"
  by (auto simp: unat_saturating_add)

lemma subminimal_accounted:
  assumes "system_executor (c2m_executor env) applied" and "system_laws (c2m_lib env)"
  shows "accounted (c2m_lib env) applied (handle_subminimal_transfer env t (s, x))
      \<le> accounted (c2m_lib env) applied (s, x) + unat (amount t)"
    and "accepting env x \<Longrightarrow> unat (sub_sum (SubminimalTransfers s)) + unat (amount t) < 2 ^ 64 \<Longrightarrow>
      accounted (c2m_lib env) applied (handle_subminimal_transfer env t (s, x))
      = accounted (c2m_lib env) applied (s, x) + unat (amount t)"
proof -
  let ?lib = "c2m_lib env" and ?stash = "sub_sum (SubminimalTransfers s)"
  let ?total = "saturating_add ?stash (amount t)"
  let ?n = "saturating_add (sub_count (SubminimalTransfers s)) 1"
  obtain b where b: "construct_unlock_to_treasury_system_tx ?lib (ucast ?total) = Inr b"
      "tx_value ?lib b = unat ?total" "deserialize_system ?lib b \<noteq> None"
    using construct_values(1) [OF assms(2)] by blast
  obtain s' x' where run: "execute_serialized_tx env (Inr b) (SubminimalFlushTransfer ?total ?n) (s, x) = (s', x')"
    by fastforce
  note ex = execute_accounted [OF assms(1), where r = "Inr b" and b = b and v = "unat ?total"
      and mk = "SubminimalFlushTransfer ?total ?n" and s = s and x = x]
  have res: "accounted ?lib applied (handle_subminimal_transfer env t (s, x)) =
      (if ?total > subminimal_transfers_flush_threshold s then sum_list (map (tx_value ?lib) (applied x'))
       else unat ?total + sum_list (map (tx_value ?lib) (applied x)))"
    using b run by (simp add: handle_subminimal_transfer_def accounted_def Let_def no_subminimal_def)
  have bound: "sum_list (map (tx_value ?lib) (applied x')) \<le> sum_list (map (tx_value ?lib) (applied x)) + unat ?total"
    using ex(1,3) b run by (simp add: accounted_def)
  show "accounted ?lib applied (handle_subminimal_transfer env t (s, x)) \<le> accounted ?lib applied (s, x) + unat (amount t)"
    using res bound saturating_le [of ?stash "amount t"] by (auto simp: accounted_def)
  assume "accepting env x" and fits: "unat ?stash + unat (amount t) < 2 ^ 64"
  then have "sum_list (map (tx_value ?lib) (applied x')) = sum_list (map (tx_value ?lib) (applied x)) + unat ?total"
    using ex(2,3) b run by (simp add: accounted_def)
  moreover have "unat ?total = unat ?stash + unat (amount t)"
    using fits by (simp add: unat_saturating_add)
  ultimately show "accounted ?lib applied (handle_subminimal_transfer env t (s, x))
      = accounted ?lib applied (s, x) + unat (amount t)"
    using res by (simp add: accounted_def)
qed

lemma accounted_cong:
  "SubminimalTransfers s' = SubminimalTransfers s \<Longrightarrow> accounted lib applied (s', x) = accounted lib applied (s, x)"
  by (simp add: accounted_def)

text \<open>A regular transfer runs one constructed transaction, whose value is the amount.\<close>

lemma approved_as_execute:
  assumes "system_laws (c2m_lib env)" and "recipient t = Address rcpt" and "ApprovedMcTxHashes s (mc_tx_hash t)"
  obtains r b mk s1 where "handle_regular_transfer env t (s, x) = execute_serialized_tx env r mk (s1, x)"
    and "SubminimalTransfers s1 = SubminimalTransfers s"
    and "r = Inr b \<and> tx_value (c2m_lib env) b = unat (amount t) \<and> deserialize_system (c2m_lib env) b \<noteq> None
      \<or> (\<exists>e. r = Inl e)"
    and "creditable t \<longrightarrow> r = Inr b"
proof -
  let ?s1 = "s\<lparr>ApprovedMcTxHashes := (ApprovedMcTxHashes s)(mc_tx_hash t := False)\<rparr>"
  let ?r = "construct_distribute_night_cardano_bridge_system_tx (c2m_lib env) (ucast (amount t)) rcpt (fst (generate_nonce env ?s1))"
  have step: "handle_regular_transfer env t (s, x) =
      execute_serialized_tx env ?r (UserTransfer (mc_tx_hash t) (amount t) rcpt) (snd (generate_nonce env ?s1), x)"
    using assms(2,3) by (simp add: handle_regular_transfer_def handle_user_transfer_def case_prod_beta Let_def)
  have keep: "SubminimalTransfers (snd (generate_nonce env ?s1)) = SubminimalTransfers s"
    by (simp add: generate_nonce_def)
  show ?thesis
  proof (cases "length rcpt = 32")
    case True
    then obtain b where "?r = Inr b \<and> tx_value (c2m_lib env) b = unat (amount t) \<and> deserialize_system (c2m_lib env) b \<noteq> None"
      using construct_values(3) [OF assms(1)] by blast
    then show ?thesis using that [OF step keep, where b = b] by simp
  next
    case False
    then have "\<exists>e. ?r = Inl e" "\<not> creditable t"
      using construct_values(4) [OF assms(1)] assms(2) by (auto simp: creditable_def)
    then show ?thesis using that [OF step keep] by blast
  qed
qed

lemma regular_as_execute:
  assumes laws: "system_laws (c2m_lib env)"
  obtains r b mk s1 where "handle_regular_transfer env t (s, x) = execute_serialized_tx env r mk (s1, x)"
    and "SubminimalTransfers s1 = SubminimalTransfers s"
    and "r = Inr b \<and> tx_value (c2m_lib env) b = unat (amount t) \<and> deserialize_system (c2m_lib env) b \<noteq> None
      \<or> (\<exists>e. r = Inl e)"
    and "creditable t \<longrightarrow> r = Inr b"
proof -
  let ?treasury = "construct_unlock_to_treasury_system_tx (c2m_lib env) (ucast (amount t))"
  let ?reserve = "construct_distribute_reserve_system_tx (c2m_lib env) (ucast (amount t))"
  note treasury = construct_values(1) [OF laws, of "amount t"]
  consider (approved) rcpt where "recipient t = Address rcpt" "ApprovedMcTxHashes s (mc_tx_hash t)"
    | (unapproved) rcpt where "handle_regular_transfer env t (s, x) =
        execute_serialized_tx env ?treasury (UnapprovedTransfer (mc_tx_hash t) (amount t) rcpt) (s, x)"
    | (invalid) "handle_regular_transfer env t (s, x) =
        execute_serialized_tx env ?treasury (InvalidTransfer (mc_tx_hash t) (amount t)) (s, x)"
    | (reserve) "handle_regular_transfer env t (s, x) =
        execute_serialized_tx env ?reserve (ReserveTransfer (mc_tx_hash t) (amount t)) (s, x)"
    by (cases "recipient t"; cases "ApprovedMcTxHashes s (mc_tx_hash t)")
      (simp_all add: handle_regular_transfer_def handle_user_transfer_def
        handle_invalid_transfer_def handle_reserve_transfer_def)
  then show ?thesis
  proof cases
    case approved
    then show ?thesis using approved_as_execute [OF laws] that by metis
  next
    case unapproved
    then show ?thesis using treasury that [OF unapproved refl] by blast
  next
    case invalid
    then show ?thesis using treasury that [OF invalid refl] by blast
  next
    case reserve
    then show ?thesis using construct_values(2) [OF laws, of "amount t"] that [OF reserve refl] by blast
  qed
qed

text \<open>So an incoming transfer is accounted for at most once, and exactly once when it can be credited.\<close>

lemma incoming_accounted:
  assumes ex: "system_executor (c2m_executor env) applied" and laws: "system_laws (c2m_lib env)"
  shows "accounted (c2m_lib env) applied (handle_incoming_transfer env t st)
      \<le> accounted (c2m_lib env) applied st + unat (amount t)"
    and "accepting env (snd st) \<Longrightarrow> creditable t \<Longrightarrow> accounted (c2m_lib env) applied st + unat (amount t) < 2 ^ 64 \<Longrightarrow>
      accounted (c2m_lib env) applied (handle_incoming_transfer env t st)
      = accounted (c2m_lib env) applied st + unat (amount t)"
proof -
  obtain s x where st: "st = (s, x)" by fastforce
  obtain r b mk s1 where reg: "handle_regular_transfer env t (s, x) = execute_serialized_tx env r mk (s1, x)"
      "SubminimalTransfers s1 = SubminimalTransfers s"
    and r: "r = Inr b \<and> tx_value (c2m_lib env) b = unat (amount t) \<and> deserialize_system (c2m_lib env) b \<noteq> None
      \<or> (\<exists>e. r = Inl e)" "creditable t \<longrightarrow> r = Inr b"
    by (rule regular_as_execute [OF laws])
  note run = execute_accounted [OF ex r(1), where mk = mk and s = s1 and x = x] and sub = subminimal_accounted [OF ex laws, where t = t and s = s and x = x]
  have same: "accounted (c2m_lib env) applied (s1, x) = accounted (c2m_lib env) applied (s, x)"
    using reg(2) by (rule accounted_cong)
  have either: "handle_incoming_transfer env t st = handle_regular_transfer env t (s, x)
      \<or> handle_incoming_transfer env t st = handle_subminimal_transfer env t (s, x)"
    by (auto simp: st handle_incoming_transfer_def split: sum.split)
  then show "accounted (c2m_lib env) applied (handle_incoming_transfer env t st)
      \<le> accounted (c2m_lib env) applied st + unat (amount t)"
    using run(1) sub(1) reg(1) same by (auto simp: st)
  assume "accepting env (snd st)" "creditable t" and fits: "accounted (c2m_lib env) applied st + unat (amount t) < 2 ^ 64"
  moreover have "unat (sub_sum (SubminimalTransfers s)) + unat (amount t) < 2 ^ 64"
    using fits by (simp add: st accounted_def)
  ultimately show "accounted (c2m_lib env) applied (handle_incoming_transfer env t st)
      = accounted (c2m_lib env) applied st + unat (amount t)"
    using either run(2) sub(2) reg(1) r(2) same by (auto simp: st)
qed

section \<open>Batches of transfers\<close>

text \<open>
  What the token bridge pallet relies on its transfer handler for
  (\<open>TransferHandler\<close>): a transfer adds at most its amount to what the handler
  accounts for, and exactly its amount where it can.
\<close>

locale transfer_handler =
  fixes handle :: "'r BridgeTransferV1 \<Rightarrow> 'h \<Rightarrow> 'h"
    and total :: "'h \<Rightarrow> nat"
    and able :: "'r BridgeTransferV1 \<Rightarrow> 'h \<Rightarrow> bool"
  assumes adds_at_most: "total (handle t h) \<le> total h + unat (amount t)"
    and adds_exactly: "able t h \<Longrightarrow> total h + unat (amount t) < 2 ^ 64 \<Longrightarrow> total (handle t h) = total h + unat (amount t)"
begin

lemma batch_at_most: "total (fold handle ts h) \<le> total h + sum_list (map (\<lambda>t. unat (amount t)) ts)"
proof (induction ts arbitrary: h)
  case (Cons t ts)
  show ?case
    using Cons.IH [of "handle t h"] adds_at_most [of t h] by simp
qed simp

lemma batch_exactly:
  assumes "\<And>us t vs. ts = us @ t # vs \<Longrightarrow> able t (fold handle us h)"
    and "total h + sum_list (map (\<lambda>t. unat (amount t)) ts) < 2 ^ 64"
  shows "total (fold handle ts h) = total h + sum_list (map (\<lambda>t. unat (amount t)) ts)"
  using assms
proof (induction ts arbitrary: h)
  case (Cons t ts)
  have first: "total (handle t h) = total h + unat (amount t)"
    using Cons.prems(1) [of "[]" t ts] Cons.prems(2) by (intro adds_exactly) simp_all
  have "total (fold handle ts (handle t h)) = total (handle t h) + sum_list (map (\<lambda>t. unat (amount t)) ts)"
  proof (rule Cons.IH)
    show "ts = us @ u # vs \<Longrightarrow> able u (fold handle us (handle t h))" for us u vs
      using Cons.prems(1) [of "t # us" u vs] by simp
  qed (use Cons.prems(2) first in simp)
  then show ?case using first by simp
qed simp

end

text \<open>
  The c2m-bridge pallet is such a handler.  It accounts by what the executor
  applied, which is only meaningful for a lawful executor and library.
\<close>

definition lawful :: "('st, 'tx, 'vt, 'k, 'x, 'e) c2m_env \<Rightarrow> ('x \<Rightarrow> u8 list list) \<Rightarrow> bool" where
  "lawful env applied \<longleftrightarrow> system_executor (c2m_executor env) applied \<and> system_laws (c2m_lib env)"

interpretation c2m: transfer_handler "handle_incoming_transfer env"
  "\<lambda>st. if lawful env applied then accounted (c2m_lib env) applied st else 0"
  "\<lambda>t st. lawful env applied \<and> accepting env (snd st) \<and> creditable t"
  by unfold_locales (use incoming_accounted [of env applied] in \<open>auto simp: lawful_def\<close>)

text \<open>The token bridge runs its inherent at most once per block and pins it to the node's own data.\<close>

interpretation br_once: once_per_block "handle_transfers handle none" "\<lambda>(s, h). InherentExecutedThisBlock s" bridge_on_finalize
  by unfold_locales (auto simp: handle_transfers_def bridge_on_finalize_def case_prod_beta split: if_splits)

interpretation br_inherent: pinned_inherent "\<lambda>d. Option.bind (bridge_create_inherent max_transfers d) id"
  "\<lambda>c d. case bridge_check_inherent max_transfers c d of None \<Rightarrow> Inl None | Some (Inl e) \<Rightarrow> Inl (Some e) | Some (Inr u) \<Rightarrow> Inr u"
  bridge_is_inherent
proof unfold_locales
  fix d :: "'a bridge_data" and c
  show "Option.bind (bridge_create_inherent max_transfers d) id = Some c \<Longrightarrow> bridge_is_inherent c"
    by (auto simp: bridge_create_inherent_def bridge_is_inherent_def split: option.splits if_splits sum.splits)
qed (auto simp: bridge_check_inherent_def bind_eq_Some_conv split: option.splits if_splits)

text \<open>A call that changes the storage of the token bridge and fails leaves it as it was.\<close>

lemma handle_transfers_cases:
  assumes "handle_transfers handle none (ts, cp) (s, h) = (r, s', h')"
  obtains (executed) "r = Inr ()" "none" "\<not> InherentExecutedThisBlock s"
      "s' = s\<lparr>InherentExecutedThisBlock := True, DataCheckpoint := Some cp\<rparr>" "h' = fold handle ts h"
  | (refused) e where "r = Inl e" "s' = s" "h' = h"
  using assms by (auto simp: handle_transfers_def split: if_splits)

section \<open>The life of the pallet\<close>

text \<open>
  The operations on the pallet in the order blocks run them, whose origin is
  governance for the two calls, and the approvals granted for a hash.
\<close>

datatype c2m_op =
    Incoming "BridgeRecipient BridgeTransferV1"
  | Approve "hash list"
  | Configure u64
  | Finalize

definition run_op :: "('st, 'tx, 'vt, 'k, 'x, 'e) c2m_env \<Rightarrow> c2m_op \<Rightarrow> c2m_storage \<times> 'x \<Rightarrow> c2m_storage \<times> 'x" where
  "run_op env op = (\<lambda>(s, x). case op of
     Incoming t \<Rightarrow> handle_incoming_transfer env t (s, x)
   | Approve hs \<Rightarrow> (snd (add_approved_mc_tx_hashes True hs s), x)
   | Configure threshold \<Rightarrow> (snd (set_subminimal_transfers_config True threshold s), x)
   | Finalize \<Rightarrow> (c2m_on_finalize s, x))"

definition granted :: "hash \<Rightarrow> c2m_op list \<Rightarrow> nat" where
  "granted mc ops = length (filter (\<lambda>op. case op of Approve hs \<Rightarrow> mc \<in> set hs | _ \<Rightarrow> False) ops)"

text \<open>Payouts to users for a main chain transaction, by the events deposited.\<close>

definition payouts :: "hash \<Rightarrow> c2m_storage \<Rightarrow> nat" where
  "payouts mc s = length (filter (\<lambda>ev. case ev of UserTransfer m _ _ _ \<Rightarrow> m = mc | _ \<Rightarrow> False) (c2m_events s))"

lemma execute_keeps:
  "execute_serialized_tx env r mk (s, x) = (s', x') \<Longrightarrow>
    s' = s \<or> (\<exists>h. s' = s\<lparr>c2m_events := c2m_events s @ [mk h]\<rparr>)"
  by (auto simp: execute_serialized_tx_def split: sum.splits prod.splits)

lemma subminimal_keeps:
  assumes "handle_subminimal_transfer env t (s, x) = (s', x')"
  shows "payouts mc s' = payouts mc s" "ApprovedMcTxHashes s' = ApprovedMcTxHashes s"
  using assms
  by (auto simp: handle_subminimal_transfer_def Let_def payouts_def split: if_splits prod.splits dest!: execute_keeps)

text \<open>The unused approval of a hash and its payouts: a transfer can only turn one into the other.\<close>

lemma regular_approvals:
  assumes "handle_regular_transfer env t (s, x) = (s', x')"
  shows "payouts mc s' + of_bool (ApprovedMcTxHashes s' mc) \<le> payouts mc s + of_bool (ApprovedMcTxHashes s mc)"
proof (cases "recipient t")
  case (Address rcpt)
  then show ?thesis
    using assms
    by (auto simp: handle_regular_transfer_def handle_user_transfer_def generate_nonce_def payouts_def Let_def
        split: if_splits dest!: execute_keeps)
qed (use assms in \<open>auto simp: handle_regular_transfer_def handle_invalid_transfer_def handle_reserve_transfer_def
      payouts_def dest!: execute_keeps\<close>)

lemma incoming_approvals:
  assumes "handle_incoming_transfer env t (s, x) = (s', x')"
  shows "payouts mc s' + of_bool (ApprovedMcTxHashes s' mc) \<le> payouts mc s + of_bool (ApprovedMcTxHashes s mc)"
  using assms regular_approvals [where env = env and t = t and s = s and x = x and s' = s' and x' = x' and mc = mc]
    subminimal_keeps [where env = env and t = t and s = s and x = x and s' = s' and x' = x']
  by (simp add: handle_incoming_transfer_def split: sum.splits if_splits split del: split_of_bool)

lemma approve_all: "fold (\<lambda>h m. m(h := True)) hs m mc = (m mc \<or> mc \<in> set hs)"
  by (induction hs arbitrary: m) auto

lemma op_approvals:
  assumes "run_op env op (s, x) = (s', x')"
  shows "payouts mc s' + of_bool (ApprovedMcTxHashes s' mc)
    \<le> payouts mc s + of_bool (ApprovedMcTxHashes s mc) + granted mc [op]"
proof (cases op)
  case (Incoming t)
  then show ?thesis
    using assms incoming_approvals [where env = env and t = t and s = s and x = x and s' = s' and x' = x' and mc = mc] by (simp add: run_op_def granted_def)
qed (use assms in \<open>auto simp: run_op_def granted_def payouts_def add_approved_mc_tx_hashes_def
      set_subminimal_transfers_config_def c2m_on_finalize_def approve_all\<close>)


text \<open>
  an approved transfer to a user whose recipient has fewer than 32 bytes,
  which the runtime's recipient type admits, is not credited: the approval is
  consumed and the counter of transfers advances, but no system transaction is
  executed and no event is deposited, so that its amount is neither paid out nor
  sent to the treasury.
\<close>

lemma short_recipient_stranded:
  assumes "recipient_try_from bytes = Some rcpt" and "length bytes < 32"
    and "recipient t = Address rcpt" and "ApprovedMcTxHashes s (mc_tx_hash t)"
    and "min_bridge_amount env x = Inr m" and "m \<le> ucast (amount t)"
  shows "handle_incoming_transfer env t (s, x) =
    (s\<lparr>ApprovedMcTxHashes := (ApprovedMcTxHashes s)(mc_tx_hash t := False), TransferCounter := TransferCounter s + 1\<rparr>, x)"
proof -
  have "length rcpt \<noteq> 32"
    using assms(1,2) by (auto simp: recipient_try_from_def split: if_splits)
  then have "construct_distribute_night_cardano_bridge_system_tx (c2m_lib env) (ucast (amount t)) rcpt nonce
      = Inl (Le_Deserialization De_UserAddress)" for nonce
    by (simp add: construct_distribute_night_cardano_bridge_system_tx_def night_address_def)
  then show ?thesis
    using assms(3-6)
    by (simp add: handle_incoming_transfer_def handle_regular_transfer_def handle_user_transfer_def generate_nonce_def
        execute_serialized_tx_def linorder_not_less [symmetric])
qed

definition bx_env :: "(u8, u8, u8, u8 list, nat, unit) c2m_env" where
  "bx_env = \<lparr>c2m_lib = lx_lib, blake2_256 = id, c2m_parent_hash = replicate 32 0,
     c2m_executor = (\<lambda>b n. (Inr b, Suc n)), min_bridge_amount = (\<lambda>_. Inr 10)\<rparr>"

definition bx_state :: c2m_storage where
  "bx_state = \<lparr>subminimal_transfers_flush_threshold = 100, SubminimalTransfers = no_subminimal, TransferCounter = 4,
     ApprovedMcTxHashes = (\<lambda>h. h = [1]), c2m_events = []\<rparr>"

lemma short_recipient_stranded_example:
  "recipient_try_from [7, 7] = Some [7, 7] \<and>
   (\<exists>s'. handle_incoming_transfer bx_env \<lparr>mc_tx_hash = [1], amount = 50, recipient = Address [7, 7]\<rparr> (bx_state, 0) = (s', 0)
     \<and> \<not> ApprovedMcTxHashes s' [1] \<and> c2m_events s' = [] \<and> SubminimalTransfers s' = no_subminimal)"
proof -
  have r: "recipient_try_from [7, 7] = Some [7, 7]"
    by (simp add: recipient_try_from_def BRIDGE_RECIPIENT_MAX_BYTES_def)
  show ?thesis
    using r short_recipient_stranded [OF r, of "\<lparr>mc_tx_hash = [1], amount = 50, recipient = Address [7, 7]\<rparr>" bx_state bx_env 0 10]
    by (simp add: bx_env_def bx_state_def)
qed

end
