(* ===== verification/Bridge_Source.thy ===== *)
theory Bridge_Source
  imports C2M_Bridge "HOL-Library.Product_Lexorder"
begin

text \<open>
  The source of the bridge's transfers: the queries on the tables of db-sync
  (\<open>data-sources/db-sync/src/db_model.rs\<close>), the reading of a transaction as
  transfers and of a batch up to the next checkpoint (\<open>bridge/mod.rs\<close>), and the
  cache over a range of blocks (\<open>bridge/cache.rs\<close>).

  The tables are lists of rows; an output is a row per token it holds.  Hex
  decoding and the conversion to a recipient are parameters.  The queries of the
  block data source, which the cached source shares, answer from the same tables.
\<close>

section \<open>Tables and queries\<close>

datatype JsonValue =
    JsonNull
  | JsonBool bool
  | JsonNumber int
  | JsonString string
  | JsonArray "JsonValue list"
  | JsonObject "(string \<times> JsonValue) list"

datatype TxInConfiguration = Enabled | Consumed

record tx_row =
  tx_id :: nat
  tx_block_no :: u32
  tx_block_index :: u32
  tx_row_hash :: hash
  tx_metadata :: "JsonValue option"

record tx_out_row =
  out_tx_id :: nat
  out_index :: nat
  out_address :: "u8 list"
  out_policy :: "u8 list"
  out_name :: "u8 list"
  out_quantity :: nat
  consumed_by_tx_id :: "nat option"

record tx_in_row =
  tx_in_id :: nat
  in_out_id :: nat
  in_out_index :: nat

record db_sync =
  tx_table :: "tx_row list"
  tx_out_table :: "tx_out_row list"
  tx_in_table :: "tx_in_row list"
  tx_in_config :: TxInConfiguration
  block_table :: "hash \<Rightarrow> u32 option"
  latest_stable :: "u32 option"

record BridgeTx =
  block_number :: u32
  tx_ix :: u32
  bridge_tx_hash :: hash
  c2m_metadata :: "JsonValue option"
  bridge_in :: u64
  bridge_out :: u64
  reserve_in :: u64
  reserve_out :: u64

datatype ResolvedBridgeDataCheckpoint = ResolvedTx u32 u32 | ResolvedBlock u32

definition ordering_key :: "BridgeTx \<Rightarrow> u32 \<times> u32" where
  "ordering_key tx = (block_number tx, tx_ix tx)"

definition get_block_number :: "ResolvedBridgeDataCheckpoint \<Rightarrow> u32" where
  "get_block_number cp = (case cp of ResolvedTx n _ \<Rightarrow> n | ResolvedBlock n \<Rightarrow> n)"

definition get_block_info_for_tx_hash :: "db_sync \<Rightarrow> hash \<Rightarrow> (u32 \<times> u32) option" where
  "get_block_info_for_tx_hash db h =
    map_option (\<lambda>t. (tx_block_no t, tx_block_index t)) (find (\<lambda>t. tx_row_hash t = h) (tx_table db))"

text \<open>The inputs and outputs subqueries: transaction and quantity, for a token at an address.\<close>

definition holds :: "u8 list \<Rightarrow> MainChainScripts \<Rightarrow> tx_out_row \<Rightarrow> bool" where
  "holds addr scripts out \<longleftrightarrow> out_address out = addr \<and> out_policy out = token_policy_id scripts
     \<and> out_name out = token_asset_name scripts"

definition inputs_subquery :: "db_sync \<Rightarrow> u8 list \<Rightarrow> MainChainScripts \<Rightarrow> (nat \<times> nat) list" where
  "inputs_subquery db addr scripts = (case tx_in_config db of
     Consumed \<Rightarrow> [(c, out_quantity out). out \<leftarrow> tx_out_table db, holds addr scripts out,
       c \<leftarrow> (case consumed_by_tx_id out of None \<Rightarrow> [] | Some c \<Rightarrow> [c])]
   | Enabled \<Rightarrow> [(tx_in_id inp, out_quantity out). inp \<leftarrow> tx_in_table db, out \<leftarrow> tx_out_table db,
       out_tx_id out = in_out_id inp \<and> out_index out = in_out_index inp, holds addr scripts out])"

definition outputs_subquery :: "db_sync \<Rightarrow> u8 list \<Rightarrow> MainChainScripts \<Rightarrow> (nat \<times> nat) list" where
  "outputs_subquery db addr scripts = [(out_tx_id out, out_quantity out). out \<leftarrow> tx_out_table db, holds addr scripts out]"

definition total_for :: "nat \<Rightarrow> (nat \<times> nat) list \<Rightarrow> nat" where
  "total_for i rows = sum_list (map snd (filter (\<lambda>(j, _). j = i) rows))"

text \<open>A row of the query before its amounts are decoded.\<close>

record totals_row =
  of_tx :: tx_row
  sum_bridge_in :: nat
  sum_bridge_out :: nat
  sum_reserve_in :: nat
  sum_reserve_out :: nat

definition bridge_tx_totals :: "db_sync \<Rightarrow> MainChainScripts \<Rightarrow> totals_row list" where
  "bridge_tx_totals db scripts =
    (let ics = illiquid_circulation_supply_validator_address scripts; reserve = reserve_validator_address scripts;
         bridge_outputs = outputs_subquery db ics scripts
     in map (\<lambda>t. \<lparr>of_tx = t,
           sum_bridge_in = total_for (tx_id t) (inputs_subquery db ics scripts),
           sum_bridge_out = total_for (tx_id t) bridge_outputs,
           sum_reserve_in = total_for (tx_id t) (inputs_subquery db reserve scripts),
           sum_reserve_out = total_for (tx_id t) (outputs_subquery db reserve scripts)\<rparr>)
         (filter (\<lambda>t. tx_id t \<in> fst ` set bridge_outputs) (tx_table db)))"

definition row_key :: "totals_row \<Rightarrow> u32 \<times> u32" where
  "row_key r = (tx_block_no (of_tx r), tx_block_index (of_tx r))"

fun checkpoint_limit :: "ResolvedBridgeDataCheckpoint \<Rightarrow> u32 \<times> u32 \<Rightarrow> bool" where
  "checkpoint_limit (ResolvedBlock number) k \<longleftrightarrow> fst k > number"
| "checkpoint_limit (ResolvedTx n ix) k \<longleftrightarrow> k > (n, ix)"

definition decode_amount :: "nat \<Rightarrow> (string, u64) result" where
  "decode_amount n = (if n < 2 ^ 64 then Inr (word_of_nat n) else Inl ''NativeTokenQuantity is always a u64'')"

definition decode_row :: "totals_row \<Rightarrow> (string, BridgeTx) result" where
  "decode_row r =
    bind_result (decode_amount (sum_bridge_in r)) (\<lambda>bi.
    bind_result (decode_amount (sum_bridge_out r)) (\<lambda>bo.
    bind_result (decode_amount (sum_reserve_in r)) (\<lambda>ri.
    bind_result (decode_amount (sum_reserve_out r)) (\<lambda>ro.
    Inr \<lparr>block_number = tx_block_no (of_tx r), tx_ix = tx_block_index (of_tx r), bridge_tx_hash = tx_row_hash (of_tx r),
      c2m_metadata = tx_metadata (of_tx r), bridge_in = bi, bridge_out = bo, reserve_in = ri, reserve_out = ro\<rparr>))))"

fun decode_rows :: "totals_row list \<Rightarrow> (string, BridgeTx list) result" where
  "decode_rows [] = Inr []"
| "decode_rows (r # rs) = bind_result (decode_row r) (\<lambda>tx. bind_result (decode_rows rs) (\<lambda>txs. Inr (tx # txs)))"

definition limit_rows :: "u32 option \<Rightarrow> 'a list \<Rightarrow> 'a list" where
  "limit_rows max_transfers rows = (case max_transfers of None \<Rightarrow> rows | Some n \<Rightarrow> take (unat n) rows)"

definition get_bridge_txs ::
  "db_sync \<Rightarrow> MainChainScripts \<Rightarrow> ResolvedBridgeDataCheckpoint \<Rightarrow> u32 \<Rightarrow> u32 option \<Rightarrow> (string, BridgeTx list) result" where
  "get_bridge_txs db scripts checkpoint to_block max_transfers =
    decode_rows (limit_rows max_transfers (sort_key row_key
      (filter (\<lambda>r. sum_bridge_out r > sum_bridge_in r \<or> sum_reserve_in r > sum_reserve_out r)
        (filter (\<lambda>r. fst (row_key r) \<le> to_block \<and> checkpoint_limit checkpoint (row_key r)) (bridge_tx_totals db scripts)))))"

section \<open>From transactions to transfers\<close>

record 'r recipient_codec =
  hex_decode :: "string \<Rightarrow> u8 list option"
  try_from :: "u8 list \<Rightarrow> 'r option"

fun strip_prefix :: "string \<Rightarrow> string \<Rightarrow> string option" where
  "strip_prefix [] s = Some s"
| "strip_prefix (c # p) (d # s) = (if c = d then strip_prefix p s else None)"
| "strip_prefix (c # p) [] = None"

definition metadata_to_recipient :: "'r recipient_codec \<Rightarrow> JsonValue option \<Rightarrow> 'r TransferRecipient" where
  "metadata_to_recipient rc metadata = (case metadata of
     Some (JsonArray [JsonString str]) \<Rightarrow>
       (case Option.bind (Option.bind (strip_prefix ''0x'' str) (hex_decode rc)) (try_from rc) of
          Some r \<Rightarrow> Address r
        | None \<Rightarrow> Invalid)
   | _ \<Rightarrow> Invalid)"

definition tx_to_transfers :: "'r recipient_codec \<Rightarrow> BridgeTx \<Rightarrow> 'r BridgeTransferV1 list" where
  "tx_to_transfers rc tx =
    (let reserve_debit = saturating_sub (reserve_in tx) (reserve_out tx);
         ics_credit = saturating_sub (bridge_out tx) (bridge_in tx);
         locked_amount = saturating_sub ics_credit reserve_debit
     in (if reserve_debit > 0
         then [\<lparr>mc_tx_hash = bridge_tx_hash tx, amount = reserve_debit, recipient = Reserve\<rparr>] else [])
      @ (if locked_amount > 0
         then [\<lparr>mc_tx_hash = bridge_tx_hash tx, amount = locked_amount,
                recipient = metadata_to_recipient rc (c2m_metadata tx)\<rparr>] else []))"

fun transfers_loop ::
  "'r recipient_codec \<Rightarrow> u32 \<Rightarrow> u32 \<Rightarrow> BridgeTx list \<Rightarrow> 'r BridgeTransferV1 list \<Rightarrow> BridgeDataCheckpoint
    \<Rightarrow> 'r BridgeTransferV1 list \<times> BridgeDataCheckpoint" where
  "transfers_loop rc max_transfers block_bound [] ts cp =
    (ts, if length ts = unat max_transfers then cp else BlockCheckpoint block_bound)"
| "transfers_loop rc max_transfers block_bound (tx # txs) ts cp =
    (let tx_transfers = tx_to_transfers rc tx in
     if length ts + length tx_transfers > unat max_transfers then (ts, cp)
     else transfers_loop rc max_transfers block_bound txs (ts @ tx_transfers) (TxCheckpoint (bridge_tx_hash tx)))"

definition txs_to_transfers ::
  "'r recipient_codec \<Rightarrow> BridgeTx list \<Rightarrow> u32 \<Rightarrow> u32 \<Rightarrow> 'r BridgeTransferV1 list \<times> BridgeDataCheckpoint" where
  "txs_to_transfers rc txs max_transfers block_bound =
    transfers_loop rc max_transfers block_bound txs [] (BlockCheckpoint block_bound)"

datatype transfer_source_error = BlockNotFound hash | CheckpointNotFound hash | SqlError string | NotInCache

definition resolve_checkpoint :: "db_sync \<Rightarrow> BridgeDataCheckpoint \<Rightarrow> (transfer_source_error, ResolvedBridgeDataCheckpoint) result" where
  "resolve_checkpoint db checkpoint = (case checkpoint of
     TxCheckpoint h \<Rightarrow> (case get_block_info_for_tx_hash db h of
        Some (n, ix) \<Rightarrow> Inr (ResolvedTx n ix) | None \<Rightarrow> Inl (CheckpointNotFound h))
   | BlockCheckpoint number \<Rightarrow> Inr (ResolvedBlock number))"

definition map_error :: "('e \<Rightarrow> 'f) \<Rightarrow> ('e, 'a) result \<Rightarrow> ('f, 'a) result" where
  "map_error f r = (case r of Inl e \<Rightarrow> Inl (f e) | Inr a \<Rightarrow> Inr a)"

definition get_transfers ::
  "'r recipient_codec \<Rightarrow> db_sync \<Rightarrow> MainChainScripts \<Rightarrow> BridgeDataCheckpoint \<Rightarrow> u32 \<Rightarrow> hash
    \<Rightarrow> (transfer_source_error, 'r BridgeTransferV1 list \<times> BridgeDataCheckpoint) result" where
  "get_transfers rc db scripts since max_transfers current_mc_block_hash =
    bind_result (ok_or (BlockNotFound current_mc_block_hash) (block_table db current_mc_block_hash)) (\<lambda>block_no.
    bind_result (resolve_checkpoint db since) (\<lambda>checkpoint.
    bind_result (map_error SqlError (get_bridge_txs db scripts checkpoint block_no (Some max_transfers))) (\<lambda>txs.
    Inr (txs_to_transfers rc txs max_transfers block_no))))"

section \<open>The cached source\<close>

record TokenUtxoCache =
  cached_scripts :: MainChainScripts
  start_block :: u32
  end_block :: u32
  cached_txs :: "BridgeTx list"
  tx_cache :: "hash \<Rightarrow> BridgeTx option"

definition utxo_cache_new :: TokenUtxoCache where
  "utxo_cache_new = \<lparr>cached_scripts = \<lparr>token_policy_id = [], token_asset_name = [],
     illiquid_circulation_supply_validator_address = [], reserve_validator_address = []\<rparr>,
     start_block = 0, end_block = 0, cached_txs = [], tx_cache = Map.empty\<rparr>"

definition set_mc_scripts :: "MainChainScripts \<Rightarrow> TokenUtxoCache \<Rightarrow> TokenUtxoCache" where
  "set_mc_scripts scripts c =
    (if cached_scripts c \<noteq> scripts
     then c\<lparr>cached_scripts := scripts, cached_txs := [], start_block := 0, end_block := 0\<rparr> else c)"

definition set_cached_transfers :: "u32 \<Rightarrow> u32 \<Rightarrow> BridgeTx list \<Rightarrow> TokenUtxoCache \<Rightarrow> TokenUtxoCache" where
  "set_cached_transfers start_b end_b txs c =
    c\<lparr>start_block := start_b, end_block := end_b,
      tx_cache := map_of (rev (map (\<lambda>tx. (bridge_tx_hash tx, tx)) txs)), cached_txs := txs\<rparr>"

definition serve_from_cache :: "TokenUtxoCache \<Rightarrow> ResolvedBridgeDataCheckpoint \<Rightarrow> u32 \<Rightarrow> u32 \<Rightarrow> BridgeTx list option" where
  "serve_from_cache c checkpoint to_block max_transfers =
    (if end_block c < to_block then None
     else map_option (\<lambda>skip.
        take (unat max_transfers) (takeWhile (\<lambda>tx. block_number tx \<le> to_block) (dropWhile skip (cached_txs c))))
      (case checkpoint of
         ResolvedBlock number \<Rightarrow>
           if start_block c \<le> saturating_add number 1 then Some (\<lambda>tx. number \<ge> block_number tx) else None
       | ResolvedTx n ix \<Rightarrow>
           if start_block c \<le> n then Some (\<lambda>tx. ordering_key tx \<le> (n, ix)) else None))"

definition try_resolve_checkpoint_from_cache :: "TokenUtxoCache \<Rightarrow> hash \<Rightarrow> ResolvedBridgeDataCheckpoint option" where
  "try_resolve_checkpoint_from_cache c h = map_option (\<lambda>tx. ResolvedTx (block_number tx) (tx_ix tx)) (tx_cache c h)"

definition resolve_data_checkpoint ::
  "db_sync \<Rightarrow> TokenUtxoCache \<Rightarrow> BridgeDataCheckpoint \<Rightarrow> (transfer_source_error, ResolvedBridgeDataCheckpoint) result" where
  "resolve_data_checkpoint db c checkpoint = (case checkpoint of
     BlockCheckpoint number \<Rightarrow> Inr (ResolvedBlock number)
   | TxCheckpoint h \<Rightarrow> (case try_resolve_checkpoint_from_cache c h of
        Some cp \<Rightarrow> Inr cp
      | None \<Rightarrow> (case get_block_info_for_tx_hash db h of
          Some (n, ix) \<Rightarrow> Inr (ResolvedTx n ix) | None \<Rightarrow> Inl (CheckpointNotFound h))))"

definition fill_cache ::
  "u32 \<Rightarrow> db_sync \<Rightarrow> MainChainScripts \<Rightarrow> ResolvedBridgeDataCheckpoint \<Rightarrow> u32 \<Rightarrow> (TokenUtxoCache, transfer_source_error, unit) st_result" where
  "fill_cache lookahead db scripts checkpoint to_block c =
    (let from_block = get_block_number checkpoint;
         effective = ResolvedBlock (saturating_sub from_block 1);
         latest = (case latest_stable db of Some b \<Rightarrow> b | None \<Rightarrow> to_block);
         upto = min (saturating_add to_block lookahead) latest
     in case map_error SqlError (get_bridge_txs db scripts effective upto None) of
          Inl e \<Rightarrow> (Inl e, c)
        | Inr txs \<Rightarrow> (Inr (), set_cached_transfers from_block upto txs c))"

definition serve_or_fill ::
  "u32 \<Rightarrow> db_sync \<Rightarrow> MainChainScripts \<Rightarrow> ResolvedBridgeDataCheckpoint \<Rightarrow> u32 \<Rightarrow> u32
    \<Rightarrow> (TokenUtxoCache, transfer_source_error, BridgeTx list) st_result" where
  "serve_or_fill lookahead db scripts checkpoint to_block max_transfers c =
    (case serve_from_cache c checkpoint to_block max_transfers of
       Some txs \<Rightarrow> (Inr txs, c)
     | None \<Rightarrow> st_bind (fill_cache lookahead db scripts checkpoint to_block)
         (\<lambda>_. st_read (\<lambda>c'. ok_or NotInCache (serve_from_cache c' checkpoint to_block max_transfers))) c)"

definition cached_get_transfers ::
  "'r recipient_codec \<Rightarrow> u32 \<Rightarrow> db_sync \<Rightarrow> MainChainScripts \<Rightarrow> BridgeDataCheckpoint \<Rightarrow> u32 \<Rightarrow> hash
    \<Rightarrow> (TokenUtxoCache, transfer_source_error, 'r BridgeTransferV1 list \<times> BridgeDataCheckpoint) st_result" where
  "cached_get_transfers rc lookahead db scripts since max_transfers current_mc_block_hash =
    st_bind (st_modify (set_mc_scripts scripts)) (\<lambda>_.
    st_bind (st_lift (ok_or (BlockNotFound current_mc_block_hash) (block_table db current_mc_block_hash))) (\<lambda>to_block.
    st_bind (st_read (\<lambda>c. resolve_data_checkpoint db c since)) (\<lambda>checkpoint.
    st_bind (serve_or_fill lookahead db scripts checkpoint to_block max_transfers) (\<lambda>txs.
    st_return (txs_to_transfers rc txs max_transfers to_block)))))"

section \<open>The inherent data provider\<close>

datatype 'r TokenBridgeInherentDataProvider = Inert | ActiveV1 "'r TokenBridgeTransfersV1"

datatype InherentDataCreationError = DataSourceError transfer_source_error | UnsupportedPalletVersion u32 u32

type_synonym 'r transfer_source =
  "MainChainScripts \<Rightarrow> BridgeDataCheckpoint \<Rightarrow> u32 \<Rightarrow> hash \<Rightarrow> (transfer_source_error, 'r BridgeTransferV1 list \<times> BridgeDataCheckpoint) result"

definition new_v1 ::
  "'r transfer_source \<Rightarrow> u32 \<Rightarrow> bridge_storage \<Rightarrow> hash
    \<Rightarrow> (InherentDataCreationError, 'r TokenBridgeInherentDataProvider) result" where
  "new_v1 source max_transfers s current_mc_hash =
    (case DataCheckpoint s of
       None \<Rightarrow> Inr Inert
     | Some last_checkpoint \<Rightarrow>
        (case MainChainScriptsConfiguration s of
           None \<Rightarrow> Inr Inert
         | Some main_chain_scripts \<Rightarrow>
             bind_result (map_error DataSourceError (source main_chain_scripts last_checkpoint max_transfers current_mc_hash))
               (\<lambda>(ts, new_checkpoint). Inr (ActiveV1 \<lparr>transfers = ts, data_checkpoint = new_checkpoint\<rparr>))))"

definition idp_new ::
  "'r transfer_source \<Rightarrow> u32 option \<Rightarrow> u32 \<Rightarrow> bridge_storage \<Rightarrow> hash
    \<Rightarrow> (InherentDataCreationError, 'r TokenBridgeInherentDataProvider) result" where
  "idp_new source api_version max_transfers s current_mc_hash =
    (case api_version of
       None \<Rightarrow> Inr Inert
     | Some v \<Rightarrow> if v = 1 then new_v1 source max_transfers s current_mc_hash else Inl (UnsupportedPalletVersion v 1))"

definition provide_inherent_data :: "'r TokenBridgeInherentDataProvider \<Rightarrow> 'r bridge_data" where
  "provide_inherent_data idp = (case idp of Inert \<Rightarrow> Some None | ActiveV1 data \<Rightarrow> Some (Some data))"

text \<open>
  A block with the inherent the provider and the pallet make for it, from the
  reference to the main chain to \<open>on_finalize\<close>; \<open>None\<close> when a part of it fails.
\<close>

definition bridge_block ::
  "'r transfer_source \<Rightarrow> ('r BridgeTransferV1 \<Rightarrow> 'h \<Rightarrow> 'h) \<Rightarrow> u32 \<Rightarrow> hash \<Rightarrow> bridge_storage \<times> 'h \<Rightarrow> (bridge_storage \<times> 'h) option" where
  "bridge_block source handle max_transfers mc = (\<lambda>(s, h).
    case idp_new source (Some 1) max_transfers s mc of
      Inl _ \<Rightarrow> None
    | Inr idp \<Rightarrow>
       (case bridge_create_inherent (unat max_transfers) (provide_inherent_data idp) of
          None \<Rightarrow> None
        | Some None \<Rightarrow> Some (bridge_on_finalize (s, h))
        | Some (Some (handle_transfers_call ts cp)) \<Rightarrow>
            (case handle_transfers handle True (ts, cp) (s, h) of
               (Inr _, sh) \<Rightarrow> Some (bridge_on_finalize sh) | (Inl _, _) \<Rightarrow> None)
        | Some (Some other_bridge_call) \<Rightarrow> None))"

fun bridge_blocks ::
  "'r transfer_source \<Rightarrow> ('r BridgeTransferV1 \<Rightarrow> 'h \<Rightarrow> 'h) \<Rightarrow> u32 \<Rightarrow> hash list \<Rightarrow> bridge_storage \<times> 'h \<Rightarrow> (bridge_storage \<times> 'h) option" where
  "bridge_blocks source handle n [] sh = Some sh"
| "bridge_blocks source handle n (mc # mcs) sh =
    Option.bind (bridge_block source handle n mc sh) (bridge_blocks source handle n mcs)"

section \<open>Sorted lists\<close>

text \<open>A predicate that is closed downwards splits a sorted list.\<close>

lemma closed_split:
  assumes "sorted (map f xs)" and "\<And>x y. f x \<le> f y \<Longrightarrow> P y \<Longrightarrow> P x"
  shows "takeWhile P xs = filter P xs" and "dropWhile P xs = filter (\<lambda>x. \<not> P x) xs"
    and "filter P xs @ filter (\<lambda>x. \<not> P x) xs = xs"
proof -
  show tw: "takeWhile P xs = filter P xs"
    using assms(1)
  proof (induction xs)
    case (Cons x xs)
    have "filter P xs = []" if "\<not> P x"
      using Cons.prems assms(2) that by (auto simp: filter_empty_conv)
    with Cons show ?case by auto
  qed simp
  show dw: "dropWhile P xs = filter (\<lambda>x. \<not> P x) xs"
    using assms(1)
  proof (induction xs)
    case (Cons x xs)
    have "filter (\<lambda>x. \<not> P x) xs = xs" if "\<not> P x"
      using Cons.prems assms(2) that by (auto simp: filter_id_conv)
    with Cons show ?case by auto
  qed simp
  show "filter P xs @ filter (\<lambda>x. \<not> P x) xs = xs"
    using takeWhile_dropWhile_id [of P xs] by (simp add: tw dw)
qed

text \<open>In a list without repeated keys, the elements up to one of them are those before it and itself.\<close>

lemma filter_up_to:
  assumes "sorted (map f (xs @ x # ys))" and "distinct (map f (xs @ x # ys))"
  shows "filter (\<lambda>y. f y \<le> f x) (xs @ x # ys) = xs @ [x]"
proof -
  have "filter (\<lambda>y. f y \<le> f x) xs = xs"
    using assms(1) by (auto simp: filter_id_conv sorted_append)
  moreover have "filter (\<lambda>y. f y \<le> f x) ys = []"
    using assms by (auto simp: filter_empty_conv sorted_append) (metis dual_order.antisym imageI)
  ultimately show ?thesis by simp
qed

section \<open>The history of the bridge\<close>

text \<open>
  The transactions of the bridge's scripts in the order of the main chain, which
  every query reads a part of.  A well-formed database has one transaction per
  position and per hash, none of the bridge in block 0, and token sums that fit
  64 bits.
\<close>

definition fits :: "totals_row \<Rightarrow> bool" where
  "fits r \<longleftrightarrow> sum_bridge_in r < 2 ^ 64 \<and> sum_bridge_out r < 2 ^ 64 \<and> sum_reserve_in r < 2 ^ 64 \<and> sum_reserve_out r < 2 ^ 64"

definition wf_db :: "db_sync \<Rightarrow> bool" where
  "wf_db db \<longleftrightarrow> distinct (map (\<lambda>t. (tx_block_no t, tx_block_index t)) (tx_table db))
     \<and> distinct (map tx_row_hash (tx_table db)) \<and> (\<forall>t \<in> set (tx_table db). 0 < tx_block_no t)
     \<and> (\<forall>scripts. \<forall>r \<in> set (bridge_tx_totals db scripts). fits r)"

definition decoded :: "totals_row \<Rightarrow> BridgeTx" where
  "decoded r = \<lparr>block_number = tx_block_no (of_tx r), tx_ix = tx_block_index (of_tx r), bridge_tx_hash = tx_row_hash (of_tx r),
     c2m_metadata = tx_metadata (of_tx r), bridge_in = word_of_nat (sum_bridge_in r), bridge_out = word_of_nat (sum_bridge_out r),
     reserve_in = word_of_nat (sum_reserve_in r), reserve_out = word_of_nat (sum_reserve_out r)\<rparr>"

definition history :: "db_sync \<Rightarrow> MainChainScripts \<Rightarrow> BridgeTx list" where
  "history db scripts = map decoded (sort_key row_key
     (filter (\<lambda>r. sum_bridge_out r > sum_bridge_in r \<or> sum_reserve_in r > sum_reserve_out r) (bridge_tx_totals db scripts)))"

lemma decoded_key [simp]: "ordering_key (decoded r) = row_key r" "block_number (decoded r) = fst (row_key r)"
  by (simp_all add: decoded_def ordering_key_def row_key_def)

lemma decode_rows_fit: "\<forall>r \<in> set rs. fits r \<Longrightarrow> decode_rows rs = Inr (map decoded rs)"
  by (induction rs) (auto simp: fits_def decode_row_def decode_amount_def decoded_def)

lemma limit_rows_map: "limit_rows n (map f xs) = map f (limit_rows n xs)"
  by (simp add: limit_rows_def take_map split: option.split)

lemma set_limit_rows: "set (limit_rows n xs) \<subseteq> set xs"
  by (auto simp: limit_rows_def split: option.splits dest: in_set_takeD)

lemma get_bridge_txs_history:
  assumes "wf_db db"
  shows "get_bridge_txs db scripts checkpoint to_block n =
    Inr (limit_rows n (filter (\<lambda>tx. block_number tx \<le> to_block \<and> checkpoint_limit checkpoint (ordering_key tx)) (history db scripts)))"
proof -
  let ?P = "\<lambda>r. fst (row_key r) \<le> to_block \<and> checkpoint_limit checkpoint (row_key r)"
  let ?rel = "\<lambda>r. sum_bridge_out r > sum_bridge_in r \<or> sum_reserve_in r > sum_reserve_out r"
  let ?rows = "filter ?P (sort_key row_key (filter ?rel (bridge_tx_totals db scripts)))"
  have rows: "sort_key row_key (filter ?rel (filter ?P (bridge_tx_totals db scripts))) = ?rows"
    by (simp add: filter_sort conj_commute)
  have "\<forall>r \<in> set (limit_rows n ?rows). fits r"
    using assms set_limit_rows [of n ?rows] by (auto simp: wf_db_def)
  then show ?thesis
    unfolding get_bridge_txs_def rows
    by (simp add: decode_rows_fit history_def filter_map comp_def limit_rows_map)
qed

lemma history_sorted: "sorted (map ordering_key (history db scripts))"
  by (simp add: history_def comp_def)

lemma totals_of_tx: "r \<in> set (bridge_tx_totals db scripts) \<Longrightarrow> of_tx r \<in> set (tx_table db)"
  by (auto simp: bridge_tx_totals_def Let_def)

lemma history_distinct:
  assumes "wf_db db"
  shows "distinct (map ordering_key (history db scripts))"
proof -
  have "map row_key (bridge_tx_totals db scripts) = map (\<lambda>t. (tx_block_no t, tx_block_index t))
      (filter (\<lambda>t. tx_id t \<in> fst ` set (outputs_subquery db (illiquid_circulation_supply_validator_address scripts) scripts)) (tx_table db))"
    by (simp add: bridge_tx_totals_def Let_def row_key_def comp_def)
  moreover have "distinct (map (\<lambda>t. (tx_block_no t, tx_block_index t)) (tx_table db))"
    using assms by (simp add: wf_db_def)
  ultimately have "distinct (map row_key (bridge_tx_totals db scripts))"
    by (simp add: distinct_map_filter)
  then show ?thesis
    by (simp add: history_def comp_def distinct_map inj_on_def)
qed

lemma in_history:
  assumes "wf_db db" "tx \<in> set (history db scripts)"
  shows "0 < block_number tx" "get_block_info_for_tx_hash db (bridge_tx_hash tx) = Some (block_number tx, tx_ix tx)"
    "bridge_in tx < bridge_out tx \<or> reserve_out tx < reserve_in tx"
proof -
  obtain r where r: "tx = decoded r" "r \<in> set (bridge_tx_totals db scripts)" "of_tx r \<in> set (tx_table db)"
      "sum_bridge_out r > sum_bridge_in r \<or> sum_reserve_in r > sum_reserve_out r"
    using assms(2) totals_of_tx by (auto simp: history_def)
  show "0 < block_number tx"
    using r assms(1) by (simp add: wf_db_def row_key_def)
  have "find (\<lambda>t. tx_row_hash t = tx_row_hash (of_tx r)) (tx_table db) = Some (of_tx r)"
    using r(3) assms(1) by (intro find_by_key) (simp_all add: wf_db_def)
  then show "get_block_info_for_tx_hash db (bridge_tx_hash tx) = Some (block_number tx, tx_ix tx)"
    by (simp add: get_block_info_for_tx_hash_def r(1) decoded_def)
  have "fits r"
    using assms(1) r(2) by (auto simp: wf_db_def)
  then show "bridge_in tx < bridge_out tx \<or> reserve_out tx < reserve_in tx"
    using r(4) by (simp add: r(1) decoded_def word_less_nat_alt fits_def unsigned_of_nat take_bit_nat_eq_self)
qed

section \<open>Batches and checkpoints\<close>

text \<open>A transaction of the bridge is one transfer or two.\<close>

lemma transfers_per_tx:
  assumes "bridge_in tx < bridge_out tx \<or> reserve_out tx < reserve_in tx"
  shows "length (tx_to_transfers rc tx) \<in> {1, 2}"
  using assms by (auto simp: tx_to_transfers_def Let_def word_less_nat_alt unat_saturating_sub)

lemma length_concat_ge: "\<forall>x \<in> set xs. 1 \<le> length (f x) \<Longrightarrow> length xs \<le> length (concat (map f xs))"
  by (induction xs) auto

text \<open>
  A batch is cut at a transaction: after all of them, with room left, or after the
  last one that fits.
\<close>

lemma transfers_loop_cut:
  assumes "transfers_loop rc n bound txs ts cp = (ts', cp')" and "length ts \<le> unat n"
  obtains (all) "ts' = ts @ concat (map (tx_to_transfers rc) txs)" "length ts' < unat n" "cp' = BlockCheckpoint bound"
  | (cut) k where "k \<le> length txs" "ts' = ts @ concat (map (tx_to_transfers rc) (take k txs))"
      "length ts' \<le> unat n" "cp' = (if k = 0 then cp else TxCheckpoint (bridge_tx_hash (txs ! (k - 1))))"
      "if k = length txs then length ts' = unat n else length ts' + length (tx_to_transfers rc (txs ! k)) > unat n"
proof -
  have "(ts' = ts @ concat (map (tx_to_transfers rc) txs) \<and> length ts' < unat n \<and> cp' = BlockCheckpoint bound) \<or>
    (\<exists>k \<le> length txs. ts' = ts @ concat (map (tx_to_transfers rc) (take k txs)) \<and> length ts' \<le> unat n
      \<and> cp' = (if k = 0 then cp else TxCheckpoint (bridge_tx_hash (txs ! (k - 1))))
      \<and> (if k = length txs then length ts' = unat n else length ts' + length (tx_to_transfers rc (txs ! k)) > unat n))"
    using assms
  proof (induction txs arbitrary: ts cp)
    case (Cons tx txs)
    let ?new = "tx_to_transfers rc tx"
    show ?case
    proof (cases "length ts + length ?new > unat n")
      case True
      then show ?thesis
        using Cons.prems by (intro disjI2 exI [of _ 0]) simp
    next
      case False
      then have "transfers_loop rc n bound txs (ts @ ?new) (TxCheckpoint (bridge_tx_hash tx)) = (ts', cp')"
          "length (ts @ ?new) \<le> unat n"
        using Cons.prems by simp_all
      from Cons.IH [OF this] show ?thesis
      proof (elim disjE exE conjE)
        fix k assume "k \<le> length txs"
          and "ts' = (ts @ ?new) @ concat (map (tx_to_transfers rc) (take k txs))" "length ts' \<le> unat n"
          and "cp' = (if k = 0 then TxCheckpoint (bridge_tx_hash tx) else TxCheckpoint (bridge_tx_hash (txs ! (k - 1))))"
          and "if k = length txs then length ts' = unat n else length ts' + length (tx_to_transfers rc (txs ! k)) > unat n"
        then show ?thesis
          by (intro disjI2 exI [of _ "Suc k"]) (auto simp: nth_Cons' split: if_splits)
      qed simp
    qed
  qed (auto split: if_splits)
  then show thesis using all cut by blast
qed

text \<open>What has been delivered at a checkpoint: the transfers of all transactions up to it.\<close>

definition passed :: "db_sync \<Rightarrow> MainChainScripts \<Rightarrow> ResolvedBridgeDataCheckpoint \<Rightarrow> BridgeTx list" where
  "passed db scripts cp = filter (\<lambda>tx. \<not> checkpoint_limit cp (ordering_key tx)) (history db scripts)"

definition delivered ::
  "'r recipient_codec \<Rightarrow> db_sync \<Rightarrow> MainChainScripts \<Rightarrow> ResolvedBridgeDataCheckpoint \<Rightarrow> 'r BridgeTransferV1 list" where
  "delivered rc db scripts cp = concat (map (tx_to_transfers rc) (passed db scripts cp))"

definition pending :: "db_sync \<Rightarrow> MainChainScripts \<Rightarrow> ResolvedBridgeDataCheckpoint \<Rightarrow> u32 \<Rightarrow> BridgeTx list" where
  "pending db scripts cp bound =
    filter (\<lambda>tx. block_number tx \<le> bound \<and> checkpoint_limit cp (ordering_key tx)) (history db scripts)"

lemma limit_closed: "k \<le> k' \<Longrightarrow> \<not> checkpoint_limit cp k' \<Longrightarrow> \<not> checkpoint_limit cp k"
  by (cases cp) (auto simp: less_eq_prod_def less_prod_def)

lemma history_parts:
  obtains later where "history db scripts = passed db scripts cp @ pending db scripts cp bound @ later"
proof -
  let ?H = "history db scripts" and ?after = "\<lambda>tx. checkpoint_limit cp (ordering_key tx)"
  have "passed db scripts cp @ filter ?after ?H = ?H"
    unfolding passed_def
    using closed_split(3) [OF history_sorted, of "\<lambda>tx. \<not> ?after tx" db scripts] limit_closed by fastforce
  moreover have "filter (\<lambda>tx. block_number tx \<le> bound) (filter ?after ?H)
      @ filter (\<lambda>tx. \<not> block_number tx \<le> bound) (filter ?after ?H) = filter ?after ?H"
    by (rule closed_split(3) [where f = ordering_key])
      (auto simp: history_sorted sorted_filter ordering_key_def less_eq_prod_def)
  moreover have "filter (\<lambda>tx. block_number tx \<le> bound) (filter ?after ?H) = pending db scripts cp bound"
    by (auto simp: pending_def intro!: filter_cong)
  ultimately have "?H = passed db scripts cp @ pending db scripts cp bound
      @ filter (\<lambda>tx. \<not> block_number tx \<le> bound) (filter ?after ?H)"
    by argo
  then show thesis by (rule that)
qed

lemma passed_all:
  assumes "get_block_number cp \<le> bound"
  shows "passed db scripts cp @ pending db scripts cp bound = passed db scripts (ResolvedBlock bound)"
proof -
  let ?L = "filter (\<lambda>tx. block_number tx \<le> bound) (history db scripts)"
    and ?after = "\<lambda>tx. checkpoint_limit cp (ordering_key tx)"
  have "filter (\<lambda>tx. \<not> ?after tx) ?L @ filter (\<lambda>tx. \<not> \<not> ?after tx) ?L = ?L"
    using limit_closed by (intro closed_split(3) [where f = ordering_key]) (auto simp: history_sorted sorted_filter)
  moreover have "\<not> ?after tx \<Longrightarrow> block_number tx \<le> bound" for tx
    using assms by (cases cp) (auto simp: get_block_number_def ordering_key_def less_prod_def not_less)
  then have "filter (\<lambda>tx. \<not> ?after tx) ?L = passed db scripts cp"
    by (auto simp: passed_def intro!: filter_cong)
  moreover have "filter (\<lambda>tx. \<not> \<not> ?after tx) ?L = pending db scripts cp bound"
    by (simp add: pending_def conj_commute)
  moreover have "?L = passed db scripts (ResolvedBlock bound)"
    by (simp add: passed_def ordering_key_def not_less)
  ultimately show ?thesis by metis
qed

lemma passed_up_to:
  assumes "wf_db db" and "0 < k" "k \<le> length (pending db scripts cp bound)"
  defines "q \<equiv> pending db scripts cp bound ! (k - 1)"
  shows "passed db scripts cp @ take k (pending db scripts cp bound) = passed db scripts (ResolvedTx (block_number q) (tx_ix q))"
proof -
  obtain later where parts: "history db scripts = passed db scripts cp @ pending db scripts cp bound @ later"
    by (rule history_parts)
  let ?p = "pending db scripts cp bound"
  have split: "?p = take (k - 1) ?p @ q # drop k ?p"
    using assms(2,3) id_take_nth_drop [of "k - 1" ?p] by (simp add: q_def)
  have take: "take k ?p = take (k - 1) ?p @ [q]"
    using assms(2,3) take_Suc_conv_app_nth [of "k - 1" ?p] by (simp add: q_def)
  have "history db scripts = (passed db scripts cp @ take (k - 1) ?p) @ q # (drop k ?p @ later)"
    using parts split by (metis append.assoc append_Cons)
  then have "filter (\<lambda>tx. ordering_key tx \<le> ordering_key q) (history db scripts) = (passed db scripts cp @ take (k - 1) ?p) @ [q]"
    using filter_up_to [of ordering_key "passed db scripts cp @ take (k - 1) ?p" q "drop k ?p @ later"]
      history_sorted [of db scripts] history_distinct [OF assms(1), of scripts] by metis
  moreover have "passed db scripts (ResolvedTx (block_number q) (tx_ix q))
      = filter (\<lambda>tx. ordering_key tx \<le> ordering_key q) (history db scripts)"
    unfolding passed_def checkpoint_limit.simps not_less ordering_key_def [of q] ..
  ultimately show ?thesis
    by (simp add: take)
qed

text \<open>One call of the source.\<close>

lemma get_transfers_step:
  assumes wf: "wf_db db" and n: "2 \<le> unat n" and block: "block_table db mc = Some bound"
    and res: "resolve_checkpoint db cp = Inr r" "get_block_number r \<le> bound"
  obtains ts cp' r' where "get_transfers rc db scripts cp n mc = Inr (ts, cp')" "length ts \<le> unat n"
    "resolve_checkpoint db cp' = Inr r'" "get_block_number r' \<le> bound"
    "delivered rc db scripts r @ ts = delivered rc db scripts r'"
    "cp' = BlockCheckpoint bound \<or> length (pending db scripts r' bound) < length (pending db scripts r bound)"
proof -
  let ?p = "pending db scripts r bound" and ?f = "tx_to_transfers rc"
  let ?txs = "take (unat n) ?p"
  have run: "get_transfers rc db scripts cp n mc = Inr (txs_to_transfers rc ?txs n bound)"
    using block res(1) by (simp add: get_transfers_def ok_or_def get_bridge_txs_history [OF wf] map_error_def limit_rows_def pending_def)
  have sub: "set ?p \<subseteq> set (history db scripts)"
    by (auto simp: pending_def)
  have one: "length (?f tx) \<in> {1, 2}" if "tx \<in> set ?p" for tx
    using that sub in_history(3) [OF wf, of tx scripts] by (intro transfers_per_tx) blast
  obtain ts cp' where loop: "transfers_loop rc n bound ?txs [] (BlockCheckpoint bound) = (ts, cp')"
    by fastforce
  show thesis
  proof (rule transfers_loop_cut [OF loop])
    assume all: "ts = [] @ concat (map ?f ?txs)" "length ts < unat n" "cp' = BlockCheckpoint bound"
    have "length ?txs \<le> length ts"
      unfolding all(1) append_Nil using one by (intro length_concat_ge) (fastforce dest: in_set_takeD)
    then have "?txs = ?p"
      using all(2) by simp
    then show thesis
      using that [of ts cp' "ResolvedBlock bound"] run loop all
      by (simp add: txs_to_transfers_def delivered_def resolve_checkpoint_def get_block_number_def
          passed_all [OF res(2), symmetric])
  next
    fix k assume cut: "k \<le> length ?txs" "ts = [] @ concat (map ?f (take k ?txs))" "length ts \<le> unat n"
      "cp' = (if k = 0 then BlockCheckpoint bound else TxCheckpoint (bridge_tx_hash (?txs ! (k - 1))))"
      "if k = length ?txs then length ts = unat n else length ts + length (?f (?txs ! k)) > unat n"
    let ?q = "?p ! (k - 1)"
    have "0 < k"
    proof (rule ccontr)
      assume "\<not> 0 < k"
      then have "ts = []" "?txs \<noteq> [] \<longrightarrow> length (?f (?txs ! 0)) > unat n"
        using cut(2,5) by (auto split: if_splits)
      moreover have "?txs \<noteq> []"
        using cut(5) \<open>\<not> 0 < k\<close> n \<open>ts = []\<close> by (auto split: if_splits)
      moreover have "?txs ! 0 \<in> set ?p"
        using \<open>?txs \<noteq> []\<close> by (metis in_set_takeD length_greater_0_conv nth_mem)
      ultimately show False
        using one [of "?txs ! 0"] n by auto
    qed
    have k: "k \<le> length ?p" "k \<le> unat n"
      using cut(1) by simp_all
    then have "take k ?txs = take k ?p" "?txs ! (k - 1) = ?q" and mem: "?q \<in> set ?p"
      using \<open>0 < k\<close> by (simp_all add: min_absorb1)
    with cut(2,4) \<open>0 < k\<close> have ts: "ts = concat (map ?f (take k ?p))" and cp': "cp' = TxCheckpoint (bridge_tx_hash ?q)"
      by simp_all
    have "?q \<in> set (history db scripts)" "block_number ?q \<le> bound"
      using mem by (simp_all add: pending_def del: nth_mem)
    then have q: "resolve_checkpoint db cp' = Inr (ResolvedTx (block_number ?q) (tx_ix ?q))"
      using in_history(2) [OF wf] by (simp add: cp' resolve_checkpoint_def)
    have upto: "passed db scripts r @ take k ?p = passed db scripts (ResolvedTx (block_number ?q) (tx_ix ?q))" (is "_ = passed _ _ ?r'")
      using wf \<open>0 < k\<close> k(1) by (rule passed_up_to)
    have "passed db scripts ?r' @ pending db scripts ?r' bound = passed db scripts r @ ?p"
      using passed_all [OF res(2), of db scripts] passed_all [of ?r' bound db scripts] \<open>block_number ?q \<le> bound\<close>
      by (simp add: get_block_number_def)
    then have "length (passed db scripts ?r') + length (pending db scripts ?r' bound) = length (passed db scripts r) + length ?p"
      by (metis length_append)
    then have "length (pending db scripts ?r' bound) < length ?p"
      using k(1) \<open>0 < k\<close> unfolding upto [symmetric] by simp
    moreover have "delivered rc db scripts r @ ts = delivered rc db scripts ?r'"
      unfolding delivered_def ts upto [symmetric] by simp
    ultimately show thesis
      using that [OF _ cut(3) q] run loop \<open>block_number ?q \<le> bound\<close>
      by (simp add: txs_to_transfers_def get_block_number_def)
  qed simp
qed

section \<open>Blocks\<close>

text \<open>The pallet between blocks, having processed the main chain up to a position.\<close>

definition following :: "db_sync \<Rightarrow> MainChainScripts \<Rightarrow> bridge_storage \<Rightarrow> ResolvedBridgeDataCheckpoint \<Rightarrow> bool" where
  "following db scripts s r \<longleftrightarrow> MainChainScriptsConfiguration s = Some scripts \<and> \<not> InherentExecutedThisBlock s
     \<and> (\<exists>cp. DataCheckpoint s = Some cp \<and> resolve_checkpoint db cp = Inr r)"

lemma bridge_block_step:
  assumes "wf_db db" "2 \<le> unat n" "block_table db mc = Some bound" "following db scripts s r" "get_block_number r \<le> bound"
  obtains s' ts r' where "bridge_block (get_transfers rc db) handle n mc (s, h) = Some (s', fold handle ts h)"
    "following db scripts s' r'" "get_block_number r' \<le> bound" "length ts \<le> unat n"
    "delivered rc db scripts r @ ts = delivered rc db scripts r'"
    "r' = ResolvedBlock bound \<or> length (pending db scripts r' bound) < length (pending db scripts r bound)"
proof -
  obtain cp where s: "MainChainScriptsConfiguration s = Some scripts" "\<not> InherentExecutedThisBlock s"
      "DataCheckpoint s = Some cp" "resolve_checkpoint db cp = Inr r"
    using assms(4) by (auto simp: following_def)
  obtain ts cp' r' where step: "get_transfers rc db scripts cp n mc = Inr (ts, cp')" "length ts \<le> unat n"
      "resolve_checkpoint db cp' = Inr r'" "get_block_number r' \<le> bound"
      "delivered rc db scripts r @ ts = delivered rc db scripts r'"
      "cp' = BlockCheckpoint bound \<or> length (pending db scripts r' bound) < length (pending db scripts r bound)"
    by (rule get_transfers_step [OF assms(1-3) s(4) assms(5)])
  let ?s' = "s\<lparr>InherentExecutedThisBlock := False, DataCheckpoint := Some cp'\<rparr>"
  have "bridge_block (get_transfers rc db) handle n mc (s, h) = Some (?s', fold handle ts h)"
    using step(1,2) s
    by (simp add: bridge_block_def idp_new_def new_v1_def map_error_def provide_inherent_data_def
        bridge_create_inherent_def handle_transfers_def bridge_on_finalize_def)
  moreover have "following db scripts ?s' r'"
    using s step(3) by (simp add: following_def)
  moreover have "r' = ResolvedBlock bound \<or> length (pending db scripts r' bound) < length (pending db scripts r bound)"
    using step(3,6) by (auto simp: resolve_checkpoint_def)
  ultimately show thesis
    using that step(2,4,5) by blast
qed

lemma bridge_blocks_run:
  assumes "wf_db db" "2 \<le> unat n" "map (block_table db) mcs = map Some bounds"
    "following db scripts s r" "sorted (get_block_number r # bounds)"
  shows "\<exists>s' ts r'. bridge_blocks (get_transfers rc db) handle n mcs (s, h) = Some (s', fold handle ts h)
    \<and> following db scripts s' r' \<and> (\<forall>b \<in> set bounds. get_block_number r' \<le> last bounds)
    \<and> (bounds = [] \<longrightarrow> r' = r)
    \<and> delivered rc db scripts r @ ts = delivered rc db scripts r'"
  using assms(3-5)
proof (induction mcs arbitrary: bounds s r h)
  case Nil
  then show ?case by (intro exI [of _ s] exI [of _ "[]"] exI [of _ r]) simp
next
  case (Cons mc mcs)
  then obtain bound bs where b: "bounds = bound # bs" "block_table db mc = Some bound" "map (block_table db) mcs = map Some bs"
    by (cases bounds) auto
  obtain s1 ts1 r1 where one: "bridge_block (get_transfers rc db) handle n mc (s, h) = Some (s1, fold handle ts1 h)"
      "following db scripts s1 r1" "get_block_number r1 \<le> bound"
      "delivered rc db scripts r @ ts1 = delivered rc db scripts r1"
    using bridge_block_step [OF assms(1,2) b(2) Cons.prems(2)] Cons.prems(3) b(1) by (metis list.set_intros(1) sorted_simps(2))
  have "sorted (get_block_number r1 # bs)"
    using Cons.prems(3) one(3) b(1) by auto
  then obtain s' ts r' where "bridge_blocks (get_transfers rc db) handle n mcs (s1, fold handle ts1 h) = Some (s', fold handle ts (fold handle ts1 h))"
      "following db scripts s' r'" "\<forall>b \<in> set bs. get_block_number r' \<le> last bs" "bs = [] \<longrightarrow> r' = r1"
      "delivered rc db scripts r1 @ ts = delivered rc db scripts r'"
    using Cons.IH [OF b(3) one(2)] by blast
  moreover from this(3,4) one(3) have "\<forall>b \<in> set bounds. get_block_number r' \<le> last bounds"
    by (cases bs) (auto simp: b(1))
  ultimately show ?case
    using one(1,4) b(1) by (intro exI [of _ s'] exI [of _ "ts1 @ ts"] exI [of _ r']) (simp flip: append.assoc)
qed

text \<open>With the reference at one block, as many blocks as there are transactions pending, and one more, catch up.\<close>

lemma bridge_catches_up:
  assumes "wf_db db" "2 \<le> unat n" "block_table db mc = Some bound"
    "following db scripts s r" "get_block_number r \<le> bound" "length (pending db scripts r bound) < k"
    "bridge_blocks (get_transfers rc db) handle n (replicate k mc) (s, h) = Some (s', h')"
  shows "following db scripts s' (ResolvedBlock bound)"
  using assms(4-7)
proof (induction k arbitrary: s r h)
  case (Suc k)
  obtain s1 ts r1 where one: "bridge_block (get_transfers rc db) handle n mc (s, h) = Some (s1, fold handle ts h)"
      "following db scripts s1 r1" "get_block_number r1 \<le> bound"
      "r1 = ResolvedBlock bound \<or> length (pending db scripts r1 bound) < length (pending db scripts r bound)"
    by (rule bridge_block_step [OF assms(1-3) Suc.prems(1,2), where rc = rc and handle = handle and h = h])
  have rest: "bridge_blocks (get_transfers rc db) handle n (replicate k mc) (s1, fold handle ts h) = Some (s', h')"
    using Suc.prems(4) one(1) by simp
  have none: "pending db scripts (ResolvedBlock bound) bound = []"
    by (auto simp: pending_def ordering_key_def filter_empty_conv)
  show ?case
  proof (cases "k = 0")
    case True
    then show ?thesis
      using one rest Suc.prems(3) by auto
  next
    case False
    then have "length (pending db scripts r1 bound) < k"
      using one(4) none Suc.prems(3) by auto
    then show ?thesis
      using Suc.IH [OF one(2,3) _ rest] by simp
  qed
qed simp

lemma bridge_blocks_append:
  "bridge_blocks source handle n (mcs @ mcs') sh = Option.bind (bridge_blocks source handle n mcs sh) (bridge_blocks source handle n mcs')"
  by (induction mcs arbitrary: sh) (auto split: Option.bind_splits)

lemma following_unique: "following db scripts s r \<Longrightarrow> following db scripts s r' \<Longrightarrow> r' = r"
  by (auto simp: following_def)

lemma replicate_Some: "map f (replicate k x) = map Some ys \<Longrightarrow> 0 < k \<Longrightarrow> \<exists>y. f x = Some y \<and> ys = replicate k y"
proof (induction k arbitrary: ys)
  case (Suc k)
  then show ?case by (cases ys; cases "k = 0") auto
qed simp

lemma bridge_blocks_caught_up:
  assumes "wf_db db" "2 \<le> unat n" "map (block_table db) (mcs @ replicate (Suc (length (history db scripts))) mc) = map Some bounds"
    "following db scripts s r" "sorted (get_block_number r # bounds)"
    "bridge_blocks (get_transfers rc db) handle n (mcs @ replicate (Suc (length (history db scripts))) mc) (s, h) = Some (s', h')"
  shows "following db scripts s' (ResolvedBlock (last bounds))"
proof -
  let ?k = "Suc (length (history db scripts))"
  obtain bs cs where b: "bounds = bs @ cs" "map (block_table db) mcs = map Some bs" "map (block_table db) (replicate ?k mc) = map Some cs"
    using assms(3) by (auto simp: append_eq_map_conv map_append simp del: map_replicate replicate.simps)
  obtain bound where bound: "block_table db mc = Some bound" and cs: "cs = replicate ?k bound"
    using replicate_Some [OF b(3)] by auto
  obtain s1 ts r1 where run: "bridge_blocks (get_transfers rc db) handle n mcs (s, h) = Some (s1, fold handle ts h)"
    "following db scripts s1 r1" "\<forall>b \<in> set bs. get_block_number r1 \<le> last bs" "bs = [] \<longrightarrow> r1 = r"
    using bridge_blocks_run [OF assms(1,2) b(2) assms(4), of rc handle h] assms(5) b(1) by (auto simp: sorted_append)
  have "get_block_number r1 \<le> bound"
    using run(3,4) assms(5) by (cases "bs = []") (auto simp: b(1) cs sorted_append intro: order_trans)
  moreover have "length (pending db scripts r1 bound) < ?k"
    by (simp add: pending_def le_imp_less_Suc)
  moreover have "bridge_blocks (get_transfers rc db) handle n (replicate ?k mc) (s1, fold handle ts h) = Some (s', h')"
    using assms(6) run(1) by (simp add: bridge_blocks_append)
  moreover have "last bounds = bound"
    by (simp add: b(1) cs)
  ultimately show ?thesis
    using bridge_catches_up [OF assms(1,2) bound run(2)] by metis
qed

section \<open>The cache\<close>

text \<open>
  The cached source beside a database that grows: queries whose reference block is
  stable, and changes of the database that keep the stable part.
\<close>

record source_system =
  sys_db :: db_sync
  sys_cache :: TokenUtxoCache
  sys_stable :: u32

definition extends :: "u32 \<Rightarrow> db_sync \<Rightarrow> db_sync \<Rightarrow> bool" where
  "extends b db db' \<longleftrightarrow>
    (\<forall>scripts. filter (\<lambda>tx. block_number tx \<le> b) (history db' scripts) = filter (\<lambda>tx. block_number tx \<le> b) (history db scripts))
    \<and> (\<forall>h p. get_block_info_for_tx_hash db h = Some p \<and> fst p \<le> b \<longrightarrow> get_block_info_for_tx_hash db' h = Some p)"

definition stable_ok :: "db_sync \<Rightarrow> u32 \<Rightarrow> bool" where
  "stable_ok db b \<longleftrightarrow> wf_db db \<and> (\<forall>l. latest_stable db = Some l \<longrightarrow> l \<le> b)"

text \<open>A query can be served when its reference block is stable, as far as the source knows.\<close>

definition servable :: "source_system \<Rightarrow> hash \<Rightarrow> bool" where
  "servable y mc \<longleftrightarrow> (\<forall>b. block_table (sys_db y) mc = Some b \<longrightarrow>
     b \<le> sys_stable y \<and> (\<forall>l. latest_stable (sys_db y) = Some l \<longrightarrow> b \<le> l))"

inductive source_step :: "'r recipient_codec \<Rightarrow> u32 \<Rightarrow> source_system \<Rightarrow> source_system \<Rightarrow> bool"
  for rc :: "'r recipient_codec" and lookahead :: u32 where
  source_query: "servable y mc \<Longrightarrow>
    source_step rc lookahead y (y\<lparr>sys_cache := snd (cached_get_transfers rc lookahead (sys_db y) scripts cp n mc (sys_cache y))\<rparr>)"
| source_grow: "extends (sys_stable y) (sys_db y) db' \<Longrightarrow> sys_stable y \<le> b \<Longrightarrow> stable_ok db' b \<Longrightarrow>
    source_step rc lookahead y (y\<lparr>sys_db := db', sys_stable := b\<rparr>)"

definition source_init :: "source_system \<Rightarrow> bool" where
  "source_init y \<longleftrightarrow> sys_cache y = utxo_cache_new \<and> stable_ok (sys_db y) (sys_stable y)"

definition in_cached_range :: "TokenUtxoCache \<Rightarrow> BridgeTx \<Rightarrow> bool" where
  "in_cached_range c tx \<longleftrightarrow> start_block c \<le> block_number tx \<and> block_number tx \<le> end_block c"

definition utxo_cache_inv :: "db_sync \<Rightarrow> u32 \<Rightarrow> TokenUtxoCache \<Rightarrow> bool" where
  "utxo_cache_inv db b c \<longleftrightarrow> cached_txs c = filter (in_cached_range c) (history db (cached_scripts c)) \<and> end_block c \<le> b
    \<and> (\<forall>h tx. tx_cache c h = Some tx \<longrightarrow> get_block_info_for_tx_hash db h = Some (block_number tx, tx_ix tx) \<and> block_number tx \<le> b)"

lemma cache_inv_empty:
  assumes "wf_db db" "start_block c = 0" "end_block c = 0" "cached_txs c = []" "tx_cache c = tx_cache c'" "utxo_cache_inv db b c'"
  shows "utxo_cache_inv db b c"
proof -
  have "\<not> in_cached_range c tx" if "tx \<in> set (history db scripts)" for tx scripts
    using in_history(1) [OF assms(1) that] assms(3) by (auto simp: in_cached_range_def)
  then have "filter (in_cached_range c) (history db (cached_scripts c)) = []"
    by (simp add: filter_empty_conv)
  then show ?thesis
    using assms by (simp add: utxo_cache_inv_def)
qed

lemma set_mc_scripts_inv:
  assumes "wf_db db" "utxo_cache_inv db b c"
  shows "utxo_cache_inv db b (set_mc_scripts scripts c)" "cached_scripts (set_mc_scripts scripts c) = scripts"
  using assms cache_inv_empty [OF assms(1), where c = "set_mc_scripts scripts c" and c' = c and b = b]
  by (auto simp: set_mc_scripts_def)

lemma not_limit:
  "\<not> checkpoint_limit (ResolvedTx m ix) k \<longleftrightarrow> k \<le> (m, ix)" "\<not> checkpoint_limit (ResolvedBlock m) k \<longleftrightarrow> fst k \<le> m"
  by (simp_all only: checkpoint_limit.simps not_less)

lemma fst_ordering_key: "fst (ordering_key tx) = block_number tx"
  by (simp add: ordering_key_def)

text \<open>What the cache serves is what the query would return.\<close>

lemma serve_correct:
  assumes "utxo_cache_inv db b c" "serve_from_cache c r to_block n = Some txs"
  shows "txs = take (unat n) (pending db (cached_scripts c) r to_block)"
proof -
  let ?H = "history db (cached_scripts c)" and ?skip = "\<lambda>tx. \<not> checkpoint_limit r (ordering_key tx)"
  have to: "to_block \<le> end_block c"
    using assms(2) by (simp add: serve_from_cache_def not_less split: if_splits)
  have after: "start_block c \<le> block_number tx" if "checkpoint_limit r (ordering_key tx)" for tx
    using that assms(2)
    by (auto simp: serve_from_cache_def ordering_key_def less_prod_def word_le_nat_alt word_less_nat_alt unat_saturating_add
        split: if_splits ResolvedBridgeDataCheckpoint.splits)
  have "txs = take (unat n) (takeWhile (\<lambda>tx. block_number tx \<le> to_block) (dropWhile ?skip (cached_txs c)))"
    using assms(2) to
    by (cases r) (auto simp: serve_from_cache_def not_limit not_less fst_ordering_key simp del: checkpoint_limit.simps split: if_splits)
  also have "cached_txs c = filter (in_cached_range c) ?H"
    using assms(1) by (simp add: utxo_cache_inv_def)
  also have "dropWhile ?skip (filter (in_cached_range c) ?H) = filter (\<lambda>tx. \<not> ?skip tx) (filter (in_cached_range c) ?H)"
    using limit_closed by (intro closed_split(2) [where f = ordering_key]) (auto simp: history_sorted sorted_filter)
  also have "takeWhile (\<lambda>tx. block_number tx \<le> to_block) \<dots> = filter (\<lambda>tx. block_number tx \<le> to_block) \<dots>"
    by (intro closed_split(1) [where f = ordering_key])
      (auto simp: history_sorted sorted_filter ordering_key_def less_eq_prod_def)
  also have "\<dots> = pending db (cached_scripts c) r to_block"
    using to after by (auto simp: pending_def in_cached_range_def intro!: filter_cong)
  finally show ?thesis .
qed

lemma saturating_add_ge: "a \<le> saturating_add a (b :: u32)"
proof -
  have "unat a < 2 ^ LENGTH(32)"
    by (rule unsigned_less)
  then show ?thesis
    by (auto simp: word_le_nat_alt unat_saturating_add min_def)
qed

lemma fill_correct:
  assumes "wf_db db" "utxo_cache_inv db b c" "stable_ok db b" "to_block \<le> b" "cached_scripts c = scripts"
    "\<forall>l. latest_stable db = Some l \<longrightarrow> to_block \<le> l"
  obtains c' where "fill_cache lookahead db scripts r to_block c = (Inr (), c')" "utxo_cache_inv db b c'" "cached_scripts c' = scripts"
    "serve_from_cache c' r to_block n \<noteq> None"
proof -
  define upto where "upto = min (saturating_add to_block lookahead) (case latest_stable db of Some l \<Rightarrow> l | None \<Rightarrow> to_block)"
  let ?from = "get_block_number r"
  let ?txs = "pending db scripts (ResolvedBlock (saturating_sub ?from 1)) upto"
  let ?c' = "set_cached_transfers ?from upto ?txs c"
  have upto: "to_block \<le> upto" "upto \<le> b"
    using assms(3,4,6) saturating_add_ge [of to_block lookahead]
    by (auto simp: upto_def stable_ok_def min_def split: option.splits)
  have fill: "fill_cache lookahead db scripts r to_block c = (Inr (), ?c')"
    by (simp add: fill_cache_def Let_def get_bridge_txs_history [OF assms(1)] map_error_def limit_rows_def pending_def upto_def)
  have range: "?txs = filter (in_cached_range ?c') (history db scripts)"
  proof (rule trans [OF pending_def], rule filter_cong [OF refl])
    fix tx assume "tx \<in> set (history db scripts)"
    then have "0 < unat (block_number tx)"
      using in_history(1) [OF assms(1)] by (simp add: word_less_nat_alt)
    then show "(block_number tx \<le> upto \<and> checkpoint_limit (ResolvedBlock (saturating_sub ?from 1)) (ordering_key tx)) = in_cached_range ?c' tx"
      by (auto simp: in_cached_range_def set_cached_transfers_def ordering_key_def word_le_nat_alt word_less_nat_alt unat_saturating_sub)
  qed
  have "get_block_info_for_tx_hash db h = Some (block_number tx, tx_ix tx) \<and> block_number tx \<le> b" if "tx_cache ?c' h = Some tx" for h tx
  proof -
    have "tx \<in> set ?txs" "h = bridge_tx_hash tx"
      using that by (auto simp: set_cached_transfers_def dest!: map_of_SomeD)
    then show ?thesis
      using in_history(2) [OF assms(1)] upto(2) by (auto simp: pending_def)
  qed
  then have "utxo_cache_inv db b ?c'"
    using range upto(2) assms(5) by (simp add: utxo_cache_inv_def set_cached_transfers_def)
  moreover have "serve_from_cache ?c' r to_block n \<noteq> None"
    using upto(1) saturating_add_ge
    by (auto simp: serve_from_cache_def set_cached_transfers_def get_block_number_def not_less
        split: ResolvedBridgeDataCheckpoint.split)
  ultimately show thesis
    using that [OF fill] assms(5) by (simp add: set_cached_transfers_def)
qed

lemma serve_or_fill_correct:
  assumes "stable_ok db b" "utxo_cache_inv db b c" "to_block \<le> b" "cached_scripts c = scripts"
    "\<forall>l. latest_stable db = Some l \<longrightarrow> to_block \<le> l"
  obtains c' where "utxo_cache_inv db b c'"
    "serve_or_fill lookahead db scripts r to_block n c = (Inr (take (unat n) (pending db scripts r to_block)), c')"
proof (cases "serve_from_cache c r to_block n")
  case (Some txs)
  then have "serve_or_fill lookahead db scripts r to_block n c = (Inr (take (unat n) (pending db scripts r to_block)), c)"
    using serve_correct [OF assms(2) Some] assms(4) by (simp add: serve_or_fill_def)
  then show thesis using that assms(2) by blast
next
  case None
  have wf: "wf_db db"
    using assms(1) by (simp add: stable_ok_def)
  obtain c' where c': "fill_cache lookahead db scripts r to_block c = (Inr (), c')" "utxo_cache_inv db b c'" "cached_scripts c' = scripts"
      "serve_from_cache c' r to_block n \<noteq> None"
    by (rule fill_correct [OF wf assms(2,1,3,4,5)])
  then obtain txs where txs: "serve_from_cache c' r to_block n = Some txs" by blast
  have "txs = take (unat n) (pending db scripts r to_block)"
    using serve_correct [OF c'(2) txs] c'(3) by simp
  then have "serve_or_fill lookahead db scripts r to_block n c = (Inr (take (unat n) (pending db scripts r to_block)), c')"
    using None c'(1) txs by (simp add: serve_or_fill_def st_bind_def ok_or_def)
  then show thesis using that c'(2) by blast
qed

lemma resolve_correct:
  assumes "utxo_cache_inv db b c"
  shows "resolve_data_checkpoint db c cp = resolve_checkpoint db cp"
  using assms
  by (auto simp: resolve_data_checkpoint_def resolve_checkpoint_def try_resolve_checkpoint_from_cache_def utxo_cache_inv_def
      split: BridgeDataCheckpoint.split option.split)

text \<open>A query through the cache, where the reference block is stable.\<close>

lemma cached_query:
  assumes "stable_ok db b" "utxo_cache_inv db b c" "\<forall>to_block. block_table db mc = Some to_block \<longrightarrow> to_block \<le> b"
    "\<forall>to_block l. block_table db mc = Some to_block \<and> latest_stable db = Some l \<longrightarrow> to_block \<le> l"
  shows "fst (cached_get_transfers rc lookahead db scripts cp n mc c) = get_transfers rc db scripts cp n mc"
    and "utxo_cache_inv db b (snd (cached_get_transfers rc lookahead db scripts cp n mc c))"
proof -
  have wf: "wf_db db"
    using assms(1) by (simp add: stable_ok_def)
  let ?c = "set_mc_scripts scripts c"
  note inv = set_mc_scripts_inv [OF wf assms(2), of scripts]
  have "fst (cached_get_transfers rc lookahead db scripts cp n mc c) = get_transfers rc db scripts cp n mc
    \<and> utxo_cache_inv db b (snd (cached_get_transfers rc lookahead db scripts cp n mc c))"
  proof (cases "block_table db mc")
    case None
    then show ?thesis
      using inv by (simp add: cached_get_transfers_def get_transfers_def ok_or_def)
  next
    case (Some to_block)
    show ?thesis
    proof (cases "resolve_checkpoint db cp")
      case (Inl e)
      then show ?thesis
        using inv Some
        by (simp add: cached_get_transfers_def get_transfers_def ok_or_def st_bind_read resolve_correct)
    next
      case (Inr r)
      obtain c' where "utxo_cache_inv db b c'"
          "serve_or_fill lookahead db scripts r to_block n ?c = (Inr (take (unat n) (pending db scripts r to_block)), c')"
        using assms(3,4) Some by (auto intro: serve_or_fill_correct [OF assms(1) inv(1) _ inv(2)])
      then show ?thesis
        using Some Inr inv
        by (simp add: cached_get_transfers_def get_transfers_def ok_or_def st_bind_read resolve_correct st_bind_def
            get_bridge_txs_history [OF wf] map_error_def limit_rows_def pending_def)
    qed
  qed
  then show "fst (cached_get_transfers rc lookahead db scripts cp n mc c) = get_transfers rc db scripts cp n mc"
    "utxo_cache_inv db b (snd (cached_get_transfers rc lookahead db scripts cp n mc c))" by blast+
qed

lemma cache_inv_extends:
  assumes "utxo_cache_inv db b c" "extends b db db'" "b \<le> b'"
  shows "utxo_cache_inv db' b' c"
proof -
  have "filter (in_cached_range c) (history db' (cached_scripts c)) = filter (in_cached_range c) (filter (\<lambda>tx. block_number tx \<le> b) (history db' (cached_scripts c)))"
    using assms(1) by (auto simp: utxo_cache_inv_def in_cached_range_def intro!: filter_cong)
  also have "\<dots> = filter (in_cached_range c) (filter (\<lambda>tx. block_number tx \<le> b) (history db (cached_scripts c)))"
    using assms(2) by (simp add: extends_def)
  also have "\<dots> = filter (in_cached_range c) (history db (cached_scripts c))"
    using assms(1) by (auto simp: utxo_cache_inv_def in_cached_range_def intro!: filter_cong)
  finally have "cached_txs c = filter (in_cached_range c) (history db' (cached_scripts c))"
    using assms(1) by (simp add: utxo_cache_inv_def)
  moreover have "x \<le> b \<Longrightarrow> x \<le> b'" for x
    using assms(3) by (rule order_trans [rotated])
  ultimately show ?thesis
    using assms(1,2) by (auto simp: utxo_cache_inv_def extends_def)
qed

interpretation bs: transition_invariant source_init "source_step rc lookahead"
  "\<lambda>y. stable_ok (sys_db y) (sys_stable y) \<and> utxo_cache_inv (sys_db y) (sys_stable y) (sys_cache y)"
proof unfold_locales
  fix y
  assume "source_init y"
  then have wf: "wf_db (sys_db y)" and y: "sys_cache y = utxo_cache_new" "stable_ok (sys_db y) (sys_stable y)"
    by (simp_all add: source_init_def stable_ok_def)
  have "filter (in_cached_range utxo_cache_new) (history (sys_db y) scripts) = []" for scripts
    using in_history(1) [OF wf] by (fastforce simp: filter_empty_conv in_cached_range_def utxo_cache_new_def)
  then show "stable_ok (sys_db y) (sys_stable y) \<and> utxo_cache_inv (sys_db y) (sys_stable y) (sys_cache y)"
    using y by (simp add: utxo_cache_inv_def utxo_cache_new_def)
next
  fix y y'
  assume inv: "stable_ok (sys_db y) (sys_stable y) \<and> utxo_cache_inv (sys_db y) (sys_stable y) (sys_cache y)"
    and "source_step rc lookahead y y'"
  from this(2) show "stable_ok (sys_db y') (sys_stable y') \<and> utxo_cache_inv (sys_db y') (sys_stable y') (sys_cache y')"
  proof cases
    case (source_query mc scripts cp n)
    then show ?thesis
      using inv cached_query(2) [of "sys_db y" "sys_stable y" "sys_cache y" mc] by (simp add: servable_def)
  next
    case (source_grow db' b)
    then show ?thesis
      using inv cache_inv_extends by auto
  qed
qed

section \<open>Properties\<close>

text \<open>
  C9: block after block, the bridge delivers the transfers of the main chain
  exactly once and in their order.  From a checkpoint that is not beyond the first
  reference, with references that do not go backwards and room for two transfers
  per block, every block is built without failure, and what the handler has been
  given is exactly the transfers of the transactions between the checkpoints,
  however the batches were cut.  When the reference stays at a block for one block
  more than there are transactions, everything up to it has been delivered.
\<close>

theorem bridge_follows_history:
  assumes "wf_db db" "2 \<le> unat n" "map (block_table db) mcs = map Some bounds"
    "following db scripts s r" "sorted (get_block_number r # bounds)"
  shows "\<exists>s' ts r'. bridge_blocks (get_transfers rc db) handle n mcs (s, h) = Some (s', fold handle ts h)
    \<and> following db scripts s' r' \<and> delivered rc db scripts r @ ts = delivered rc db scripts r'
    \<and> (\<forall>us mc. mcs = us @ replicate (Suc (length (history db scripts))) mc \<longrightarrow> r' = ResolvedBlock (last bounds))"
proof -
  obtain s' ts r' where run: "bridge_blocks (get_transfers rc db) handle n mcs (s, h) = Some (s', fold handle ts h)"
      "following db scripts s' r'" "delivered rc db scripts r @ ts = delivered rc db scripts r'"
    using bridge_blocks_run [OF assms, of rc handle h] by blast
  moreover have "r' = ResolvedBlock (last bounds)" if "mcs = us @ replicate (Suc (length (history db scripts))) mc" for us mc
    using bridge_blocks_caught_up [OF assms(1,2) assms(3) [unfolded that] assms(4,5) run(1) [unfolded that]] run(2)
      following_unique by blast
  ultimately show ?thesis by blast
qed

text \<open>
  C18: the cached source of transfers is transparent.  In every state it can reach
  by queries for whatever scripts and checkpoints and by growth of the database
  beyond its stable part, a query whose reference block is stable is answered as by
  the source without a cache, errors included.
\<close>

theorem bridge_cache_transparent:
  assumes "reachable source_init (source_step rc lookahead) y" and "servable y mc"
  shows "fst (cached_get_transfers rc lookahead (sys_db y) scripts cp n mc (sys_cache y)) = get_transfers rc (sys_db y) scripts cp n mc"
  using bs.reachable_inv [OF assms(1)] assms(2)
  by (intro cached_query(1) [where b = "sys_stable y"]) (auto simp: servable_def)

text \<open>A database with one transaction, which locks ten tokens for an unreadable recipient.\<close>

definition sx_db :: db_sync where
  "sx_db = \<lparr>tx_table = [\<lparr>tx_id = 1, tx_block_no = 3, tx_block_index = 0, tx_row_hash = [1], tx_metadata = None\<rparr>],
     tx_out_table = [\<lparr>out_tx_id = 1, out_index = 0, out_address = [7], out_policy = [8], out_name = [9], out_quantity = 10,
       consumed_by_tx_id = None\<rparr>],
     tx_in_table = [], tx_in_config = Consumed, block_table = (\<lambda>mc. if mc = [2] then Some 5 else None), latest_stable = Some 6\<rparr>"

definition sx_scripts :: MainChainScripts where
  "sx_scripts = \<lparr>token_policy_id = [8], token_asset_name = [9], illiquid_circulation_supply_validator_address = [7],
     reserve_validator_address = [6]\<rparr>"

definition sx_codec :: "BridgeRecipient recipient_codec" where
  "sx_codec = \<lparr>hex_decode = (\<lambda>_. None), try_from = recipient_try_from\<rparr>"

definition sx_storage :: bridge_storage where
  "sx_storage = \<lparr>MainChainScriptsConfiguration = Some sx_scripts, DataCheckpoint = Some (BlockCheckpoint 0),
     InherentExecutedThisBlock = False\<rparr>"

lemma sx_wf: "wf_db sx_db"
  by (auto simp: wf_db_def sx_db_def bridge_tx_totals_def fits_def inputs_subquery_def outputs_subquery_def total_for_def Let_def)

lemma sx_history: "history sx_db sx_scripts = [\<lparr>block_number = 3, tx_ix = 0, bridge_tx_hash = [1], c2m_metadata = None,
    bridge_in = 0, bridge_out = 10, reserve_in = 0, reserve_out = 0\<rparr>]"
  by (simp add: history_def sx_db_def sx_scripts_def bridge_tx_totals_def inputs_subquery_def outputs_subquery_def
      total_for_def holds_def decoded_def Let_def)

theorem bridge_follows_history_witness:
  "\<exists>s'. bridge_blocks (get_transfers sx_codec sx_db) (\<lambda>t log. log @ [t]) 2 [[2], [2]] (sx_storage, []) =
      Some (s', [\<lparr>mc_tx_hash = [1], amount = 10, recipient = Invalid\<rparr>])
    \<and> following sx_db sx_scripts s' (ResolvedBlock 5)"
proof -
  have start: "following sx_db sx_scripts sx_storage (ResolvedBlock 0)"
    by (simp add: following_def sx_storage_def resolve_checkpoint_def)
  have refs: "map (block_table sx_db) [[2], [2]] = map Some [5, 5]" and asc: "sorted (get_block_number (ResolvedBlock 0) # [5, 5])"
    by (simp_all add: sx_db_def get_block_number_def)
  have two: "2 \<le> unat (2 :: u32)"
    by simp
  obtain s' ts r' where run: "bridge_blocks (get_transfers sx_codec sx_db) (\<lambda>t log. log @ [t]) 2 [[2], [2]] (sx_storage, [])
        = Some (s', fold (\<lambda>t log. log @ [t]) ts [])" "following sx_db sx_scripts s' r'"
      "delivered sx_codec sx_db sx_scripts (ResolvedBlock 0) @ ts = delivered sx_codec sx_db sx_scripts r'"
      "\<forall>us mc. [[2], [2]] = us @ replicate (Suc (length (history sx_db sx_scripts))) (mc :: hash) \<longrightarrow> r' = ResolvedBlock (last [5, 5])"
    using bridge_follows_history [OF sx_wf two refs start asc, of sx_codec "\<lambda>t log. log @ [t]" "[]"] by blast
  have "r' = ResolvedBlock 5"
    using run(4) [THEN spec, of "[]", THEN spec, of "[2]"] by (simp add: sx_history numeral_2_eq_2)
  moreover from this run(3) have "ts = [\<lparr>mc_tx_hash = [1], amount = 10, recipient = Invalid\<rparr>]"
    by (simp add: delivered_def passed_def sx_history ordering_key_def tx_to_transfers_def metadata_to_recipient_def saturating_sub_def)
  ultimately show ?thesis
    using run(1,2) by auto
qed

theorem bridge_cache_transparent_witness:
  "fst (cached_get_transfers sx_codec 100 sx_db sx_scripts (BlockCheckpoint 0) 2 [2] utxo_cache_new) =
      Inr ([\<lparr>mc_tx_hash = [1], amount = 10, recipient = Invalid\<rparr>], BlockCheckpoint 5)"
proof -
  let ?y = "\<lparr>sys_db = sx_db, sys_cache = utxo_cache_new, sys_stable = 6\<rparr>"
  have "reachable source_init (source_step sx_codec 100) ?y"
    using sx_wf by (intro reachable_init) (simp add: source_init_def stable_ok_def sx_db_def)
  moreover have "servable ?y [2]"
    by (simp add: servable_def sx_db_def)
  ultimately have "fst (cached_get_transfers sx_codec 100 sx_db sx_scripts (BlockCheckpoint 0) 2 [2] utxo_cache_new)
      = get_transfers sx_codec sx_db sx_scripts (BlockCheckpoint 0) 2 [2]"
    using bridge_cache_transparent [of sx_codec 100 ?y "[2]" sx_scripts "BlockCheckpoint 0" 2] by simp
  moreover have "block_table sx_db [2] = Some 5"
    by (simp add: sx_db_def)
  ultimately show ?thesis
    by (simp add: get_transfers_def ok_or_def resolve_checkpoint_def get_bridge_txs_history [OF sx_wf] map_error_def limit_rows_def
        sx_history ordering_key_def txs_to_transfers_def tx_to_transfers_def metadata_to_recipient_def saturating_sub_def)
qed

end
