(* ===== verification/Plutus.thy ===== *)
theory Plutus
  imports Prelude
begin

text \<open>
  Plutus data, the values that outputs on Cardano carry, as the serialization library
  presents them, with its accessors.
\<close>

text \<open>A map has its keys once, each with a list of values; the number of a constructor is its alternative.\<close>

datatype plutus =
    PlutusConstr nat "plutus list"
  | PlutusMap "(plutus \<times> plutus list) list"
  | PlutusList "plutus list"
  | PlutusInteger int
  | PlutusByteString "u8 list"

fun as_list :: "plutus \<Rightarrow> plutus list option" where
  "as_list (PlutusList ds) = Some ds"
| "as_list _ = None"

fun as_integer :: "plutus \<Rightarrow> int option" where
  "as_integer (PlutusInteger i) = Some i"
| "as_integer _ = None"

fun as_map :: "plutus \<Rightarrow> (plutus \<times> plutus list) list option" where
  "as_map (PlutusMap m) = Some m"
| "as_map _ = None"

fun as_byte_string :: "plutus \<Rightarrow> u8 list option" where
  "as_byte_string (PlutusByteString b) = Some b"
| "as_byte_string _ = None"

fun as_constr :: "plutus \<Rightarrow> (nat \<times> plutus list) option" where
  "as_constr (PlutusConstr n ds) = Some (n, ds)"
| "as_constr _ = None"

text \<open>A big integer is read at a width only if it fits.\<close>

definition as_u64 :: "plutus \<Rightarrow> u64 option" where
  "as_u64 d = (case as_integer d of Some i \<Rightarrow> if 0 \<le> i \<and> i < 2 ^ 64 then Some (word_of_int i) else None | None \<Rightarrow> None)"

definition as_u32 :: "plutus \<Rightarrow> u32 option" where
  "as_u32 d = (case as_u64 d of Some w \<Rightarrow> if unat w < 2 ^ 32 then Some (ucast w) else None | None \<Rightarrow> None)"

definition as_u16 :: "plutus \<Rightarrow> u16 option" where
  "as_u16 d = (case as_u32 d of Some w \<Rightarrow> if unat w < 2 ^ 16 then Some (ucast w) else None | None \<Rightarrow> None)"

lemma as_u64_uint: "as_u64 (PlutusInteger (uint (w :: u64))) = Some w"
proof -
  have "uint w < 2 ^ LENGTH(64)" by (rule uint_lt2p)
  then show ?thesis by (simp add: as_u64_def)
qed

lemma ucast_u16: "unat (ucast (w :: u16) :: u64) = unat w" "unat (ucast (ucast (w :: u16) :: u64) :: u32) = unat w"
proof -
  have b: "unat w < 2 ^ LENGTH(16)" by (rule unsigned_less)
  then have "unat w < 2 ^ LENGTH(64)" by simp
  then show w: "unat (ucast w :: u64) = unat w" by (simp add: unsigned_ucast_eq take_bit_nat_eq_self)
  have "unat (ucast w :: u64) < 2 ^ LENGTH(32)" using b by (simp add: w)
  then show "unat (ucast (ucast w :: u64) :: u32) = unat w"
    by (simp only: unsigned_ucast_eq [of "ucast w :: u64"] w take_bit_nat_eq_self)
qed

lemma as_u16_uint: "as_u16 (PlutusInteger (uint (w :: u16))) = Some w"
proof -
  have b: "unat w < 2 ^ LENGTH(16)" by (rule unsigned_less)
  have "uint w = uint (ucast w :: u64)" using ucast_u16(1) [of w] by (simp only: uint_nat)
  then have "as_u64 (PlutusInteger (uint w)) = Some (ucast w)" by (simp only: as_u64_uint)
  moreover have "ucast (ucast (ucast w :: u64) :: u32) = w"
    by (simp only: word_unat_eq_iff unsigned_ucast_eq [of "ucast (ucast w :: u64) :: u32"] ucast_u16 take_bit_nat_eq_self b)
  ultimately show ?thesis
    using b by (simp add: as_u32_def as_u16_def ucast_u16)
qed

end
