(* ===== verification/Authority_Observation.thy ===== *)
theory Authority_Observation
  imports Inherents "HOL-Library.Product_Lexorder" "HOL-Library.Multiset" Plutus
begin

text \<open>
  The observation of the governance bodies on Cardano: the reading of a body's
  datum (\<open>mainchain-follower/src/data_source/federated_authority_observation.rs\<close>),
  the pallet
  (\<open>pallets/federated-authority-observation/src/lib.rs\<close>) that resets the members of
  the bodies, and the runtime's handlers of a change of members
  (\<open>runtime/common/src/governance.rs\<close>).

  Accounts are of an ordered type.  The membership pallets that keep the members,
  the reference counts of accounts and the decoding of account ids are parameters.
\<close>

section \<open>Data\<close>

type_synonym member_key = "u8 list"
type_synonym MainchainMember = "u8 list"

record AuthoritiesData =
  authorities :: "(member_key \<times> MainchainMember) list"
  authorities_round :: u8

record FederatedAuthorityData =
  council_authorities :: AuthoritiesData
  technical_committee_authorities :: AuthoritiesData
  mc_block_hash :: "u8 list"

datatype fao_inherent_error = DecodeFailed | CouncilMembersMismatch | TechnicalCommitteeMembersMismatch | TooManyMembers

section \<open>The datum of a governance body\<close>

datatype datum_error =
    NotVersionedMultisig
  | VersionedMultisigTooShort nat
  | NotMultisig
  | MultisigTooShort nat
  | RoundNotInteger
  | RoundNotU64
  | RoundNotU8
  | BadKeyLength nat
  | BadValueLength nat
  | NotMembersMap

fun decode_members ::
  "(plutus \<times> plutus list) list \<Rightarrow> plutus list \<Rightarrow> (datum_error, (member_key \<times> MainchainMember) list) result" where
  "decode_members members_map [] = Inr []"
| "decode_members members_map (key # keys) =
    (case as_byte_string key of
       None \<Rightarrow> decode_members members_map keys
     | Some key_bytes \<Rightarrow>
        if length key_bytes \<noteq> 32 then Inl (BadKeyLength (length key_bytes))
        else (case map_of members_map key of
           None \<Rightarrow> decode_members members_map keys
         | Some [] \<Rightarrow> decode_members members_map keys
         | Some (value_data # _) \<Rightarrow>
            (case as_byte_string value_data of
               None \<Rightarrow> decode_members members_map keys
             | Some sr25519 \<Rightarrow>
                if length sr25519 \<noteq> 32 then Inl (BadValueLength (length sr25519))
                else bind_result (decode_members members_map keys) (\<lambda>ms. Inr ((sr25519, drop 4 key_bytes) # ms)))))"

definition decode_round :: "plutus \<Rightarrow> (datum_error, u8) result" where
  "decode_round d = (case as_integer d of
     None \<Rightarrow> Inl RoundNotInteger
   | Some i \<Rightarrow> if i < 0 \<or> i \<ge> 2 ^ 64 then Inl RoundNotU64 else if i \<ge> 2 ^ 8 then Inl RoundNotU8 else Inr (word_of_int i))"

definition decode_governance_datum :: "plutus \<Rightarrow> (datum_error, AuthoritiesData) result" where
  "decode_governance_datum d =
    (case as_list d of
       None \<Rightarrow> Inl NotVersionedMultisig
     | Some versioned_list \<Rightarrow>
        if length versioned_list < 2 then Inl (VersionedMultisigTooShort (length versioned_list))
        else (case as_list (versioned_list ! 0) of
           None \<Rightarrow> Inl NotMultisig
         | Some data_list \<Rightarrow>
            if length data_list < 2 then Inl (MultisigTooShort (length data_list))
            else bind_result (decode_round (versioned_list ! 1)) (\<lambda>r.
              case as_map (data_list ! 1) of
                None \<Rightarrow> Inl NotMembersMap
              | Some members_map \<Rightarrow>
                  bind_result (decode_members members_map (map fst members_map)) (\<lambda>ms.
                  Inr \<lparr>authorities = ms, authorities_round = r\<rparr>))))"

section \<open>The data source\<close>

record governance_row =
  gov_address :: "u8 list"
  gov_policy :: "u8 list"
  full_datum :: plutus
  gov_block_no :: u32
  gov_tx_index :: u32

text \<open>The latest row; the order of rows of one transaction is that of the table.\<close>

definition get_governance_body_utxo :: "governance_row list \<Rightarrow> u8 list \<Rightarrow> u8 list \<Rightarrow> u32 \<Rightarrow> governance_row option" where
  "get_governance_body_utxo rows addr policy block_number =
    (case rev (sort_key (\<lambda>r. (gov_block_no r, gov_tx_index r))
        (filter (\<lambda>r. gov_address r = addr \<and> gov_policy r = policy \<and> gov_block_no r \<le> block_number) rows)) of
       [] \<Rightarrow> None | r # _ \<Rightarrow> Some r)"

record AuthBodyConfig =
  body_address :: "u8 list"
  body_policy_id :: "u8 list"

record governance_db =
  governance_rows :: "governance_row list"
  governance_blocks :: "u8 list \<Rightarrow> u32 option"

definition body_authorities :: "governance_db \<Rightarrow> AuthBodyConfig \<Rightarrow> u32 \<Rightarrow> AuthoritiesData" where
  "body_authorities db body block_number =
    (case get_governance_body_utxo (governance_rows db) (body_address body) (body_policy_id body) block_number of
       None \<Rightarrow> \<lparr>authorities = [], authorities_round = 0\<rparr>
     | Some utxo \<Rightarrow> (case decode_governance_datum (full_datum utxo) of
          Inl _ \<Rightarrow> \<lparr>authorities = [], authorities_round = 0\<rparr>
        | Inr d \<Rightarrow> d))"

definition query_federated_authority_data ::
  "governance_db \<Rightarrow> AuthBodyConfig \<Rightarrow> AuthBodyConfig \<Rightarrow> u8 list \<Rightarrow> FederatedAuthorityData option" where
  "query_federated_authority_data db council tc mc =
    map_option (\<lambda>n. \<lparr>council_authorities = body_authorities db council n,
      technical_committee_authorities = body_authorities db tc n, mc_block_hash = mc\<rparr>) (governance_blocks db mc)"

type_synonym authority_cache = "(u8 list \<times> AuthBodyConfig \<times> AuthBodyConfig) \<Rightarrow> FederatedAuthorityData option"

text \<open>The memoized query; which entries a bounded cache gives up when one is put is a parameter.\<close>

definition get_federated_authority_data ::
  "governance_db \<Rightarrow> (authority_cache \<Rightarrow> authority_cache) \<Rightarrow> AuthBodyConfig \<Rightarrow> AuthBodyConfig \<Rightarrow> u8 list
    \<Rightarrow> (authority_cache, unit, FederatedAuthorityData) st_result" where
  "get_federated_authority_data db evict council tc mc cache =
    (case cache (mc, council, tc) of
       Some cached \<Rightarrow> (Inr cached, cache)
     | None \<Rightarrow> (case query_federated_authority_data db council tc mc of
          None \<Rightarrow> (Inl (), cache)
        | Some result \<Rightarrow> (Inr result, (evict cache)((mc, council, tc) \<mapsto> result))))"

section \<open>The pallet\<close>

record ('a, 'm) membership =
  sorted_members :: "'m \<Rightarrow> 'a list"
  membership_reset :: "'a list \<Rightarrow> 'm \<Rightarrow> 'm"

record ('a, 'm) fao_config =
  CouncilMaxMembers :: nat
  TechnicalCommitteeMaxMembers :: nat
  CouncilMembership :: "('a, 'm) membership"
  TechnicalCommitteeMembership :: "('a, 'm) membership"
  decode_account :: "member_key \<Rightarrow> 'a option"

datatype 'a fao_event =
    CouncilMembersReset "'a list" "MainchainMember list"
  | TechnicalCommitteeMembersReset "'a list" "MainchainMember list"

datatype fao_error = EmptyMembers | DuplicatedMembers | FaoInherentAlreadyExecuted
datatype fao_failure = FaoBadOrigin | FaoError fao_error

record ('a, 'm) fao_state =
  MainChainCouncilAddress :: "u8 list"
  MainChainCouncilPolicyId :: "u8 list"
  MainChainTechnicalCommitteeAddress :: "u8 list"
  MainChainTechnicalCommitteePolicyId :: "u8 list"
  CouncilMainchainMembers :: "MainchainMember list"
  TechnicalCommitteeMainchainMembers :: "MainchainMember list"
  FaoInherentExecutedThisBlock :: bool
  council_membership :: 'm
  technical_committee_membership :: 'm
  fao_events :: "'a fao_event list"

datatype 'a fao_call =
    reset_members_call "('a \<times> MainchainMember) list" "('a \<times> MainchainMember) list"
  | other_fao_call

record fao_genesis =
  genesis_council_address :: "u8 list"
  genesis_council_policy_id :: "u8 list"
  genesis_technical_committee_address :: "u8 list"
  genesis_technical_committee_policy_id :: "u8 list"
  council_members_mainchain :: "MainchainMember list"
  technical_committee_members_mainchain :: "MainchainMember list"

text \<open>\<open>None\<close> is a panic.\<close>

definition fao_genesis_build :: "('a, 'm) fao_config \<Rightarrow> fao_genesis \<Rightarrow> ('a, 'm) fao_state \<Rightarrow> ('a, 'm) fao_state option" where
  "fao_genesis_build cfg g s =
    (if length (council_members_mainchain g) \<le> CouncilMaxMembers cfg
        \<and> length (technical_committee_members_mainchain g) \<le> TechnicalCommitteeMaxMembers cfg
     then Some (s\<lparr>MainChainCouncilAddress := genesis_council_address g, MainChainCouncilPolicyId := genesis_council_policy_id g,
       MainChainTechnicalCommitteeAddress := genesis_technical_committee_address g,
       MainChainTechnicalCommitteePolicyId := genesis_technical_committee_policy_id g,
       CouncilMainchainMembers := council_members_mainchain g,
       TechnicalCommitteeMainchainMembers := technical_committee_members_mainchain g\<rparr>)
     else None)"

definition fao_on_finalize :: "('a, 'm) fao_state \<Rightarrow> ('a, 'm) fao_state" where
  "fao_on_finalize s = s\<lparr>FaoInherentExecutedThisBlock := False\<rparr>"

definition has_duplicated_members :: "('a \<times> 'b) list \<Rightarrow> bool" where
  "has_duplicated_members members = (card (set (map fst members)) \<noteq> length members)"

definition change_council ::
  "('a, 'm) fao_config \<Rightarrow> 'a list \<Rightarrow> MainchainMember list \<Rightarrow> ('a, 'm) fao_state \<Rightarrow> ('a, 'm) fao_state" where
  "change_council cfg members mainchain s =
    (let members_have_changed = sorted_members (CouncilMembership cfg) (council_membership s) \<noteq> members;
         mainchain_have_changed = CouncilMainchainMembers s \<noteq> mainchain;
         s1 = (if members_have_changed
               then s\<lparr>council_membership := membership_reset (CouncilMembership cfg) members (council_membership s)\<rparr> else s);
         s2 = (if mainchain_have_changed then s1\<lparr>CouncilMainchainMembers := mainchain\<rparr> else s1)
     in if members_have_changed \<or> mainchain_have_changed
        then s2\<lparr>fao_events := fao_events s2 @ [CouncilMembersReset members mainchain]\<rparr> else s2)"

definition change_technical_committee ::
  "('a, 'm) fao_config \<Rightarrow> 'a list \<Rightarrow> MainchainMember list \<Rightarrow> ('a, 'm) fao_state \<Rightarrow> ('a, 'm) fao_state" where
  "change_technical_committee cfg members mainchain s =
    (let members_have_changed = sorted_members (TechnicalCommitteeMembership cfg) (technical_committee_membership s) \<noteq> members;
         mainchain_have_changed = TechnicalCommitteeMainchainMembers s \<noteq> mainchain;
         s1 = (if members_have_changed
               then s\<lparr>technical_committee_membership :=
                 membership_reset (TechnicalCommitteeMembership cfg) members (technical_committee_membership s)\<rparr> else s);
         s2 = (if mainchain_have_changed then s1\<lparr>TechnicalCommitteeMainchainMembers := mainchain\<rparr> else s1)
     in if members_have_changed \<or> mainchain_have_changed
        then s2\<lparr>fao_events := fao_events s2 @ [TechnicalCommitteeMembersReset members mainchain]\<rparr> else s2)"

definition reset_members ::
  "('a :: linorder, 'm) fao_config \<Rightarrow> bool \<Rightarrow> ('a \<times> MainchainMember) list \<times> ('a \<times> MainchainMember) list
    \<Rightarrow> (('a, 'm) fao_state, fao_failure, unit) st_result" where
  "reset_members cfg none_origin = (\<lambda>(council, tc) s.
    if \<not> none_origin then (Inl FaoBadOrigin, s)
    else if FaoInherentExecutedThisBlock s then (Inl (FaoError FaoInherentAlreadyExecuted), s)
    else let s1 = s\<lparr>FaoInherentExecutedThisBlock := True\<rparr>;
             council_pairs = sort_key fst council; tc_pairs = sort_key fst tc
         in if council_pairs = [] \<or> tc_pairs = [] then (Inr (), s1)
            else (Inr (), change_technical_committee cfg (map fst tc_pairs) (map snd tc_pairs)
                   (change_council cfg (map fst council_pairs) (map snd council_pairs) s1)))"

definition set_council_address :: "bool \<Rightarrow> u8 list \<Rightarrow> (('a, 'm) fao_state, fao_failure, unit) st_result" where
  "set_council_address root address s = (if root then (Inr (), s\<lparr>MainChainCouncilAddress := address\<rparr>) else (Inl FaoBadOrigin, s))"

definition set_technical_committee_address :: "bool \<Rightarrow> u8 list \<Rightarrow> (('a, 'm) fao_state, fao_failure, unit) st_result" where
  "set_technical_committee_address root address s =
    (if root then (Inr (), s\<lparr>MainChainTechnicalCommitteeAddress := address\<rparr>) else (Inl FaoBadOrigin, s))"

definition set_council_policy_id :: "bool \<Rightarrow> u8 list \<Rightarrow> (('a, 'm) fao_state, fao_failure, unit) st_result" where
  "set_council_policy_id root policy_id s = (if root then (Inr (), s\<lparr>MainChainCouncilPolicyId := policy_id\<rparr>) else (Inl FaoBadOrigin, s))"

definition set_technical_committee_policy_id :: "bool \<Rightarrow> u8 list \<Rightarrow> (('a, 'm) fao_state, fao_failure, unit) st_result" where
  "set_technical_committee_policy_id root policy_id s =
    (if root then (Inr (), s\<lparr>MainChainTechnicalCommitteePolicyId := policy_id\<rparr>) else (Inl FaoBadOrigin, s))"

section \<open>The inherent\<close>

type_synonym fao_data = "(fao_inherent_error, FederatedAuthorityData option) result"

fun decode_accounts :: "(member_key \<Rightarrow> 'a option) \<Rightarrow> (member_key \<times> MainchainMember) list \<Rightarrow> (fao_inherent_error, ('a \<times> MainchainMember) list) result" where
  "decode_accounts dec [] = Inr []"
| "decode_accounts dec ((key, member) # rest) =
    (case dec key of
       None \<Rightarrow> Inl DecodeFailed
     | Some account_id \<Rightarrow> bind_result (decode_accounts dec rest) (\<lambda>ms. Inr ((account_id, member) # ms)))"

definition decode_auth_members ::
  "(member_key \<Rightarrow> 'a option) \<Rightarrow> nat \<Rightarrow> (member_key \<times> MainchainMember) list \<Rightarrow> (fao_inherent_error, ('a \<times> MainchainMember) list) result" where
  "decode_auth_members dec max_members auth_data =
    bind_result (decode_accounts dec auth_data) (\<lambda>members.
      if length members \<le> max_members then Inr members else Inl TooManyMembers)"

definition fao_create_inherent :: "('a, 'm) fao_config \<Rightarrow> fao_data \<Rightarrow> 'a fao_call option" where
  "fao_create_inherent cfg data =
    (case data of
       Inr (Some d) \<Rightarrow>
        (case decode_auth_members (decode_account cfg) (CouncilMaxMembers cfg) (authorities (council_authorities d)) of
           Inl _ \<Rightarrow> None
         | Inr council \<Rightarrow>
          (case decode_auth_members (decode_account cfg) (TechnicalCommitteeMaxMembers cfg)
                  (authorities (technical_committee_authorities d)) of
             Inl _ \<Rightarrow> None
           | Inr tc \<Rightarrow>
              if council \<noteq> [] \<and> tc \<noteq> [] \<and> \<not> has_duplicated_members council \<and> \<not> has_duplicated_members tc
              then Some (reset_members_call council tc) else None))
     | _ \<Rightarrow> None)"

definition fao_is_inherent :: "'a fao_call \<Rightarrow> bool" where
  "fao_is_inherent call = (case call of reset_members_call _ _ \<Rightarrow> True | _ \<Rightarrow> False)"

definition fao_check_inherent :: "('a, 'm) fao_config \<Rightarrow> 'a fao_call \<Rightarrow> fao_data \<Rightarrow> (fao_inherent_error, unit) result" where
  "fao_check_inherent cfg call data =
    bind_result data (\<lambda>dopt. case dopt of
        None \<Rightarrow> Inr ()
      | Some d \<Rightarrow>
         bind_result (decode_auth_members (decode_account cfg) (CouncilMaxMembers cfg) (authorities (council_authorities d))) (\<lambda>council.
         bind_result (decode_auth_members (decode_account cfg) (TechnicalCommitteeMaxMembers cfg)
             (authorities (technical_committee_authorities d))) (\<lambda>tc.
         case call of
           reset_members_call c t \<Rightarrow>
             if council \<noteq> c then Inl CouncilMembersMismatch
             else if tc \<noteq> t then Inl TechnicalCommitteeMembersMismatch else Inr ()
         | _ \<Rightarrow> Inr ())))"

section \<open>Handlers of a change of members\<close>

text \<open>
  The runtime's membership pallets tell a handler of their changes, which passes
  them on to the body's collective and keeps its members' accounts alive.
\<close>

record ('a, 's) member_sink =
  sink_initialize :: "'a list \<Rightarrow> 's \<Rightarrow> 's"
  sink_change :: "'a list \<Rightarrow> 'a list \<Rightarrow> 'a list \<Rightarrow> 's \<Rightarrow> 's"
  inc_sufficients :: "'a \<Rightarrow> 's \<Rightarrow> 's"
  dec_sufficients :: "'a \<Rightarrow> 's \<Rightarrow> 's"

definition initialize_members :: "('a, 's) member_sink \<Rightarrow> 'a list \<Rightarrow> 's \<Rightarrow> 's" where
  "initialize_members p members s = fold (inc_sufficients p) members (sink_initialize p members s)"

definition change_members_sorted :: "('a, 's) member_sink \<Rightarrow> 'a list \<Rightarrow> 'a list \<Rightarrow> 'a list \<Rightarrow> 's \<Rightarrow> 's" where
  "change_members_sorted p incoming outgoing new s =
    fold (dec_sufficients p) outgoing (fold (inc_sufficients p) incoming (sink_change p incoming outgoing new s))"

definition default_vote :: "bool option \<Rightarrow> nat \<Rightarrow> nat \<Rightarrow> nat \<Rightarrow> bool" where
  "default_vote prime_vote yes_votes no_votes len = False"

section \<open>Datums\<close>

text \<open>The datum in which a body publishes its members, with the four leading bytes of a key's encoding.\<close>

definition governance_datum :: "u8 list \<Rightarrow> int \<Rightarrow> AuthoritiesData \<Rightarrow> plutus" where
  "governance_datum tag total_signers d = PlutusList
    [PlutusList [PlutusInteger total_signers,
       PlutusMap (map (\<lambda>(key, member). (PlutusByteString (tag @ member), [PlutusByteString key])) (authorities d))],
     PlutusInteger (uint (authorities_round d))]"

lemma decode_members_published:
  assumes "length tag = 4" "\<forall>(key, member) \<in> set ms. length key = 32 \<and> length member = 28"
    and "\<forall>(key, member) \<in> set ms. map_of m (PlutusByteString (tag @ member)) = Some [PlutusByteString key]"
  shows "decode_members m (map (\<lambda>x. PlutusByteString (tag @ snd x)) ms) = Inr ms"
  using assms by (induction ms) auto

lemma decode_round_uint: "decode_round (PlutusInteger (uint (r :: u8))) = Inr r"
proof -
  have "uint r < 2 ^ LENGTH(8)"
    by (rule unsigned_less)
  then show ?thesis
    by (simp add: decode_round_def)
qed

section \<open>The bodies\<close>

text \<open>
  Documented of the membership pallet: a reset to sorted members within its bound
  succeeds, and these are its members afterwards.
\<close>

definition keeps_members :: "('a :: linorder, 'm) membership \<Rightarrow> nat \<Rightarrow> bool" where
  "keeps_members mem n \<longleftrightarrow>
    (\<forall>l m. sorted l \<and> length l \<le> n \<longrightarrow> sorted_members mem (membership_reset mem l m) = l)"

definition lawful_bodies :: "('a :: linorder, 'm) fao_config \<Rightarrow> bool" where
  "lawful_bodies cfg \<longleftrightarrow> keeps_members (CouncilMembership cfg) (CouncilMaxMembers cfg)
     \<and> keeps_members (TechnicalCommitteeMembership cfg) (TechnicalCommitteeMaxMembers cfg)"

abbreviation council_of :: "('a, 'm) fao_config \<Rightarrow> ('a, 'm) fao_state \<Rightarrow> 'a list" where
  "council_of cfg s \<equiv> sorted_members (CouncilMembership cfg) (council_membership s)"

abbreviation technical_committee_of :: "('a, 'm) fao_config \<Rightarrow> ('a, 'm) fao_state \<Rightarrow> 'a list" where
  "technical_committee_of cfg s \<equiv> sorted_members (TechnicalCommitteeMembership cfg) (technical_committee_membership s)"

lemma change_council_effect:
  assumes "keeps_members (CouncilMembership cfg) (CouncilMaxMembers cfg)" "sorted members" "length members \<le> CouncilMaxMembers cfg"
  shows "council_of cfg (change_council cfg members mainchain s) = members"
    "CouncilMainchainMembers (change_council cfg members mainchain s) = mainchain"
    "technical_committee_membership (change_council cfg members mainchain s) = technical_committee_membership s"
    "TechnicalCommitteeMainchainMembers (change_council cfg members mainchain s) = TechnicalCommitteeMainchainMembers s"
  using assms by (simp_all add: change_council_def keeps_members_def Let_def)

lemma change_technical_committee_effect:
  assumes "keeps_members (TechnicalCommitteeMembership cfg) (TechnicalCommitteeMaxMembers cfg)" "sorted members"
    "length members \<le> TechnicalCommitteeMaxMembers cfg"
  shows "technical_committee_of cfg (change_technical_committee cfg members mainchain s) = members"
    "TechnicalCommitteeMainchainMembers (change_technical_committee cfg members mainchain s) = mainchain"
    "council_membership (change_technical_committee cfg members mainchain s) = council_membership s"
    "CouncilMainchainMembers (change_technical_committee cfg members mainchain s) = CouncilMainchainMembers s"
  using assms by (simp_all add: change_technical_committee_def keeps_members_def Let_def)

lemma change_flag [simp]:
  "FaoInherentExecutedThisBlock (change_council cfg members mainchain s) = FaoInherentExecutedThisBlock s"
  "FaoInherentExecutedThisBlock (change_technical_committee cfg members mainchain s) = FaoInherentExecutedThisBlock s"
  by (simp_all add: change_council_def change_technical_committee_def Let_def)

lemmas change_effects = change_council_effect change_technical_committee_effect

text \<open>What a call of \<open>reset_members\<close> that runs leaves behind.\<close>

lemma reset_members_effect:
  assumes "lawful_bodies cfg" "council \<noteq> []" "tc \<noteq> []" "length council \<le> CouncilMaxMembers cfg"
    "length tc \<le> TechnicalCommitteeMaxMembers cfg" "\<not> FaoInherentExecutedThisBlock s"
  obtains s' where "reset_members cfg True (council, tc) s = (Inr (), s')"
    "council_of cfg s' = map fst (sort_key fst council)" "CouncilMainchainMembers s' = map snd (sort_key fst council)"
    "technical_committee_of cfg s' = map fst (sort_key fst tc)" "TechnicalCommitteeMainchainMembers s' = map snd (sort_key fst tc)"
proof -
  let ?s1 = "s\<lparr>FaoInherentExecutedThisBlock := True\<rparr>"
  let ?s2 = "change_council cfg (map fst (sort_key fst council)) (map snd (sort_key fst council)) ?s1"
  let ?s' = "change_technical_committee cfg (map fst (sort_key fst tc)) (map snd (sort_key fst tc)) ?s2"
  have laws: "keeps_members (CouncilMembership cfg) (CouncilMaxMembers cfg)"
      "keeps_members (TechnicalCommitteeMembership cfg) (TechnicalCommitteeMaxMembers cfg)"
    using assms(1) by (simp_all add: lawful_bodies_def)
  have "sort_key fst council \<noteq> []" "sort_key fst tc \<noteq> []"
    using assms(2,3) by (metis set_empty set_sort)+
  then have "reset_members cfg True (council, tc) s = (Inr (), ?s')"
    using assms(6) by (simp add: reset_members_def Let_def)
  then show thesis
    using assms(4,5) laws by (intro that [of ?s']) (simp_all add: change_effects)
qed

interpretation fao_once: once_per_block "reset_members cfg none" FaoInherentExecutedThisBlock fao_on_finalize
  by unfold_locales (auto simp: reset_members_def fao_on_finalize_def Let_def split: if_splits)

interpretation fao_inherent: inherent_contract "fao_create_inherent cfg" "fao_check_inherent cfg" fao_is_inherent
proof unfold_locales
  fix d c
  show "fao_create_inherent cfg d = Some c \<Longrightarrow> fao_is_inherent c"
    by (auto simp: fao_create_inherent_def fao_is_inherent_def split: sum.splits option.splits if_splits)
  show "fao_create_inherent cfg d = Some c \<Longrightarrow> fao_check_inherent cfg c d = Inr ()"
    by (auto simp: fao_create_inherent_def fao_check_inherent_def split: sum.splits option.splits if_splits)
qed

text \<open>The members of an accepted call are those of the node's own data, where it has any.\<close>

lemma accepted_members:
  assumes "fao_check_inherent cfg (reset_members_call council tc) (Inr (Some d)) = Inr ()"
  shows "decode_auth_members (decode_account cfg) (CouncilMaxMembers cfg) (authorities (council_authorities d)) = Inr council"
    "decode_auth_members (decode_account cfg) (TechnicalCommitteeMaxMembers cfg) (authorities (technical_committee_authorities d)) = Inr tc"
  using assms by (auto simp: fao_check_inherent_def bind_result_Inr_iff split: if_splits)

lemma decode_auth_members_length: "decode_auth_members dec n ms = Inr out \<Longrightarrow> length out \<le> n"
  by (auto simp: decode_auth_members_def bind_result_Inr_iff split: if_splits)

lemma distinct_iff_not_duplicated: "\<not> has_duplicated_members ms \<longleftrightarrow> distinct (map fst ms)"
  by (simp add: has_duplicated_members_def distinct_card card_distinct) (metis card_distinct distinct_card length_map set_map)

section \<open>The cache and the reference counts\<close>

text \<open>A cache whose entries were queried, and that can only forget, is not visible.\<close>

definition faithful :: "governance_db \<Rightarrow> authority_cache \<Rightarrow> bool" where
  "faithful db cache \<longleftrightarrow> (\<forall>mc council tc d. cache (mc, council, tc) = Some d \<longrightarrow> query_federated_authority_data db council tc mc = Some d)"

lemma authority_cache_transparent:
  assumes "faithful db cache" "\<And>c. evict c \<subseteq>\<^sub>m c"
  shows "fst (get_federated_authority_data db evict council tc mc cache) = ok_or () (query_federated_authority_data db council tc mc)"
    and "faithful db (snd (get_federated_authority_data db evict council tc mc cache))"
proof -
  have kept: "evict cache k = Some d \<Longrightarrow> cache k = Some d" for k d
    using assms(2) [of cache] by (metis domI map_le_def)
  show "fst (get_federated_authority_data db evict council tc mc cache) = ok_or () (query_federated_authority_data db council tc mc)"
    using assms(1) by (auto simp: get_federated_authority_data_def faithful_def ok_or_def split: option.split)
  show "faithful db (snd (get_federated_authority_data db evict council tc mc cache))"
    using assms(1) kept by (auto simp: get_federated_authority_data_def faithful_def split: option.split)
qed

text \<open>
  Every member of a body holds one reference of its account, over every change of
  members the membership pallet reports with the difference of the two lists.
\<close>

lemma fold_inc:
  fixes suff :: "'s \<Rightarrow> 'a \<Rightarrow> nat"
  assumes "\<And>a s. suff (inc a s) = (suff s)(a := suff s a + 1)" "distinct as"
  shows "suff (fold inc as s) b = suff s b + of_bool (b \<in> set as)"
  using assms(2) by (induction "as" arbitrary: s) (auto simp: assms(1))

lemma fold_dec:
  fixes suff :: "'s \<Rightarrow> 'a \<Rightarrow> nat"
  assumes "\<And>a s. suff (dec a s) = (suff s)(a := suff s a - 1)" "distinct as"
  shows "suff (fold dec as s) b = suff s b - of_bool (b \<in> set as)"
  using assms(2) by (induction "as" arbitrary: s) (auto simp: assms(1))

lemma sufficients_follow_members:
  fixes suff :: "'s \<Rightarrow> 'a \<Rightarrow> nat"
  assumes "\<And>a s. suff (inc_sufficients p a s) = (suff s)(a := suff s a + 1)"
    and "\<And>a s. suff (dec_sufficients p a s) = (suff s)(a := suff s a - 1)"
    and "\<And>i out new s. suff (sink_change p i out new s) = suff s"
    and "distinct incoming" "distinct outgoing" "set incoming = set new - set old" "set outgoing = set old - set new"
    and "\<forall>a. suff s a = base a + of_bool (a \<in> set old)"
  shows "suff (change_members_sorted p incoming outgoing new s) a = base a + of_bool (a \<in> set new)"
  unfolding change_members_sorted_def
  by (subst fold_dec [where suff = suff and dec = "dec_sufficients p", OF assms(2,5)],
      subst fold_inc [where suff = suff and inc = "inc_sufficients p", OF assms(1,4)]) (auto simp: assms(3,6,7,8))

section \<open>Steps\<close>

text \<open>The pallet's calls with whatever arguments their types admit, and the end of a block.\<close>

inductive fao_step :: "('a :: linorder, 'm) fao_config \<Rightarrow> ('a, 'm) fao_state \<Rightarrow> ('a, 'm) fao_state \<Rightarrow> bool" for cfg where
  fao_reset: "length council \<le> CouncilMaxMembers cfg \<Longrightarrow> length tc \<le> TechnicalCommitteeMaxMembers cfg \<Longrightarrow>
    fao_step cfg s (snd (reset_members cfg none (council, tc) s))"
| fao_council_address: "fao_step cfg s (snd (set_council_address root a s))"
| fao_tc_address: "fao_step cfg s (snd (set_technical_committee_address root a s))"
| fao_council_policy: "fao_step cfg s (snd (set_council_policy_id root a s))"
| fao_tc_policy: "fao_step cfg s (snd (set_technical_committee_policy_id root a s))"
| fao_finalize: "fao_step cfg s (fao_on_finalize s)"

lemmas setters = set_council_address_def set_technical_committee_address_def set_council_policy_id_def
  set_technical_committee_policy_id_def

text \<open>A body: within its bound, not empty, in order, with one main chain member per account.\<close>

definition wf_body :: "nat \<Rightarrow> 'a :: linorder list \<Rightarrow> MainchainMember list \<Rightarrow> bool" where
  "wf_body n members mainchain \<longleftrightarrow>
    members \<noteq> [] \<and> length members \<le> n \<and> sorted members \<and> length mainchain = length members"

definition wf_bodies :: "('a :: linorder, 'm) fao_config \<Rightarrow> ('a, 'm) fao_state \<Rightarrow> bool" where
  "wf_bodies cfg s \<longleftrightarrow> wf_body (CouncilMaxMembers cfg) (council_of cfg s) (CouncilMainchainMembers s)
     \<and> wf_body (TechnicalCommitteeMaxMembers cfg) (technical_committee_of cfg s) (TechnicalCommitteeMainchainMembers s)"

lemma wf_bodies_frame [simp]:
  "wf_bodies cfg (s\<lparr>MainChainCouncilAddress := a\<rparr>) = wf_bodies cfg s"
  "wf_bodies cfg (s\<lparr>MainChainTechnicalCommitteeAddress := a\<rparr>) = wf_bodies cfg s"
  "wf_bodies cfg (s\<lparr>MainChainCouncilPolicyId := a\<rparr>) = wf_bodies cfg s"
  "wf_bodies cfg (s\<lparr>MainChainTechnicalCommitteePolicyId := a\<rparr>) = wf_bodies cfg s"
  "wf_bodies cfg (s\<lparr>FaoInherentExecutedThisBlock := b\<rparr>) = wf_bodies cfg s"
  by (simp_all add: wf_bodies_def)

lemma wf_body_sorted:
  "ms \<noteq> [] \<Longrightarrow> length ms \<le> n \<Longrightarrow> wf_body n (map fst (sort_key fst ms)) (map snd (sort_key fst ms))"
  using length_sort [of fst ms] by (auto simp: wf_body_def simp flip: length_greater_0_conv)

lemma reset_members_wf:
  assumes "lawful_bodies cfg" "wf_bodies cfg s" "length council \<le> CouncilMaxMembers cfg" "length tc \<le> TechnicalCommitteeMaxMembers cfg"
  shows "wf_bodies cfg (snd (reset_members cfg none (council, tc) s))"
proof (cases "none \<and> \<not> FaoInherentExecutedThisBlock s \<and> council \<noteq> [] \<and> tc \<noteq> []")
  case True
  then obtain s' where "reset_members cfg True (council, tc) s = (Inr (), s')"
    "council_of cfg s' = map fst (sort_key fst council)" "CouncilMainchainMembers s' = map snd (sort_key fst council)"
    "technical_committee_of cfg s' = map fst (sort_key fst tc)" "TechnicalCommitteeMainchainMembers s' = map snd (sort_key fst tc)"
    using reset_members_effect [OF assms(1) _ _ assms(3,4)] by metis
  with True assms(3,4) show ?thesis
    by (simp add: wf_bodies_def wf_body_sorted)
next
  case False
  then have "snd (reset_members cfg none (council, tc) s) \<in> {s, s\<lparr>FaoInherentExecutedThisBlock := True\<rparr>}"
    by (auto simp: reset_members_def)
  with assms(2) show ?thesis
    by (auto simp: wf_bodies_def)
qed

interpretation fb: transition_invariant "\<lambda>s. lawful_bodies cfg \<longrightarrow> wf_bodies cfg s" "fao_step cfg" "\<lambda>s. lawful_bodies cfg \<longrightarrow> wf_bodies cfg s"
proof unfold_locales
  fix s s'
  assume "lawful_bodies cfg \<longrightarrow> wf_bodies cfg s" "fao_step cfg s s'"
  from this(2,1) show "lawful_bodies cfg \<longrightarrow> wf_bodies cfg s'"
    by cases (auto simp: setters fao_on_finalize_def intro: reset_members_wf)
qed

section \<open>Properties\<close>

text \<open>
  C26: the members of the bodies follow the main chain.  The call a node creates
  from the data it observed is accepted by a node with the same data, and running
  it leaves each body with exactly the observed accounts, in order and without
  duplicates, each still paired with its main chain member.  Running it again in
  the next block with the same data changes nothing and deposits no event.
\<close>

theorem members_follow_observation:
  assumes "lawful_bodies cfg" "fao_create_inherent cfg (Inr (Some d)) = Some c" "\<not> FaoInherentExecutedThisBlock s"
  shows "fao_check_inherent cfg c (Inr (Some d)) = Inr () \<and>
    (\<exists>council tc s'. c = reset_members_call council tc
      \<and> decode_accounts (decode_account cfg) (authorities (council_authorities d)) = Inr council
      \<and> decode_accounts (decode_account cfg) (authorities (technical_committee_authorities d)) = Inr tc
      \<and> reset_members cfg True (council, tc) s = (Inr (), s')
      \<and> distinct (council_of cfg s') \<and> wf_bodies cfg s' \<and> distinct (technical_committee_of cfg s')
      \<and> mset (zip (council_of cfg s') (CouncilMainchainMembers s')) = mset council
      \<and> mset (zip (technical_committee_of cfg s') (TechnicalCommitteeMainchainMembers s')) = mset tc
      \<and> reset_members cfg True (council, tc) (fao_on_finalize s') = (Inr (), s'))"
proof -
  obtain council tc where c: "c = reset_members_call council tc" "council \<noteq> []" "tc \<noteq> []"
      "distinct (map fst council)" "distinct (map fst tc)"
    and dec: "decode_auth_members (decode_account cfg) (CouncilMaxMembers cfg) (authorities (council_authorities d)) = Inr council"
      "decode_auth_members (decode_account cfg) (TechnicalCommitteeMaxMembers cfg) (authorities (technical_committee_authorities d)) = Inr tc"
    using assms(2) by (auto simp: fao_create_inherent_def distinct_iff_not_duplicated split: sum.splits if_splits)
  have len: "length council \<le> CouncilMaxMembers cfg" "length tc \<le> TechnicalCommitteeMaxMembers cfg"
    using dec decode_auth_members_length by blast+
  obtain s' where s': "reset_members cfg True (council, tc) s = (Inr (), s')"
    "council_of cfg s' = map fst (sort_key fst council)" "CouncilMainchainMembers s' = map snd (sort_key fst council)"
    "technical_committee_of cfg s' = map fst (sort_key fst tc)" "TechnicalCommitteeMainchainMembers s' = map snd (sort_key fst tc)"
    by (rule reset_members_effect [OF assms(1) c(2,3) len assms(3)])
  have flag: "FaoInherentExecutedThisBlock s'"
    using fao_once.run_sets [OF s'(1)] by simp
  have "reset_members cfg True (council, tc) (fao_on_finalize s') = (Inr (), s')"
    using s'(2-5) flag
    by (simp add: reset_members_def fao_on_finalize_def change_council_def change_technical_committee_def Let_def)
  moreover have "distinct (map fst (sort_key fst council))" "distinct (map fst (sort_key fst tc))"
    using c(4,5) by (simp_all add: distinct_map)
  moreover have "wf_bodies cfg s'"
    using s'(2-5) c(2,3) len by (simp add: wf_bodies_def wf_body_sorted)
  ultimately show ?thesis
    using fao_inherent.created_passes [OF assms(2)] c(1) dec s'
    by (auto simp: decode_auth_members_def bind_result_Inr_iff zip_map_fst_snd split: if_splits)
qed


text \<open>
  the datum of a body is read back as it was published: for members with keys
  of 32 bytes and distinct main chain members of 28 bytes, decoding gives the
  members in the order of the datum and the round.
\<close>

lemma governance_datum_roundtrip:
  assumes "length tag = 4" "distinct (map snd (authorities d))"
    and "\<forall>(key, member) \<in> set (authorities d). length key = 32 \<and> length member = 28"
  shows "decode_governance_datum (governance_datum tag total_signers d) = Inr d"
proof -
  let ?m = "map (\<lambda>(key, member). (PlutusByteString (tag @ member), [PlutusByteString key])) (authorities d)"
  have "map_of ?m (PlutusByteString (tag @ member)) = Some [PlutusByteString key]" if "(key, member) \<in> set (authorities d)" for key member
  proof -
    have "distinct (map fst ?m)"
      using assms(2) by (auto simp: comp_def case_prod_beta distinct_map inj_on_def)
    then show ?thesis
      using that by (auto intro!: map_of_is_SomeI)
  qed
  then have "decode_members ?m (map (\<lambda>x. PlutusByteString (tag @ snd x)) (authorities d)) = Inr (authorities d)"
    using assms(1,3) by (intro decode_members_published) auto
  then show ?thesis
    by (simp add: decode_governance_datum_def governance_datum_def decode_round_uint comp_def case_prod_beta)
qed

text \<open>Bodies of numbered accounts, a council of two and a technical committee of one.\<close>

definition fx_membership :: "(nat, nat list) membership" where
  "fx_membership = \<lparr>sorted_members = id, membership_reset = (\<lambda>l _. l)\<rparr>"

definition fx_cfg :: "(nat, nat list) fao_config" where
  "fx_cfg = \<lparr>CouncilMaxMembers = 10, TechnicalCommitteeMaxMembers = 10, CouncilMembership = fx_membership,
     TechnicalCommitteeMembership = fx_membership, decode_account = (\<lambda>key. case key of [] \<Rightarrow> None | b # _ \<Rightarrow> Some (unat b))\<rparr>"

definition fx_data :: FederatedAuthorityData where
  "fx_data = \<lparr>council_authorities = \<lparr>authorities = [([7], [70]), ([3], [30])], authorities_round = 1\<rparr>,
     technical_committee_authorities = \<lparr>authorities = [([5], [50])], authorities_round = 1\<rparr>, mc_block_hash = [1]\<rparr>"

definition fx_state :: "(nat, nat list) fao_state" where
  "fx_state = \<lparr>MainChainCouncilAddress = [], MainChainCouncilPolicyId = [], MainChainTechnicalCommitteeAddress = [],
     MainChainTechnicalCommitteePolicyId = [], CouncilMainchainMembers = [[90]], TechnicalCommitteeMainchainMembers = [[80]],
     FaoInherentExecutedThisBlock = False, council_membership = [9], technical_committee_membership = [8], fao_events = []\<rparr>"

lemma fx_lawful: "lawful_bodies fx_cfg"
  by (simp add: lawful_bodies_def keeps_members_def fx_cfg_def fx_membership_def)

theorem members_follow_observation_witness:
  "\<exists>s'. reset_members fx_cfg True ([(7, [70]), (3, [30])], [(5, [50])]) fx_state = (Inr (), s')
    \<and> mset (zip (council_of fx_cfg s') (CouncilMainchainMembers s')) = {#(3, [30]), (7, [70])#}"
proof -
  have c: "fao_create_inherent fx_cfg (Inr (Some fx_data)) = Some (reset_members_call [(7, [70]), (3, [30])] [(5, [50])])"
    by (simp add: fao_create_inherent_def fx_cfg_def fx_data_def decode_auth_members_def has_duplicated_members_def)
  have "\<not> FaoInherentExecutedThisBlock fx_state"
    by (simp add: fx_state_def)
  then obtain s' where "reset_members fx_cfg True ([(7, [70]), (3, [30])], [(5, [50])]) fx_state = (Inr (), s')"
    "mset (zip (council_of fx_cfg s') (CouncilMainchainMembers s')) = mset [(7, [70]), (3, [30])]"
    using members_follow_observation [OF fx_lawful c] by blast
  then show ?thesis
    by (auto simp: add_mset_commute)
qed


lemma governance_datum_roundtrip_example:
  "decode_governance_datum (governance_datum [0, 0, 0, 0] 1 \<lparr>authorities = [(replicate 32 7, replicate 28 9)], authorities_round = 2\<rparr>)
    = Inr \<lparr>authorities = [(replicate 32 7, replicate 28 9)], authorities_round = 2\<rparr>"
  by (rule governance_datum_roundtrip) simp_all

end
