(* ===== verification/Committee_Selection.thy ===== *)
theory Committee_Selection
  imports Prelude "HOL-Library.Product_Lexorder" "HOL-Library.List_Lexorder" "HOL-Library.Multiset"
begin

text \<open>
  The selection of committees (\<open>partner-chains/toolkit/committee-selection\<close>): weighted
  random selection, the two versions of Ariadne (\<open>selection/src\<close>), the validation of
  candidates and the seed (\<open>authority-selection-inherents/src\<close>), and the runtime's
  choice of the D-parameter from the system parameters pallet.

  Weights are natural numbers, with the wrap-around of 128-bit arithmetic written
  out.  The random generator, the shuffle, the signature schemes and the encoding of
  the signed message are parameters.  A panic is \<open>None\<close>.
\<close>

section \<open>Random selection\<close>

record 'g rng_lib =
  from_seed :: "u8 list \<Rightarrow> 'g"
  get_seed :: "'g \<Rightarrow> u8 list"
  random_range :: "nat \<Rightarrow> 'g \<Rightarrow> nat \<times> 'g"
  shuffle_order :: "nat \<Rightarrow> 'g \<Rightarrow> nat list"

text \<open>
  Documented of the generator: a number drawn below a positive bound is below it,
  and shuffling rearranges the positions of a list.
\<close>

definition rng_ok :: "'g rng_lib \<Rightarrow> bool" where
  "rng_ok rng \<longleftrightarrow> (\<forall>n g. 0 < n \<longrightarrow> fst (random_range rng n g) < n)
    \<and> (\<forall>n g. mset (shuffle_order rng n g) = mset [0..<n])"

definition u128_sum :: "nat list \<Rightarrow> nat" where
  "u128_sum ws = sum_list ws mod 2 ^ 128"

fun weight_index :: "('a \<times> nat) list \<Rightarrow> nat \<Rightarrow> nat \<Rightarrow> 'a option" where
  "weight_index [] cumulative r = None"
| "weight_index ((c, w) # cs) cumulative r =
    (let cumulative' = (cumulative + w) mod 2 ^ 128
     in if cumulative' > r then Some c else weight_index cs cumulative' r)"

definition select_with_weight :: "'g rng_lib \<Rightarrow> ('a \<times> nat) list \<Rightarrow> nat \<Rightarrow> 'g \<Rightarrow> ('a \<times> 'g) option" where
  "select_with_weight rng candidates total_weight g =
    (if total_weight = 0 then None
     else let (r, g') = random_range rng total_weight g in map_option (\<lambda>c. (c, g')) (weight_index candidates 0 r))"

primrec select_loop :: "'g rng_lib \<Rightarrow> ('a \<times> nat) list \<Rightarrow> nat \<Rightarrow> nat \<Rightarrow> 'g \<Rightarrow> 'a list option" where
  "select_loop rng candidates total_weight 0 g = Some []"
| "select_loop rng candidates total_weight (Suc k) g =
    (if candidates = [] then Some []
     else Option.bind (select_with_weight rng candidates total_weight g) (\<lambda>(c, g').
       map_option (\<lambda>cs. c # cs) (select_loop rng candidates total_weight k g')))"

definition weighted_random_select :: "'g rng_lib \<Rightarrow> ('a \<times> nat) list \<Rightarrow> u8 list \<Rightarrow> nat \<Rightarrow> 'a list option option" where
  "weighted_random_select rng candidates seed n =
    map_option (\<lambda>committee. if n \<le> length committee then Some committee else None)
      (select_loop rng candidates (u128_sum (map snd candidates)) n (from_seed rng seed))"

section \<open>Ariadne\<close>

definition trustless_candidates_with_weights :: "('a \<times> nat) list \<Rightarrow> nat \<Rightarrow> nat \<Rightarrow> ('a \<times> nat) list" where
  "trustless_candidates_with_weights trustless num_trustless permissioned_count =
    (let weight_factor = if permissioned_count > 0 then (num_trustless * permissioned_count) mod 2 ^ 128 else 1
     in map (\<lambda>(c, w). (c, (w * weight_factor) mod 2 ^ 128)) trustless)"

definition permissioned_candidates_with_weights :: "'a list \<Rightarrow> nat \<Rightarrow> nat \<Rightarrow> nat \<Rightarrow> ('a \<times> nat) list" where
  "permissioned_candidates_with_weights permissioned num_permissioned num_trustless total_stake =
    (let weight = if total_stake > 0 \<and> num_trustless > 0 then (num_permissioned * total_stake) mod 2 ^ 128 else 1
     in map (\<lambda>c. (c, weight)) permissioned)"

definition ariadne_select ::
  "'g rng_lib \<Rightarrow> nat \<Rightarrow> nat \<Rightarrow> ('a :: linorder \<times> nat) list \<Rightarrow> 'a list \<Rightarrow> u8 list \<Rightarrow> 'a list option option" where
  "ariadne_select rng num_trustless num_permissioned trustless permissioned seed =
    (let committee_size = (num_trustless + num_permissioned) mod 2 ^ 16;
         total_stake = u128_sum (map snd trustless)
     in weighted_random_select rng
          (sort (trustless_candidates_with_weights trustless num_trustless (length permissioned)
            @ permissioned_candidates_with_weights permissioned num_permissioned num_trustless total_stake))
          seed committee_size)"

section \<open>Ariadne with guaranteed seats\<close>

text \<open>
  Dividing by a threshold of zero panics, as does a count that does not fit the 32-bit
  \<open>usize\<close> of the runtime.
\<close>

fun guarantee_loop :: "nat \<Rightarrow> ('a \<times> nat) list \<Rightarrow> ('a list \<times> ('a \<times> nat) list) option" where
  "guarantee_loop threshold [] = Some ([], [])"
| "guarantee_loop threshold ((c, w) # cs) =
    (if threshold = 0 \<or> w div threshold \<ge> 2 ^ 32 then None
     else map_option (\<lambda>(selected, remaining).
         (replicate (w div threshold) c @ selected,
          if w mod threshold > 0 then (c, w mod threshold) # remaining else remaining))
       (guarantee_loop threshold cs))"

definition select_guaranteed :: "('a \<times> nat) list \<Rightarrow> nat \<Rightarrow> ('a list \<times> ('a \<times> nat) list) option" where
  "select_guaranteed weighted n =
    guarantee_loop (u128_sum (map snd weighted))
      (map (\<lambda>(c, w). (c, (w * n) mod 2 ^ 128)) (filter (\<lambda>(_, w). w > 0) weighted))"

definition select_remaining :: "'g rng_lib \<Rightarrow> ('a \<times> nat) list \<Rightarrow> nat \<Rightarrow> 'g \<Rightarrow> 'a list option" where
  "select_remaining rng weighted n g =
    map_option (\<lambda>committee. case committee of None \<Rightarrow> [] | Some c \<Rightarrow> c) (weighted_random_select rng weighted (get_seed rng g) n)"

definition weighted_with_guaranteed_assignment :: "'g rng_lib \<Rightarrow> ('a :: linorder \<times> nat) list \<Rightarrow> nat \<Rightarrow> 'g \<Rightarrow> 'a list option" where
  "weighted_with_guaranteed_assignment rng candidates n g =
    (if candidates = [] \<or> n = 0 then Some []
     else Option.bind (select_guaranteed (sort candidates) n) (\<lambda>(selected, remaining).
       if length selected \<ge> 2 ^ 16 then None
       else map_option (\<lambda>rest. selected @ rest)
         (select_remaining rng remaining ((n + 2 ^ 16 - length selected) mod 2 ^ 16) g)))"

definition ariadne_v2_select ::
  "'g rng_lib \<Rightarrow> nat \<Rightarrow> nat \<Rightarrow> ('a :: linorder \<times> nat) list \<Rightarrow> 'a list \<Rightarrow> u8 list \<Rightarrow> 'a list option option" where
  "ariadne_v2_select rng registered_seats permissioned_seats registered permissioned seed =
    (let seats_total = (permissioned_seats + registered_seats) mod 2 ^ 16;
         g = from_seed rng seed;
         permissioned = map (\<lambda>c. (c, 1)) permissioned
     in map_option (\<lambda>selected.
          let shuffled = map ((!) selected) (shuffle_order rng (length selected) g)
          in if selected = [] \<and> seats_total > 0 then None else Some shuffled)
        (if registered \<noteq> [] \<and> permissioned \<noteq> []
         then Option.bind (weighted_with_guaranteed_assignment rng registered registered_seats g) (\<lambda>r.
           map_option (\<lambda>p. r @ p) (weighted_with_guaranteed_assignment rng permissioned permissioned_seats g))
         else if registered = [] then weighted_with_guaranteed_assignment rng permissioned seats_total g
         else weighted_with_guaranteed_assignment rng registered seats_total g))"

section \<open>Candidates\<close>

text \<open>The keys of a candidate are bytes, each under an identifier of four bytes.\<close>

type_synonym CandidateKeys = "(u8 list \<times> u8 list) list"

record candidate_utxo =
  utxo_tx_hash :: "u8 list"
  utxo_index :: u16

record CandidateUtxoInfo =
  utxo_id :: candidate_utxo
  utxo_epoch_number :: u32
  utxo_block_number :: u32
  utxo_slot_number :: u64
  tx_index_within_block :: u32

definition utxo_ordering_key :: "CandidateUtxoInfo \<Rightarrow> u32 \<times> u32 \<times> u16" where
  "utxo_ordering_key i = (utxo_block_number i, tx_index_within_block i, utxo_index (utxo_id i))"

record CandidateRegistrationData =
  registration_utxo :: candidate_utxo
  sidechain_signature :: "u8 list"
  mainchain_signature :: "u8 list"
  cross_chain_signature :: "u8 list"
  sidechain_pub_key :: "u8 list"
  cross_chain_pub_key :: "u8 list"
  utxo_info :: CandidateUtxoInfo
  tx_inputs :: "candidate_utxo list"
  registration_keys :: CandidateKeys

record CandidateRegistrations =
  stake_pool_public_key :: "u8 list"
  registrations :: "CandidateRegistrationData list"
  stake_delegation :: "u64 option"

record PermissionedCandidateData =
  sidechain_public_key :: "u8 list"
  candidate_keys :: CandidateKeys

type_synonym ('i, 'k) CandidateWithStake = "u8 list \<times> u64 \<times> 'i \<times> 'k"

datatype ('i, 'k) Candidate =
    Permissioned 'i 'k
  | Registered "u8 list" u64 'i 'k

text \<open>
  The derived order of the source: permissioned before registered candidates, and
  then by the fields in the order of their declaration.
\<close>

fun candidate_key :: "('i, 'k) Candidate \<Rightarrow> bool \<times> u8 list \<times> u64 \<times> 'i \<times> 'k" where
  "candidate_key (Permissioned i k) = (False, [], 0, i, k)"
| "candidate_key (Registered pool stake i k) = (True, pool, stake, i, k)"

lemma candidate_key_inject [simp]: "candidate_key a = candidate_key b \<longleftrightarrow> a = b"
  by (cases a; cases b) auto

instantiation Candidate :: (linorder, linorder) linorder
begin

definition less_eq_Candidate :: "('a, 'b) Candidate \<Rightarrow> ('a, 'b) Candidate \<Rightarrow> bool" where
  "less_eq_Candidate a b \<longleftrightarrow> candidate_key a \<le> candidate_key b"

definition less_Candidate :: "('a, 'b) Candidate \<Rightarrow> ('a, 'b) Candidate \<Rightarrow> bool" where
  "less_Candidate a b \<longleftrightarrow> candidate_key a < candidate_key b"

instance
proof
  fix a b c :: "('a, 'b) Candidate"
  show "a < b \<longleftrightarrow> a \<le> b \<and> \<not> b \<le> a" by (auto simp: less_Candidate_def less_eq_Candidate_def less_le_not_le)
  show "a \<le> a" by (simp add: less_eq_Candidate_def)
  show "a \<le> b \<Longrightarrow> b \<le> c \<Longrightarrow> a \<le> c" by (auto simp: less_eq_Candidate_def intro: order_trans)
  show "a \<le> b \<Longrightarrow> b \<le> a \<Longrightarrow> a = b" by (auto simp: less_eq_Candidate_def dest: antisym)
  show "a \<le> b \<or> b \<le> a" by (auto simp: less_eq_Candidate_def)
qed

end

datatype ('i, 'k) CommitteeMember = PermissionedMember 'i 'k | RegisteredMember 'i 'k "u8 list"

fun member_of_candidate :: "('i, 'k) Candidate \<Rightarrow> ('i, 'k) CommitteeMember" where
  "member_of_candidate (Permissioned i k) = PermissionedMember i k"
| "member_of_candidate (Registered pool stake i k) = RegisteredMember i k pool"

fun authority_id :: "('i, 'k) CommitteeMember \<Rightarrow> 'i" where
  "authority_id (PermissionedMember i k) = i"
| "authority_id (RegisteredMember i k _) = i"

fun authority_keys :: "('i, 'k) CommitteeMember \<Rightarrow> 'k" where
  "authority_keys (PermissionedMember i k) = k"
| "authority_keys (RegisteredMember i k _) = k"

record ('i, 'k) candidate_crypto =
  maybe_from :: "CandidateKeys \<Rightarrow> 'k option"
  account_of :: "u8 list \<Rightarrow> 'i"
  signed_message :: "candidate_utxo \<Rightarrow> u8 list \<Rightarrow> candidate_utxo \<Rightarrow> u8 list"
  ed25519_verify :: "u8 list \<Rightarrow> u8 list \<Rightarrow> u8 list \<Rightarrow> bool"
  ecdsa_verify :: "u8 list \<Rightarrow> u8 list \<Rightarrow> u8 list \<Rightarrow> bool"

datatype StakeError = InvalidStake | UnknownStake

datatype RegistrationDataError =
    InvalidMainchainSignature
  | InvalidSidechainSignature
  | InvalidTxInput
  | InvalidMainchainPubKey
  | RegInvalidSidechainPubKey
  | RegInvalidAccountKeys

datatype PermissionedCandidateDataError = PermInvalidSidechainPubKey | PermInvalidAccountKeys

definition validate_permissioned_candidate_data ::
  "('i, 'k) candidate_crypto \<Rightarrow> PermissionedCandidateData \<Rightarrow> (PermissionedCandidateDataError, u8 list \<times> 'k) result" where
  "validate_permissioned_candidate_data cr c =
    (if length (sidechain_public_key c) \<noteq> 33 then Inl PermInvalidSidechainPubKey
     else bind_result (ok_or PermInvalidAccountKeys (maybe_from cr (candidate_keys c))) (\<lambda>keys.
       Inr (sidechain_public_key c, keys)))"

definition verify_stake_pool_signature ::
  "('i, 'k) candidate_crypto \<Rightarrow> u8 list \<Rightarrow> CandidateRegistrationData \<Rightarrow> u8 list \<Rightarrow> (RegistrationDataError, unit) result" where
  "verify_stake_pool_signature cr pool d msg =
    (if length (mainchain_signature d) = 64 \<and> ed25519_verify cr (mainchain_signature d) msg pool
     then Inr () else Inl InvalidMainchainSignature)"

definition verify_sidechain_signature ::
  "('i, 'k) candidate_crypto \<Rightarrow> u8 list \<Rightarrow> u8 list \<Rightarrow> u8 list \<Rightarrow> (RegistrationDataError, unit) result" where
  "verify_sidechain_signature cr pub_key signature msg =
    (if length signature = 64 \<and> (\<exists>v \<in> set [27, 28]. ecdsa_verify cr (signature @ [v]) msg pub_key)
     then Inr () else Inl InvalidSidechainSignature)"

definition verify_tx_inputs :: "CandidateRegistrationData \<Rightarrow> (RegistrationDataError, unit) result" where
  "verify_tx_inputs d = (if registration_utxo d \<in> set (tx_inputs d) then Inr () else Inl InvalidTxInput)"

definition validate_registration_data ::
  "('i, 'k) candidate_crypto \<Rightarrow> u8 list \<Rightarrow> CandidateRegistrationData \<Rightarrow> candidate_utxo \<Rightarrow> (RegistrationDataError, u8 list \<times> 'k) result" where
  "validate_registration_data cr pool d genesis_utxo =
    bind_result (ok_or RegInvalidAccountKeys (maybe_from cr (registration_keys d))) (\<lambda>keys.
    if length (sidechain_pub_key d) \<noteq> 33 then Inl RegInvalidSidechainPubKey
    else let msg = signed_message cr genesis_utxo (sidechain_pub_key d) (registration_utxo d) in
      bind_result (verify_stake_pool_signature cr pool d msg) (\<lambda>_.
      bind_result (verify_sidechain_signature cr (sidechain_pub_key d) (sidechain_signature d) msg) (\<lambda>_.
      bind_result (verify_tx_inputs d) (\<lambda>_. Inr (sidechain_pub_key d, keys)))))"

definition validate_stake :: "u64 option \<Rightarrow> (StakeError, u64) result" where
  "validate_stake stake = (case stake of None \<Rightarrow> Inl UnknownStake | Some s \<Rightarrow> if s = 0 then Inl InvalidStake else Inr s)"

text \<open>The last of the greatest, as the library's \<open>max_by_key\<close> returns it.\<close>

fun max_by_key :: "('a \<Rightarrow> 'b :: linorder) \<Rightarrow> 'a list \<Rightarrow> 'a option" where
  "max_by_key f [] = None"
| "max_by_key f (x # xs) = Some (fold (\<lambda>y m. if f y \<ge> f m then y else m) xs x)"

definition select_latest_valid_candidate ::
  "('i, 'k) candidate_crypto \<Rightarrow> CandidateRegistrations \<Rightarrow> candidate_utxo \<Rightarrow> ('i, 'k) CandidateWithStake option" where
  "select_latest_valid_candidate cr c genesis_utxo =
    (case validate_stake (stake_delegation c) of
       Inl _ \<Rightarrow> None
     | Inr stake \<Rightarrow>
        map_option (\<lambda>((pub_key, keys), _). (stake_pool_public_key c, stake, account_of cr pub_key, keys))
          (max_by_key (\<lambda>(_, info). utxo_ordering_key info)
            (List.map_filter (\<lambda>d. case validate_registration_data cr (stake_pool_public_key c) d genesis_utxo of
                Inr candidate \<Rightarrow> Some (candidate, utxo_info d) | Inl _ \<Rightarrow> None) (registrations c))))"

definition filter_trustless_candidates_registrations ::
  "('i, 'k) candidate_crypto \<Rightarrow> CandidateRegistrations list \<Rightarrow> candidate_utxo \<Rightarrow> (('i, 'k) Candidate \<times> nat) list" where
  "filter_trustless_candidates_registrations cr cs genesis_utxo =
    map (\<lambda>(pool, stake, i, k). (Registered pool stake i k, unat stake))
      (List.map_filter (\<lambda>c. select_latest_valid_candidate cr c genesis_utxo) cs)"

definition filter_invalid_permissioned_candidates ::
  "('i, 'k) candidate_crypto \<Rightarrow> PermissionedCandidateData list \<Rightarrow> ('i, 'k) Candidate list" where
  "filter_invalid_permissioned_candidates cr cs =
    List.map_filter (\<lambda>c. case validate_permissioned_candidate_data cr c of
        Inr (key, keys) \<Rightarrow> Some (Permissioned (account_of cr key) keys) | Inl _ \<Rightarrow> None) cs"

section \<open>Selecting the committee of an epoch\<close>

definition as_array :: "u8 list \<Rightarrow> u8 list" where
  "as_array nonce = take 32 (nonce @ replicate 32 0)"

fun from_big_endian :: "u8 list \<Rightarrow> nat" where
  "from_big_endian [] = 0"
| "from_big_endian (b # bs) = unat b * 256 ^ length bs + from_big_endian bs"

primrec to_big_endian :: "nat \<Rightarrow> nat \<Rightarrow> u8 list" where
  "to_big_endian 0 n = []"
| "to_big_endian (Suc k) n = word_of_nat (n div 256 ^ k) # to_big_endian k (n mod 256 ^ k)"

definition seed_from_nonce_and_sc_epoch :: "u8 list \<Rightarrow> u64 \<Rightarrow> u8 list" where
  "seed_from_nonce_and_sc_epoch nonce epoch =
    to_big_endian 32 ((from_big_endian (as_array nonce) + unat epoch) mod 2 ^ 256)"

record AuthoritySelectionInputs =
  num_permissioned_candidates :: u16
  num_registered_candidates :: u16
  permissioned_candidates :: "PermissionedCandidateData list"
  registered_candidates :: "CandidateRegistrations list"
  epoch_nonce :: "u8 list"

definition select_candidates ::
  "'g rng_lib \<Rightarrow> ('i :: linorder, 'k :: linorder) candidate_crypto \<Rightarrow> candidate_utxo \<Rightarrow> AuthoritySelectionInputs \<Rightarrow> u64
    \<Rightarrow> ('i, 'k) CommitteeMember list option option" where
  "select_candidates rng cr genesis_utxo input sidechain_epoch =
    map_option (map_option (map member_of_candidate))
      (ariadne_v2_select rng (unat (num_registered_candidates input)) (unat (num_permissioned_candidates input))
        (filter_trustless_candidates_registrations cr (registered_candidates input) genesis_utxo)
        (filter_invalid_permissioned_candidates cr (permissioned_candidates input))
        (seed_from_nonce_and_sc_epoch (epoch_nonce input) sidechain_epoch))"

definition select_authorities ::
  "'g rng_lib \<Rightarrow> ('i :: linorder, 'k :: linorder) candidate_crypto \<Rightarrow> nat \<Rightarrow> candidate_utxo \<Rightarrow> AuthoritySelectionInputs \<Rightarrow> u64
    \<Rightarrow> ('i, 'k) CommitteeMember list option option" where
  "select_authorities rng cr max_authorities genesis_utxo input sidechain_epoch =
    map_option (map_option (take max_authorities)) (select_candidates rng cr genesis_utxo input sidechain_epoch)"

definition MaxAuthorities :: nat where "MaxAuthorities = 10000"

text \<open>The runtime takes the D-parameter from the system parameters pallet.\<close>

definition select_authorities_optionally_overriding ::
  "'g rng_lib \<Rightarrow> ('i :: linorder, 'k :: linorder) candidate_crypto \<Rightarrow> u16 \<times> u16 \<Rightarrow> candidate_utxo \<Rightarrow> AuthoritySelectionInputs \<Rightarrow> u64
    \<Rightarrow> ('i, 'k) CommitteeMember list option option" where
  "select_authorities_optionally_overriding rng cr d_parameter genesis_utxo input =
    select_authorities rng cr MaxAuthorities genesis_utxo
      (input\<lparr>num_permissioned_candidates := fst d_parameter, num_registered_candidates := snd d_parameter\<rparr>)"

section \<open>Guaranteed seats\<close>

lemma weight_index_in:
  "cumulative \<le> r \<Longrightarrow> r < cumulative + sum_list (map snd cs) \<Longrightarrow> cumulative + sum_list (map snd cs) < 2 ^ 128
    \<Longrightarrow> \<exists>c \<in> fst ` set cs. weight_index cs cumulative r = Some c"
proof (induction cs cumulative r rule: weight_index.induct)
  case (2 c w cs cumulative r)
  have [simp]: "(cumulative + w) mod 2 ^ 128 = cumulative + w"
    using "2.prems"(3) by simp
  show ?case
    using 2 by (cases "r < cumulative + w") (auto simp: Let_def add.assoc)
qed simp

lemma select_loop_size:
  assumes "rng_ok rng" "0 < sum_list (map snd cs)" "sum_list (map snd cs) < 2 ^ 128"
  shows "\<exists>xs. select_loop rng cs (sum_list (map snd cs)) k g = Some xs \<and> length xs = k \<and> set xs \<subseteq> fst ` set cs"
proof (induction k arbitrary: g)
  case (Suc k)
  obtain r g' where r: "random_range rng (sum_list (map snd cs)) g = (r, g')" by fastforce
  have "r < sum_list (map snd cs)"
    using assms(1,2) r unfolding rng_ok_def by (metis fst_conv)
  then obtain c where c: "c \<in> fst ` set cs" "weight_index cs 0 r = Some c"
    using weight_index_in [of 0 r cs] assms(3) by auto
  have "select_with_weight rng cs (sum_list (map snd cs)) g = Some (c, g')"
    using assms(2) r c(2) unfolding select_with_weight_def by (metis (mono_tags, lifting) case_prod_conv not_gr_zero option.map(2))
  moreover obtain xs where "select_loop rng cs (sum_list (map snd cs)) k g' = Some xs" "length xs = k" "set xs \<subseteq> fst ` set cs"
    using Suc.IH by blast
  moreover have "cs \<noteq> []" using assms(2) by auto
  ultimately show ?case using c(1) by simp
qed simp

lemma guarantee_loop_spec:
  assumes "0 < t" and "\<forall>(c, w) \<in> set cs. w div t < 2 ^ 32"
  shows "\<exists>selected remaining. guarantee_loop t cs = Some (selected, remaining)
    \<and> length selected * t + sum_list (map snd remaining) = sum_list (map snd cs)
    \<and> set selected \<subseteq> fst ` set cs \<and> fst ` set remaining \<subseteq> fst ` set cs
    \<and> (\<forall>(c, w) \<in> set cs. w div t \<le> count_list selected c)"
  using assms(2)
proof (induction cs)
  case (Cons a cs)
  obtain c w where a: "a = (c, w)" by fastforce
  from Cons obtain selected remaining where
    IH: "guarantee_loop t cs = Some (selected, remaining)"
      "length selected * t + sum_list (map snd remaining) = sum_list (map snd cs)"
      "set selected \<subseteq> fst ` set cs" "fst ` set remaining \<subseteq> fst ` set cs"
      "\<forall>(c, w) \<in> set cs. w div t \<le> count_list selected c"
    by auto
  have "count_list (replicate k c @ selected) d \<ge> count_list selected d" for k d by simp
  moreover have "count_list (replicate k c) c = k" for k by (induction k) auto
  moreover have "w div t * t + w mod t = w" by simp
  ultimately show ?case
    using IH Cons.prems \<open>0 < t\<close> a
    by (auto simp: add_mult_distrib add.assoc intro: order_trans split: if_splits)
qed simp

text \<open>What the code promises of the seats it hands out.\<close>

definition fair_share :: "nat \<Rightarrow> ('a \<times> nat) list \<Rightarrow> 'a list \<Rightarrow> bool" where
  "fair_share n candidates committee \<longleftrightarrow> length committee = n \<and> set committee \<subseteq> fst ` set candidates
    \<and> (\<forall>(c, w) \<in> set candidates. w * n div sum_list (map snd candidates) \<le> count_list committee c)"

lemma scaled_sum:
  "sum_list (map snd (map (\<lambda>(c, w). (c, w * n)) (filter (\<lambda>(_, w). w > 0) cs))) = sum_list (map snd cs) * (n :: nat)"
  by (induction cs) (auto simp: add_mult_distrib)

lemma member_le_sum: "(c, w) \<in> set cs \<Longrightarrow> w \<le> sum_list (map snd (cs :: ('a \<times> nat) list))"
  by (force intro: member_le_sum_list)

lemma select_guaranteed_spec:
  assumes "0 < n" "n < 2 ^ 16" "0 < sum_list (map snd cs)" "sum_list (map snd cs) * n < 2 ^ 128"
  shows "\<exists>selected remaining. select_guaranteed cs n = Some (selected, remaining)
    \<and> length selected * sum_list (map snd cs) + sum_list (map snd remaining) = sum_list (map snd cs) * n
    \<and> set selected \<subseteq> fst ` set cs \<and> fst ` set remaining \<subseteq> fst ` set cs
    \<and> (\<forall>(c, w) \<in> set cs. w * n div sum_list (map snd cs) \<le> count_list selected c)"
proof -
  define W where "W = sum_list (map snd cs)"
  define scaled where "scaled = map (\<lambda>(c, w). (c, w * n)) (filter (\<lambda>(_, w). w > 0) cs)"
  have "W \<le> W * n" using assms(1) by simp
  then have W: "W < 2 ^ 128" using assms(4) unfolding W_def by linarith
  have le: "w * n \<le> W * n" if "(c, w) \<in> set cs" for c w
    using member_le_sum [OF that] by (simp add: W_def)
  then have "w * n < 2 ^ 128" if "(c, w) \<in> set cs" for c w
    using that assms(4) unfolding W_def by (meson le_less_trans)
  then have "map (\<lambda>(c, w). (c, (w * n) mod 2 ^ 128)) (filter (\<lambda>(_, w). w > 0) cs) = scaled"
    unfolding scaled_def by (auto intro!: map_cong)
  then have run: "select_guaranteed cs n = guarantee_loop W scaled"
    using W by (simp add: select_guaranteed_def u128_sum_def W_def)
  have "v div W < 2 ^ 32" if "(c, v) \<in> set scaled" for c v
  proof -
    have "v \<le> n * W" using that le by (auto simp: scaled_def mult.commute)
    then have "v div W \<le> n * W div W" by (rule div_le_mono)
    then show ?thesis using assms(2,3) by (simp add: W_def)
  qed
  then have "\<forall>(c, v) \<in> set scaled. v div W < 2 ^ 32" by blast
  moreover have "0 < W" using assms(3) by (simp only: W_def)
  ultimately obtain selected remaining where spec: "guarantee_loop W scaled = Some (selected, remaining)"
      "length selected * W + sum_list (map snd remaining) = sum_list (map snd scaled)"
      "set selected \<subseteq> fst ` set scaled" "fst ` set remaining \<subseteq> fst ` set scaled"
      "\<forall>(c, v) \<in> set scaled. v div W \<le> count_list selected c"
    using guarantee_loop_spec by blast
  have sub: "fst ` set scaled \<subseteq> fst ` set cs" by (force simp: scaled_def)
  have guaranteed: "w * n div W \<le> count_list selected c" if "(c, w) \<in> set cs" for c w
    using spec(5) that by (cases "w = 0") (force simp: scaled_def)+
  have total: "sum_list (map snd scaled) = W * n"
    unfolding W_def scaled_def by (rule scaled_sum)
  have "\<forall>(c, w) \<in> set cs. w * n div W \<le> count_list selected c"
    using guaranteed by blast
  with trans [OF run spec(1)] trans [OF spec(2) total] order_trans [OF spec(3) sub] order_trans [OF spec(4) sub]
  show ?thesis unfolding W_def by (intro exI conjI)
qed

lemma fair_share_mset:
  assumes "mset candidates = mset candidates'" and "mset committee = mset committee'"
  shows "fair_share n candidates committee = fair_share n candidates' committee'"
proof -
  have "set candidates = set candidates'" "set committee = set committee'" "length committee = length committee'"
    "count_list committee c = count_list committee' c" for c
    using assms by (metis mset_eq_setD mset_eq_length count_mset)+
  moreover have "sum_list (map snd candidates) = sum_list (map snd candidates')"
    using assms(1) by (metis mset_map sum_mset_sum_list)
  ultimately show ?thesis by (simp add: fair_share_def)
qed

lemma weighted_selection_fair:
  assumes "rng_ok rng" "n < 2 ^ 16" "0 < sum_list (map snd candidates)" "sum_list (map snd candidates) * n < 2 ^ 128"
  shows "\<exists>xs. weighted_with_guaranteed_assignment rng candidates n g = Some xs \<and> fair_share n candidates xs"
proof (cases "n = 0")
  case False
  define cs where "cs = sort candidates"
  define W where "W = sum_list (map snd cs)"
  have perm: "mset cs = mset candidates" by (simp add: cs_def)
  then have sum: "sum_list (map snd candidates) = W"
    unfolding W_def by (metis mset_map sum_mset_sum_list)
  obtain selected remaining where sg: "select_guaranteed cs n = Some (selected, remaining)"
      "length selected * W + sum_list (map snd remaining) = W * n"
      "set selected \<subseteq> fst ` set cs" "fst ` set remaining \<subseteq> fst ` set cs"
      "\<forall>(c, w) \<in> set cs. w * n div W \<le> count_list selected c"
    using select_guaranteed_spec [of n cs] False assms(2-4) unfolding sum W_def by blast
  have "length selected * W \<le> n * W" using sg(2) mult.commute [of W n] by linarith
  then have len: "length selected \<le> n" using assms(3) sum by simp
  define m where "m = n - length selected"
  have m: "(n + 2 ^ 16 - length selected) mod 2 ^ 16 = m"
    using len assms(2) unfolding m_def by (simp add: mod_if)
  have rem: "sum_list (map snd remaining) = m * W"
    using sg(2) mult.commute [of W n] diff_mult_distrib [of n "length selected" W] unfolding m_def by linarith
  obtain rest where rest: "select_remaining rng remaining m g = Some rest" "length rest = m" "set rest \<subseteq> fst ` set remaining"
  proof (cases "m = 0")
    case True
    then show ?thesis using that by (simp add: select_remaining_def weighted_random_select_def)
  next
    case False
    then have "0 < sum_list (map snd remaining)"
      using rem assms(3) sum by (metis mult_pos_pos not_gr_zero)
    moreover have small: "sum_list (map snd remaining) < 2 ^ 128"
      using sg(2) assms(4) unfolding sum by linarith
    ultimately obtain xs where "select_loop rng remaining (sum_list (map snd remaining)) m (from_seed rng (get_seed rng g)) = Some xs"
        "length xs = m" "set xs \<subseteq> fst ` set remaining"
      using select_loop_size [OF assms(1)] by blast
    then show ?thesis
      using that small
      by (simp add: select_remaining_def weighted_random_select_def u128_sum_def)
  qed
  have "candidates \<noteq> []" using assms(3) by auto
  then have "weighted_with_guaranteed_assignment rng candidates n g = Some (selected @ rest)"
    using False sg(1) rest(1) m len assms(2)
    by (simp add: weighted_with_guaranteed_assignment_def cs_def [symmetric])
  moreover have "length (selected @ rest) = n" using rest(2) len by (simp add: m_def)
  then have "fair_share n cs (selected @ rest)"
    using sg(3-5) rest(3) unfolding fair_share_def W_def [symmetric] by (auto intro: trans_le_add1)
  ultimately show ?thesis using fair_share_mset [OF perm refl] by blast
qed (auto simp: weighted_with_guaranteed_assignment_def fair_share_def)

lemma shuffle_mset:
  assumes "rng_ok rng"
  shows "mset (map ((!) xs) (shuffle_order rng (length xs) g)) = mset xs"
proof -
  have "mset (map ((!) xs) (shuffle_order rng (length xs) g)) = mset (map ((!) xs) [0..<length xs])"
    using assms unfolding rng_ok_def by (simp only: mset_map)
  then show ?thesis by (simp only: map_nth)
qed

lemma shuffle_set: "rng_ok rng \<Longrightarrow> set (map ((!) xs) (shuffle_order rng (length xs) g)) = set xs"
  by (rule mset_eq_setD [OF shuffle_mset])

lemma rng_ok_empty: "rng_ok rng \<Longrightarrow> shuffle_order rng 0 g = []"
  using shuffle_mset [of rng "[]" g] by simp

lemma equal_weights [simp]: "sum_list (map snd (map (\<lambda>c. (c, 1)) cs)) = length (cs :: 'a list)"
  by (induction cs) auto

text \<open>
  The two kinds of candidates fill their own seats when there are candidates of both
  kinds, and otherwise the only kind there is fills all of them.
\<close>

definition seats_filled :: "nat \<Rightarrow> nat \<Rightarrow> ('a \<times> nat) list \<Rightarrow> 'a list \<Rightarrow> 'a list \<Rightarrow> bool" where
  "seats_filled r p registered permissioned committee \<longleftrightarrow>
    (if registered \<noteq> [] \<and> permissioned \<noteq> []
     then \<exists>rs ps. mset committee = mset (rs @ ps) \<and> fair_share r registered rs
       \<and> fair_share p (map (\<lambda>c. (c, 1)) permissioned) ps
     else fair_share (r + p) (registered @ map (\<lambda>c. (c, 1)) permissioned) committee)"

lemma seats_filled_length: "seats_filled r p registered permissioned committee \<Longrightarrow> length committee = r + p"
  unfolding seats_filled_def fair_share_def by (auto simp del: mset_append dest!: mset_eq_length split: if_splits)

lemma ariadne_v2_fair:
  assumes "rng_ok rng" "r + p < 2 ^ 16" "registered \<noteq> [] \<or> permissioned \<noteq> []"
    and "registered \<noteq> [] \<longrightarrow> 0 < sum_list (map snd registered)"
    and "sum_list (map snd registered) * (r + p) < 2 ^ 128" and "length permissioned * (r + p) < 2 ^ 128"
  shows "\<exists>xs. ariadne_v2_select rng r p registered permissioned seed = Some (Some xs) \<and> seats_filled r p registered permissioned xs"
proof -
  define g where "g = from_seed rng seed"
  define ps where "ps = map (\<lambda>c. (c, 1 :: nat)) permissioned"
  have seats: "(p + r) mod 2 ^ 16 = r + p" using assms(2) by (simp add: add.commute)
  have reg: "\<exists>xs. weighted_with_guaranteed_assignment rng registered n g = Some xs \<and> fair_share n registered xs"
    if "registered \<noteq> []" "n \<le> r + p" for n
    using that assms weighted_selection_fair [of rng n registered]
    by (meson le_less_trans mult_le_mono2)
  have perm: "\<exists>xs. weighted_with_guaranteed_assignment rng ps n g = Some xs \<and> fair_share n ps xs"
    if "permissioned \<noteq> []" "n \<le> r + p" for n
  proof (rule weighted_selection_fair [OF assms(1)])
    show "n < 2 ^ 16" using that assms(2) by simp
    show "0 < sum_list (map snd ps)" using that unfolding ps_def equal_weights by simp
    show "sum_list (map snd ps) * n < 2 ^ 128"
      using that assms(6) unfolding ps_def equal_weights by (meson le_less_trans mult_le_mono2)
  qed
  have finish: ?thesis if sel: "(if registered \<noteq> [] \<and> ps \<noteq> []
       then Option.bind (weighted_with_guaranteed_assignment rng registered r g) (\<lambda>r.
         map_option (\<lambda>p. r @ p) (weighted_with_guaranteed_assignment rng ps p g))
       else if registered = [] then weighted_with_guaranteed_assignment rng ps (r + p) g
       else weighted_with_guaranteed_assignment rng registered (r + p) g) = Some xs"
    and fill: "seats_filled r p registered permissioned xs" for xs
  proof -
    let ?ys = "map ((!) xs) (shuffle_order rng (length xs) g)"
    have nonempty: "\<not> (xs = [] \<and> r + p > 0)" using seats_filled_length [OF fill] by auto
    have "ariadne_v2_select rng r p registered permissioned seed = Some (Some ?ys)"
      unfolding ariadne_v2_select_def Let_def g_def [symmetric] ps_def [symmetric] seats sel
      by (simp only: option.map(2) nonempty if_False)
    moreover have "seats_filled r p registered permissioned ?ys"
      using fill shuffle_mset [OF assms(1), of xs g] fair_share_mset [OF refl shuffle_mset [OF assms(1), of xs g]]
      unfolding seats_filled_def by presburger
    ultimately show ?thesis by blast
  qed
  show ?thesis
  proof (cases "registered \<noteq> [] \<and> permissioned \<noteq> []")
    case True
    then obtain rs ps' where "weighted_with_guaranteed_assignment rng registered r g = Some rs" "fair_share r registered rs"
      "weighted_with_guaranteed_assignment rng ps p g = Some ps'" "fair_share p ps ps'"
      using reg [of r] perm [of p] by auto
    with True show ?thesis by (intro finish [of "rs @ ps'"]) (auto simp: seats_filled_def ps_def)
  next
    case False
    then consider "registered = []" "permissioned \<noteq> []" | "registered \<noteq> []" "permissioned = []" using assms(3) by blast
    then show ?thesis
    proof cases
      case 1
      with perm [of "r + p"] obtain xs where "weighted_with_guaranteed_assignment rng ps (r + p) g = Some xs" "fair_share (r + p) ps xs"
        by blast
      with 1 show ?thesis by (intro finish [of xs]) (auto simp: seats_filled_def ps_def)
    next
      case 2
      with reg [of "r + p"] obtain xs where "weighted_with_guaranteed_assignment rng registered (r + p) g = Some xs"
          "fair_share (r + p) registered xs"
        by blast
      with 2 show ?thesis by (intro finish [of xs]) (auto simp: seats_filled_def ps_def)
    qed
  qed
qed

section \<open>Who can be selected\<close>

lemma weight_index_member: "weight_index cs cumulative r = Some c \<Longrightarrow> c \<in> fst ` set cs"
  by (induction cs cumulative r rule: weight_index.induct) (auto simp: Let_def split: if_splits)

lemma select_loop_member: "select_loop rng cs W k g = Some xs \<Longrightarrow> set xs \<subseteq> fst ` set cs"
proof (induction k arbitrary: g xs)
  case (Suc k)
  show ?case
  proof (cases "cs = []")
    case False
    with Suc.prems obtain c g' ys where "select_with_weight rng cs W g = Some (c, g')"
      "select_loop rng cs W k g' = Some ys" "xs = c # ys"
      by (auto simp: bind_eq_Some_conv)
    moreover from this(1) have "c \<in> fst ` set cs"
      by (auto simp: select_with_weight_def split_beta Let_def simp del: image_iff intro: weight_index_member split: if_splits)
    ultimately show ?thesis using Suc.IH by simp
  qed (use Suc.prems in simp)
qed simp

lemma guarantee_loop_member:
  "guarantee_loop t cs = Some (selected, remaining) \<Longrightarrow> set selected \<subseteq> fst ` set cs \<and> fst ` set remaining \<subseteq> fst ` set cs"
proof (induction cs arbitrary: selected remaining)
  case (Cons a cs)
  obtain c w where a: "a = (c, w)" by fastforce
  with Cons.prems obtain sel rem where "guarantee_loop t cs = Some (sel, rem)"
    and eqs: "selected = replicate (w div t) c @ sel" "remaining = (if w mod t > 0 then (c, w mod t) # rem else rem)"
    by (auto split: if_split_asm)
  from this(1) have "set sel \<subseteq> fst ` set cs" "fst ` set rem \<subseteq> fst ` set cs" using Cons.IH by blast+
  then show ?case unfolding eqs a by (simp add: subset_insertI2 set_replicate_conv_if)
qed simp

lemma weighted_member: "weighted_with_guaranteed_assignment rng cs n g = Some xs \<Longrightarrow> set xs \<subseteq> fst ` set cs"
proof -
  assume run: "weighted_with_guaranteed_assignment rng cs n g = Some xs"
  show ?thesis
  proof (cases "cs = [] \<or> n = 0")
    case False
    with run obtain selected remaining rest where
      sel: "select_guaranteed (sort cs) n = Some (selected, remaining)"
      and rest: "select_remaining rng remaining ((n + 2 ^ 16 - length selected) mod 2 ^ 16) g = Some rest"
      and xs: "xs = selected @ rest"
      by (auto simp: weighted_with_guaranteed_assignment_def bind_eq_Some_conv split: if_splits)
    have "set selected \<subseteq> fst ` set cs \<and> fst ` set remaining \<subseteq> fst ` set cs"
      using guarantee_loop_member [OF sel [unfolded select_guaranteed_def]] by force
    moreover have "set rest \<subseteq> fst ` set remaining"
      using rest by (auto simp: select_remaining_def weighted_random_select_def dest!: select_loop_member split: if_splits)
    ultimately show ?thesis using xs by auto
  qed (use run in \<open>simp add: weighted_with_guaranteed_assignment_def\<close>)
qed

lemma ariadne_v2_member:
  assumes "rng_ok rng" and run: "ariadne_v2_select rng r p registered permissioned seed = Some (Some xs)"
  shows "set xs \<subseteq> fst ` set registered \<union> set permissioned"
proof -
  define g where "g = from_seed rng seed"
  define ps where "ps = map (\<lambda>c. (c, 1 :: nat)) permissioned"
  have ps: "fst ` set ps = set permissioned" by (force simp: ps_def)
  define sel where "sel = (if registered \<noteq> [] \<and> ps \<noteq> []
       then Option.bind (weighted_with_guaranteed_assignment rng registered r g) (\<lambda>r.
         map_option (\<lambda>p. r @ p) (weighted_with_guaranteed_assignment rng ps p g))
       else if registered = [] then weighted_with_guaranteed_assignment rng ps ((p + r) mod 2 ^ 16) g
       else weighted_with_guaranteed_assignment rng registered ((p + r) mod 2 ^ 16) g)"
  have members: "set ys \<subseteq> fst ` set registered \<union> set permissioned" if "sel = Some ys" for ys
    using that unfolding sel_def ps [symmetric]
    by (auto simp del: image_iff simp: bind_eq_Some_conv split: if_splits dest!: weighted_member)
  obtain ys where "sel = Some ys" and "xs = map ((!) ys) (shuffle_order rng (length ys) g)"
    using run unfolding ariadne_v2_select_def Let_def g_def [symmetric] ps_def [symmetric] sel_def [symmetric]
    by (auto split: if_splits)
  then show ?thesis using members shuffle_set [OF assms(1)] by metis
qed

lemma max_by_key_Some:
  "max_by_key f xs = Some x \<Longrightarrow> x \<in> set xs \<and> (\<forall>y \<in> set xs. f y \<le> f x)"
proof (cases xs)
  case (Cons a as)
  have "fold (\<lambda>y m. if f y \<ge> f m then y else m) as a \<in> set (a # as)
    \<and> (\<forall>y \<in> set (a # as). f y \<le> f (fold (\<lambda>y m. if f y \<ge> f m then y else m) as a))"
    by (induction as rule: rev_induct) (auto intro: order_trans)
  moreover assume "max_by_key f xs = Some x"
  ultimately show ?thesis using Cons by auto
qed simp

lemma registration_valid:
  "validate_registration_data cr pool d genesis_utxo = Inr (pub_key, keys) \<longleftrightarrow>
    pub_key = sidechain_pub_key d \<and> maybe_from cr (registration_keys d) = Some keys \<and> length pub_key = 33
    \<and> length (mainchain_signature d) = 64
    \<and> ed25519_verify cr (mainchain_signature d) (signed_message cr genesis_utxo pub_key (registration_utxo d)) pool
    \<and> length (sidechain_signature d) = 64
    \<and> (\<exists>v \<in> {27, 28}. ecdsa_verify cr (sidechain_signature d @ [v]) (signed_message cr genesis_utxo pub_key (registration_utxo d)) pub_key)
    \<and> registration_utxo d \<in> set (tx_inputs d)"
  by (auto simp: validate_registration_data_def bind_result_def ok_or_def Let_def verify_stake_pool_signature_def
      verify_sidechain_signature_def verify_tx_inputs_def split: option.splits sum.splits if_splits)

lemma map_filter_set: "set (List.map_filter f xs) = {y. \<exists>x \<in> set xs. f x = Some y}"
  by (induction xs) (auto simp: List.map_filter_simps split: option.splits)

lemma map_filter_mset: "mset xs = mset ys \<Longrightarrow> mset (List.map_filter f xs) = mset (List.map_filter f ys)"
  by (simp add: List.map_filter_def)

lemma valid_eq: "(case r of Inl _ \<Rightarrow> None | Inr x \<Rightarrow> Some (x, u)) = Some y \<longleftrightarrow> (\<exists>x. r = Inr x \<and> y = (x, u))"
  by (auto split: sum.splits)

lemma latest_valid:
  assumes "select_latest_valid_candidate cr c genesis_utxo = Some (pool, stake, i, k)"
  shows "pool = stake_pool_public_key c \<and> stake_delegation c = Some stake \<and> stake \<noteq> 0
    \<and> (\<exists>d \<in> set (registrations c). i = account_of cr (sidechain_pub_key d)
        \<and> validate_registration_data cr pool d genesis_utxo = Inr (sidechain_pub_key d, k)
        \<and> (\<forall>d' \<in> set (registrations c). (\<exists>v. validate_registration_data cr pool d' genesis_utxo = Inr v)
              \<longrightarrow> utxo_ordering_key (utxo_info d') \<le> utxo_ordering_key (utxo_info d)))"
proof -
  let ?valid = "List.map_filter (\<lambda>d. case validate_registration_data cr (stake_pool_public_key c) d genesis_utxo of
                Inr candidate \<Rightarrow> Some (candidate, utxo_info d) | Inl _ \<Rightarrow> None) (registrations c)"
  obtain pub_key info where pool: "pool = stake_pool_public_key c" "stake_delegation c = Some stake" "stake \<noteq> 0"
    and max: "max_by_key (\<lambda>(_, info). utxo_ordering_key info) ?valid = Some ((pub_key, k), info)" and i: "i = account_of cr pub_key"
    using assms by (auto simp: select_latest_valid_candidate_def validate_stake_def split: sum.splits option.splits if_splits)
  from max_by_key_Some [OF max, THEN conjunct1] obtain d where d: "d \<in> set (registrations c)"
      "validate_registration_data cr pool d genesis_utxo = Inr (pub_key, k)" "info = utxo_info d"
    by (auto simp: map_filter_set pool valid_eq)
  moreover have "utxo_ordering_key (utxo_info d') \<le> utxo_ordering_key (utxo_info d)"
    if "d' \<in> set (registrations c)" "validate_registration_data cr pool d' genesis_utxo = Inr v" for d' v
  proof -
    have "(v, utxo_info d') \<in> set ?valid" using that by (force simp: map_filter_set pool)
    then show ?thesis using max_by_key_Some [OF max] d(3) by fastforce
  qed
  moreover have "pub_key = sidechain_pub_key d" using d(2) registration_valid by metis
  ultimately show ?thesis using pool i by blast
qed

lemma registered_weights:
  assumes "(c, w) \<in> set (filter_trustless_candidates_registrations cr cs genesis_utxo)"
  shows "0 < w" "w < 2 ^ 64"
proof -
  from assms obtain r pool stake i k where "select_latest_valid_candidate cr r genesis_utxo = Some (pool, stake, i, k)"
    and w: "w = unat stake"
    by (auto simp: filter_trustless_candidates_registrations_def map_filter_set)
  then have "stake \<noteq> 0" using latest_valid by metis
  then show "0 < w" by (simp add: w unat_gt_0)
  have "unat stake < 2 ^ LENGTH(64)" by (rule unsigned_less)
  then show "w < 2 ^ 64" by (simp add: w)
qed

lemma registered_total:
  assumes "length cs < 2 ^ 48"
    and reg_def: "reg = filter_trustless_candidates_registrations cr cs genesis_utxo"
  shows "n < 2 ^ 16 \<Longrightarrow> sum_list (map snd reg) * n < 2 ^ 128" and "reg \<noteq> [] \<Longrightarrow> 0 < sum_list (map snd reg)"
proof -
  have "length reg \<le> length cs"
    by (simp add: reg_def filter_trustless_candidates_registrations_def List.map_filter_def)
  moreover have "sum_list (map snd reg) \<le> sum_list (map (\<lambda>_. 2 ^ 64) reg)"
    unfolding reg_def by (intro sum_list_mono) (auto dest!: registered_weights(2))
  ultimately have "sum_list (map snd reg) \<le> 2 ^ 48 * 2 ^ 64"
    using assms(1) by (auto simp: sum_list_triv intro: order_trans)
  then have "sum_list (map snd reg) * n \<le> 2 ^ 48 * 2 ^ 64 * n" by (rule mult_le_mono1)
  moreover assume "n < 2 ^ 16"
  then have "2 ^ 48 * 2 ^ 64 * n < (2 ^ 128 :: nat)" by simp
  ultimately show "sum_list (map snd reg) * n < 2 ^ 128" by (rule le_less_trans)
next
  assume "reg \<noteq> []"
  then obtain c w where "(c, w) \<in> set reg" by (cases reg) auto
  then show "0 < sum_list (map snd reg)"
    using member_le_sum [of c w reg] registered_weights(1) unfolding reg_def by fastforce
qed

lemma mset_empty: "mset xs = mset ys \<Longrightarrow> xs = [] \<longleftrightarrow> ys = []"
  by (metis mset_zero_iff)

lemma weighted_permuted:
  fixes cs cs' :: "('a :: linorder \<times> nat) list"
  assumes "mset cs = mset cs'"
  shows "weighted_with_guaranteed_assignment rng cs n g = weighted_with_guaranteed_assignment rng cs' n g"
proof -
  have "sort cs = sort cs'" using assms by (metis mset_sort properties_for_sort sorted_sort)
  moreover note mset_empty [OF assms]
  ultimately show ?thesis by (simp only: weighted_with_guaranteed_assignment_def)
qed

lemma ariadne_v2_permuted:
  assumes "mset cs = mset cs'" "mset ds = mset ds'"
  shows "ariadne_v2_select rng r p cs ds seed = ariadne_v2_select rng r p cs' ds' seed"
proof -
  have perm: "mset (map (\<lambda>c. (c, 1 :: nat)) ds) = mset (map (\<lambda>c. (c, 1)) ds')" using assms(2) by (simp only: mset_map)
  show ?thesis
    unfolding ariadne_v2_select_def Let_def weighted_permuted [OF assms(1)] weighted_permuted [OF perm]
      mset_empty [OF assms(1)] mset_empty [OF perm] by (rule refl)
qed

section \<open>The seed\<close>

lemma to_big_endian_length [simp]: "length (to_big_endian k n) = k"
  by (induction k arbitrary: n) auto

lemma from_to_big_endian: "n < 256 ^ k \<Longrightarrow> from_big_endian (to_big_endian k n) = n"
proof (induction k arbitrary: n)
  case (Suc k)
  then have "n div 256 ^ k < 256" by (simp add: less_mult_imp_div_less)
  then have "unat (word_of_nat (n div 256 ^ k) :: u8) = n div 256 ^ k" by (simp add: unat_of_nat)
  moreover have "from_big_endian (to_big_endian k (n mod 256 ^ k)) = n mod 256 ^ k" by (rule Suc.IH) simp
  ultimately show ?case using div_mult_mod_eq [of n "256 ^ k"] by (simp only: to_big_endian.simps from_big_endian.simps to_big_endian_length)
qed simp

text \<open>The seeds of two epochs with the same nonce differ.\<close>

lemma seed_per_epoch:
  assumes "seed_from_nonce_and_sc_epoch nonce e = seed_from_nonce_and_sc_epoch nonce e'"
  shows "e = e'"
proof -
  let ?N = "from_big_endian (as_array nonce)"
  have mod: "(?N + unat e) mod 2 ^ 256 = (?N + unat e') mod 2 ^ 256"
    using arg_cong [OF assms [unfolded seed_from_nonce_and_sc_epoch_def], of from_big_endian]
    by (simp add: from_to_big_endian)
  have "unat e < 2 ^ LENGTH(64)" "unat e' < 2 ^ LENGTH(64)" by (rule unsigned_less)+
  then have "unat e < 2 ^ 256" "unat e' < 2 ^ 256" by simp_all
  moreover have "unat e mod 2 ^ 256 = unat e' mod 2 ^ 256"
    using mod unfolding nat_mod_eq_iff by (simp only: add.assoc add_left_cancel)
  ultimately have "unat e = unat e'" by simp
  then show ?thesis by (simp only: word_unat_eq_iff)
qed

text \<open>What a seat requires of its holder.\<close>

fun valid_candidacy ::
  "('i, 'k) candidate_crypto \<Rightarrow> candidate_utxo \<Rightarrow> AuthoritySelectionInputs \<Rightarrow> ('i, 'k) CommitteeMember \<Rightarrow> bool" where
  "valid_candidacy cr genesis_utxo input (PermissionedMember i k) =
    (\<exists>c \<in> set (permissioned_candidates input). length (sidechain_public_key c) = 33
      \<and> i = account_of cr (sidechain_public_key c) \<and> maybe_from cr (candidate_keys c) = Some k)"
| "valid_candidacy cr genesis_utxo input (RegisteredMember i k pool) =
    (\<exists>c \<in> set (registered_candidates input). \<exists>d \<in> set (registrations c).
      pool = stake_pool_public_key c \<and> (\<exists>stake. stake_delegation c = Some stake \<and> stake \<noteq> 0)
      \<and> i = account_of cr (sidechain_pub_key d) \<and> maybe_from cr (registration_keys d) = Some k
      \<and> (let msg = signed_message cr genesis_utxo (sidechain_pub_key d) (registration_utxo d) in
          ed25519_verify cr (mainchain_signature d) msg pool
          \<and> (\<exists>v \<in> {27, 28}. ecdsa_verify cr (sidechain_signature d @ [v]) msg (sidechain_pub_key d)))
      \<and> registration_utxo d \<in> set (tx_inputs d)
      \<and> (\<forall>d' \<in> set (registrations c). (\<exists>v. validate_registration_data cr pool d' genesis_utxo = Inr v)
            \<longrightarrow> utxo_ordering_key (utxo_info d') \<le> utxo_ordering_key (utxo_info d)))"

lemma registered_valid:
  assumes "x \<in> fst ` set (filter_trustless_candidates_registrations cr (registered_candidates input) genesis_utxo)"
  shows "valid_candidacy cr genesis_utxo input (member_of_candidate x)"
proof -
  from assms obtain c pool stake i k where c: "c \<in> set (registered_candidates input)" "x = Registered pool stake i k"
    "select_latest_valid_candidate cr c genesis_utxo = Some (pool, stake, i, k)"
    by (auto simp: filter_trustless_candidates_registrations_def map_filter_set)
  from latest_valid [OF c(3)] show ?thesis
    using c(1) unfolding c(2) member_of_candidate.simps valid_candidacy.simps registration_valid Let_def by blast
qed

lemma permissioned_valid:
  assumes "x \<in> set (filter_invalid_permissioned_candidates cr (permissioned_candidates input))"
  shows "valid_candidacy cr genesis_utxo input (member_of_candidate x)"
  using assms unfolding filter_invalid_permissioned_candidates_def map_filter_set
  by (auto simp: validate_permissioned_candidate_data_def bind_result_def ok_or_def
      split: sum.split_asm option.split_asm if_split_asm) metis

text \<open>
  A generator for the examples: it counts, and its shuffle reverses.  Signatures are
  the signed message, cut to the length of a signature.
\<close>

definition counting_rng :: "nat rng_lib" where
  "counting_rng = \<lparr>from_seed = (\<lambda>seed. from_big_endian seed mod 256), get_seed = (\<lambda>g. [word_of_nat g]),
    random_range = (\<lambda>n g. (g mod n, g + 1)), shuffle_order = (\<lambda>n g. rev [0..<n])\<rparr>"

lemma counting_rng_ok: "rng_ok counting_rng"
  by (simp add: rng_ok_def counting_rng_def)

definition plain_crypto :: "(nat, nat) candidate_crypto" where
  "plain_crypto = \<lparr>maybe_from = (\<lambda>keys. if keys = [] then None else Some (length keys)),
    account_of = (\<lambda>key. unat (hd key)),
    signed_message = (\<lambda>g key u. key),
    ed25519_verify = (\<lambda>sig msg pool. hd sig = hd msg),
    ecdsa_verify = (\<lambda>sig msg key. hd sig = hd msg \<and> last sig = 28)\<rparr>"

definition example_candidate_input :: "u16 \<Rightarrow> u16 \<Rightarrow> AuthoritySelectionInputs" where
  "example_candidate_input p r = \<lparr>num_permissioned_candidates = p, num_registered_candidates = r,
    permissioned_candidates = [\<lparr>sidechain_public_key = replicate 33 7, candidate_keys = [([1], [1])]\<rparr>],
    registered_candidates = [\<lparr>stake_pool_public_key = [5],
      registrations = [\<lparr>registration_utxo = \<lparr>utxo_tx_hash = [1], utxo_index = 0\<rparr>,
        sidechain_signature = replicate 64 9, mainchain_signature = replicate 64 9, cross_chain_signature = replicate 64 9,
        sidechain_pub_key = replicate 33 9, cross_chain_pub_key = replicate 33 9,
        utxo_info = \<lparr>utxo_id = \<lparr>utxo_tx_hash = [2], utxo_index = 0\<rparr>, utxo_epoch_number = 0, utxo_block_number = 4,
          utxo_slot_number = 80, tx_index_within_block = 1\<rparr>,
        tx_inputs = [\<lparr>utxo_tx_hash = [1], utxo_index = 0\<rparr>], registration_keys = [([1], [1]), ([2], [2])]\<rparr>],
      stake_delegation = Some 100\<rparr>],
    epoch_nonce = [3]\<rparr>"

section \<open>Properties of the selection\<close>

text \<open>
  C15: A committee has \<open>registered_seats + permissioned_seats\<close> members.  When there are
  candidates of both kinds, registered candidates get exactly the registered seats and
  permissioned ones exactly the permissioned seats; otherwise the one kind there is
  gets all of them.  A candidate whose expected number of seats, its share of the
  weight of its kind times the seats of its kind, is at least \<open>k\<close> gets at least \<open>k\<close>
  seats, whatever is drawn.  The selection does not panic.
\<close>

theorem committee_guarantees:
  assumes "rng_ok rng" "r + p < 2 ^ 16" "registered \<noteq> [] \<or> permissioned \<noteq> []"
    and "registered \<noteq> [] \<longrightarrow> 0 < sum_list (map snd registered)"
    and "sum_list (map snd registered) * (r + p) < 2 ^ 128" and "length permissioned * (r + p) < 2 ^ 128"
  shows "\<exists>committee. ariadne_v2_select rng r p registered permissioned seed = Some (Some committee)
    \<and> length committee = r + p
    \<and> (if registered \<noteq> [] \<and> permissioned \<noteq> []
       then \<exists>rs ps. mset committee = mset (rs @ ps) \<and> length rs = r \<and> length ps = p
         \<and> set rs \<subseteq> fst ` set registered \<and> set ps \<subseteq> set permissioned
         \<and> (\<forall>(c, w) \<in> set registered. w * r div sum_list (map snd registered) \<le> count_list rs c)
         \<and> (\<forall>c \<in> set permissioned. p div length permissioned \<le> count_list ps c)
       else set committee \<subseteq> fst ` set registered \<union> set permissioned
         \<and> (\<forall>(c, w) \<in> set registered. w * (r + p) div sum_list (map snd registered) \<le> count_list committee c)
         \<and> (\<forall>c \<in> set permissioned. (r + p) div length permissioned \<le> count_list committee c))"
proof -
  obtain xs where xs: "ariadne_v2_select rng r p registered permissioned seed = Some (Some xs)"
    and fill: "seats_filled r p registered permissioned xs"
    using ariadne_v2_fair [OF assms] by blast
  have perm: "fair_share n (map (\<lambda>c. (c, 1)) permissioned) ys \<longleftrightarrow> length ys = n \<and> set ys \<subseteq> set permissioned
      \<and> (\<forall>c \<in> set permissioned. n div length permissioned \<le> count_list ys c)" for n ys
    unfolding fair_share_def equal_weights by (auto simp: image_image)
  show ?thesis
  proof (cases "registered \<noteq> [] \<and> permissioned \<noteq> []")
    case True
    with fill have "\<exists>rs ps. mset xs = mset (rs @ ps) \<and> fair_share r registered rs
        \<and> fair_share p (map (\<lambda>c. (c, 1)) permissioned) ps"
      by (simp only: seats_filled_def if_True simp_thms)
    then have "\<exists>rs ps. mset xs = mset (rs @ ps) \<and> length rs = r \<and> length ps = p
         \<and> set rs \<subseteq> fst ` set registered \<and> set ps \<subseteq> set permissioned
         \<and> (\<forall>(c, w) \<in> set registered. w * r div sum_list (map snd registered) \<le> count_list rs c)
         \<and> (\<forall>c \<in> set permissioned. p div length permissioned \<le> count_list ps c)"
      unfolding perm unfolding fair_share_def by (elim exE conjE) (intro exI conjI)
    from conjI [OF xs conjI [OF seats_filled_length [OF fill] this]] show ?thesis
      unfolding if_P [OF True] by (rule exI)
  next
    case False
    with fill have fair: "fair_share (r + p) (registered @ map (\<lambda>c. (c, 1)) permissioned) xs"
      unfolding seats_filled_def by (simp only: if_False)
    from False assms(3) have "registered = [] \<and> permissioned \<noteq> [] \<or> registered \<noteq> [] \<and> permissioned = []" by blast
    then have "set xs \<subseteq> fst ` set registered \<union> set permissioned"
      "\<forall>(c, w) \<in> set registered. w * (r + p) div sum_list (map snd registered) \<le> count_list xs c"
      "\<forall>c \<in> set permissioned. (r + p) div length permissioned \<le> count_list xs c"
      using fair perm [of "r + p" xs] by (auto simp: fair_share_def)
    with xs seats_filled_length [OF fill] show ?thesis
      unfolding if_not_P [OF False] by (intro exI [of _ xs] conjI)
  qed
qed

theorem committee_guarantees_witness:
  "\<exists>committee. ariadne_v2_select counting_rng 3 1 [(1, 3), (2, 1)] [7 :: nat] [] = Some (Some committee)
    \<and> length committee = 4 \<and> count_list committee 1 \<ge> 2 \<and> count_list committee 7 \<ge> 1"
proof -
  from committee_guarantees [OF counting_rng_ok, of 3 1 "[(1, 3), (2, 1)]" "[7 :: nat]" "[]"]
  obtain committee rs ps where run: "ariadne_v2_select counting_rng 3 1 [(1, 3), (2, 1)] [7 :: nat] [] = Some (Some committee)"
    and len: "length committee = 4" and perm: "mset committee = mset (rs @ ps)"
    and seats: "2 \<le> count_list rs 1" "1 \<le> count_list ps 7"
    by auto
  have "count_list committee c = count_list rs c + count_list ps c" for c
    using perm by (metis count_mset count_list_append)
  with run len seats show ?thesis by (metis le_add1 le_add2 order_trans)
qed

text \<open>
  The order in which candidates are given does not change the selection, not even
  the order of the seats: two inputs whose candidate lists are permutations of one
  another get the same committee.
\<close>

lemma selection_order_independent:
  assumes "mset (registered_candidates input) = mset (registered_candidates input')"
    and "mset (permissioned_candidates input) = mset (permissioned_candidates input')"
    and "num_registered_candidates input = num_registered_candidates input'"
    and "num_permissioned_candidates input = num_permissioned_candidates input'"
    and "epoch_nonce input = epoch_nonce input'"
  shows "select_authorities rng cr max_authorities genesis_utxo input epoch
    = select_authorities rng cr max_authorities genesis_utxo input' epoch"
proof -
  have reg: "mset (filter_trustless_candidates_registrations cr (registered_candidates input) genesis_utxo)
      = mset (filter_trustless_candidates_registrations cr (registered_candidates input') genesis_utxo)"
    unfolding filter_trustless_candidates_registrations_def mset_map
    by (rule arg_cong [where f = "image_mset _", OF map_filter_mset [OF assms(1)]])
  have perm: "mset (filter_invalid_permissioned_candidates cr (permissioned_candidates input))
      = mset (filter_invalid_permissioned_candidates cr (permissioned_candidates input'))"
    unfolding filter_invalid_permissioned_candidates_def by (rule map_filter_mset [OF assms(2)])
  show ?thesis
    unfolding select_authorities_def select_candidates_def assms(3-5) ariadne_v2_permuted [OF reg perm] by (rule refl)
qed

lemma selection_order_independent_example:
  "select_authorities counting_rng plain_crypto 10 \<lparr>utxo_tx_hash = [0], utxo_index = 0\<rparr>
      ((example_candidate_input 2 1)\<lparr>permissioned_candidates :=
        [\<lparr>sidechain_public_key = replicate 33 7, candidate_keys = [([1], [1])]\<rparr>, \<lparr>sidechain_public_key = replicate 33 8, candidate_keys = [([1], [1])]\<rparr>]\<rparr>) 17
    = select_authorities counting_rng plain_crypto 10 \<lparr>utxo_tx_hash = [0], utxo_index = 0\<rparr>
      ((example_candidate_input 2 1)\<lparr>permissioned_candidates :=
        [\<lparr>sidechain_public_key = replicate 33 8, candidate_keys = [([1], [1])]\<rparr>, \<lparr>sidechain_public_key = replicate 33 7, candidate_keys = [([1], [1])]\<rparr>]\<rparr>) 17"
  by (rule selection_order_independent) (simp_all add: example_candidate_input_def)

text \<open>
  Nobody gets a seat without a valid candidacy.  A permissioned member is on the list
  of permissioned candidates with a well-formed key and account keys.  A registered
  member has a positive stake and a registration, spending its own registration
  output, signed both by the stake pool and by the partner chain key over the same
  message, and it is the latest of the pool's valid registrations.
\<close>

lemma committee_members_valid:
  assumes "rng_ok rng"
    and "select_authorities_optionally_overriding rng cr d_parameter genesis_utxo input epoch = Some (Some committee)"
    and "m \<in> set committee"
  shows "valid_candidacy cr genesis_utxo input m"
proof -
  let ?reg = "filter_trustless_candidates_registrations cr (registered_candidates input) genesis_utxo"
  let ?perm = "filter_invalid_permissioned_candidates cr (permissioned_candidates input)"
  obtain xs where run: "ariadne_v2_select rng (unat (snd d_parameter)) (unat (fst d_parameter)) ?reg ?perm
      (seed_from_nonce_and_sc_epoch (epoch_nonce input) epoch) = Some (Some xs)"
    and "committee = take MaxAuthorities (map member_of_candidate xs)"
    using assms(2)
    by (auto simp: select_authorities_optionally_overriding_def select_authorities_def select_candidates_def)
  then have "m \<in> set (map member_of_candidate xs)"
    using assms(3) by (auto dest: in_set_takeD simp del: set_map)
  then obtain x where "x \<in> set xs" "m = member_of_candidate x" by auto
  then show ?thesis
    using ariadne_v2_member [OF assms(1) run] registered_valid permissioned_valid by blast
qed

lemma example_selection:
  "select_authorities_optionally_overriding counting_rng plain_crypto (1, 1) \<lparr>utxo_tx_hash = [0], utxo_index = 0\<rparr>
      (example_candidate_input 0 0) 17
    = Some (Some [PermissionedMember 7 1, RegisteredMember 9 2 [5]])"
  by (simp add: select_authorities_optionally_overriding_def select_authorities_def select_candidates_def
      example_candidate_input_def filter_invalid_permissioned_candidates_def filter_trustless_candidates_registrations_def
      List.map_filter_simps validate_permissioned_candidate_data_def ok_or_def plain_crypto_def
      select_latest_valid_candidate_def validate_stake_def validate_registration_data_def verify_stake_pool_signature_def
      verify_sidechain_signature_def verify_tx_inputs_def ariadne_v2_select_def weighted_with_guaranteed_assignment_def
      select_guaranteed_def u128_sum_def select_remaining_def weighted_random_select_def counting_rng_def
      MaxAuthorities_def Let_def)

text \<open>
  C21: The selection of the runtime never panics and gives a full committee whenever
  there is a valid candidate: for a D-parameter whose seats fit 16 bits together and
  any candidates, the committee has one member per seat, up to the bound on
  authorities, and only without any valid candidate is there none.
\<close>

theorem committee_always_full:
  assumes "rng_ok rng" "unat (fst d_parameter) + unat (snd d_parameter) < 2 ^ 16"
    and "length (registered_candidates input) < 2 ^ 48" "length (permissioned_candidates input) < 2 ^ 48"
  shows "\<exists>outcome. select_authorities_optionally_overriding rng cr d_parameter genesis_utxo input epoch = Some outcome
    \<and> (if filter_trustless_candidates_registrations cr (registered_candidates input) genesis_utxo = []
          \<and> filter_invalid_permissioned_candidates cr (permissioned_candidates input) = []
       then outcome = (if fst d_parameter = 0 \<and> snd d_parameter = 0 then Some [] else None)
       else \<exists>committee. outcome = Some committee
         \<and> length committee = min 10000 (unat (fst d_parameter) + unat (snd d_parameter)))"
proof -
  define reg where "reg = filter_trustless_candidates_registrations cr (registered_candidates input) genesis_utxo"
  define perm where "perm = filter_invalid_permissioned_candidates cr (permissioned_candidates input)"
  define seed where "seed = seed_from_nonce_and_sc_epoch (epoch_nonce input) epoch"
  let ?p = "unat (fst d_parameter)" and ?r = "unat (snd d_parameter)"
  have run: "select_authorities_optionally_overriding rng cr d_parameter genesis_utxo input epoch =
      map_option (map_option (\<lambda>xs. take 10000 (map member_of_candidate xs))) (ariadne_v2_select rng ?r ?p reg perm seed)"
    by (simp add: select_authorities_optionally_overriding_def select_authorities_def select_candidates_def
        reg_def perm_def seed_def MaxAuthorities_def option.map_comp comp_def)
  show ?thesis
  proof (cases "reg = [] \<and> perm = []")
    case True
    have "?p + ?r > 0 \<longleftrightarrow> \<not> (fst d_parameter = 0 \<and> snd d_parameter = 0)" by (auto simp: unat_eq_0 neq0_conv [symmetric])
    moreover have "ariadne_v2_select rng ?r ?p reg perm seed = Some (if ?p + ?r > 0 then None else Some [])"
      using True assms(2) rng_ok_empty [OF assms(1)]
      by (simp add: ariadne_v2_select_def weighted_with_guaranteed_assignment_def)
    ultimately show ?thesis using True unfolding run reg_def [symmetric] perm_def [symmetric] by auto
  next
    case False
    have seats: "?r + ?p < 2 ^ 16" using assms(2) by simp
    have "length perm \<le> length (permissioned_candidates input)"
      by (simp add: perm_def filter_invalid_permissioned_candidates_def List.map_filter_def)
    then have "length perm * (?r + ?p) \<le> 2 ^ 48 * 2 ^ 16" using seats assms(4) by (intro mult_le_mono) auto
    then have "length perm * (?r + ?p) < 2 ^ 128" by (rule le_less_trans) simp
    then obtain xs where "ariadne_v2_select rng ?r ?p reg perm seed = Some (Some xs)" "length xs = ?r + ?p"
      using ariadne_v2_fair [OF assms(1) seats, of reg perm seed] False registered_total [OF assms(3) reg_def] seats
        seats_filled_length by blast
    with False show ?thesis unfolding run reg_def [symmetric] perm_def [symmetric] by (auto simp: add.commute min.commute)
  qed
qed

theorem committee_always_full_witness:
  "\<exists>committee. select_authorities_optionally_overriding counting_rng plain_crypto (2, 3) \<lparr>utxo_tx_hash = [0], utxo_index = 0\<rparr>
      (example_candidate_input 0 0) 17 = Some (Some committee) \<and> length committee = 5"
  using committee_always_full [OF counting_rng_ok, of "(2, 3)" "example_candidate_input 0 0" plain_crypto
      "\<lparr>utxo_tx_hash = [0], utxo_index = 0\<rparr>" 17]
  by (auto simp: example_candidate_input_def filter_invalid_permissioned_candidates_def List.map_filter_simps
      validate_permissioned_candidate_data_def ok_or_def plain_crypto_def)

end
