(* ===== verification/System_Parameters.thy ===== *)
theory System_Parameters
  imports Prelude
begin

text \<open>
  The system parameters pallet (\<open>pallets/system-parameters/src/lib.rs\<close>): the terms and
  conditions and the D-parameter, the numbers of permissioned and of registered
  seats that the committee selection uses.
\<close>

definition MAX_URL_SIZE :: nat where "MAX_URL_SIZE = 256"

record 'h TermsAndConditions =
  terms_hash :: 'h
  terms_url :: "u8 list"

record 'h system_parameters =
  TermsAndConditionsStorage :: "'h TermsAndConditions option"
  DParameterStorage :: "u16 \<times> u16"

datatype 'h parameters_event =
    TermsAndConditionsUpdated 'h "u8 list"
  | DParameterUpdated u16 u16

datatype parameters_error = ParametersBadOrigin | UrlTooLong

definition DEFAULT_TERMS_AND_CONDITIONS_HASH_BYTES :: "u8 list" where
  "DEFAULT_TERMS_AND_CONDITIONS_HASH_BYTES =
    [0xca, 0x85, 0xed, 0x77, 0xbc, 0xe6, 0x82, 0x88, 0xe5, 0x53, 0x00, 0xf0, 0x06, 0xcc, 0xd5,
     0xcc, 0xe5, 0xd4, 0x94, 0x0d, 0xc3, 0x9f, 0xc4, 0x11, 0x73, 0xa9, 0xc2, 0xec, 0xd1, 0xeb,
     0x61, 0x6e]"

text \<open>The default hash, cut to the width of the hash type and filled with zeros.\<close>

definition default_terms_hash :: "nat \<Rightarrow> u8 list" where
  "default_terms_hash hash_len =
    (let len = min hash_len (length DEFAULT_TERMS_AND_CONDITIONS_HASH_BYTES)
     in take len DEFAULT_TERMS_AND_CONDITIONS_HASH_BYTES @ replicate (hash_len - len) 0)"

text \<open>The genesis panics without a hash or a URL, and on a URL that is too long.\<close>

definition parameters_genesis ::
  "'h option \<Rightarrow> u8 list option \<Rightarrow> u16 option \<Rightarrow> u16 option \<Rightarrow> 'h system_parameters option" where
  "parameters_genesis hash url num_permissioned num_registered =
    (case (hash, url) of
       (Some h, Some u) \<Rightarrow>
         if length u > MAX_URL_SIZE then None
         else Some \<lparr>TermsAndConditionsStorage = Some \<lparr>terms_hash = h, terms_url = u\<rparr>,
           DParameterStorage = (case (num_permissioned, num_registered) of (Some p, Some r) \<Rightarrow> (p, r) | _ \<Rightarrow> (0, 0))\<rparr>
     | _ \<Rightarrow> None)"

definition update_terms_and_conditions ::
  "bool \<Rightarrow> 'h \<Rightarrow> u8 list \<Rightarrow> 'h system_parameters \<Rightarrow> (parameters_error, 'h parameters_event \<times> 'h system_parameters) result" where
  "update_terms_and_conditions system_origin hash url st =
    (if \<not> system_origin then Inl ParametersBadOrigin
     else if length url > MAX_URL_SIZE then Inl UrlTooLong
     else Inr (TermsAndConditionsUpdated hash url, st\<lparr>TermsAndConditionsStorage := Some \<lparr>terms_hash = hash, terms_url = url\<rparr>\<rparr>))"

definition update_d_parameter ::
  "bool \<Rightarrow> u16 \<Rightarrow> u16 \<Rightarrow> 'h system_parameters \<Rightarrow> (parameters_error, 'h parameters_event \<times> 'h system_parameters) result" where
  "update_d_parameter system_origin num_permissioned num_registered st =
    (if \<not> system_origin then Inl ParametersBadOrigin
     else Inr (DParameterUpdated num_permissioned num_registered, st\<lparr>DParameterStorage := (num_permissioned, num_registered)\<rparr>))"

definition get_d_parameter :: "'h system_parameters \<Rightarrow> u16 \<times> u16" where
  "get_d_parameter st = DParameterStorage st"

text \<open>The stored URL never exceeds its bound.\<close>

definition parameters_inv :: "'h system_parameters \<Rightarrow> bool" where
  "parameters_inv st \<longleftrightarrow> (\<forall>t. TermsAndConditionsStorage st = Some t \<longrightarrow> length (terms_url t) \<le> MAX_URL_SIZE)"

inductive parameters_step :: "'h system_parameters \<Rightarrow> 'h system_parameters \<Rightarrow> bool" where
  terms: "update_terms_and_conditions True hash url st = Inr (ev, st') \<Longrightarrow> parameters_step st st'"
| d_parameter: "update_d_parameter True p r st = Inr (ev, st') \<Longrightarrow> parameters_step st st'"

interpretation sp: transition_invariant "\<lambda>st. \<exists>h u p r. parameters_genesis h u p r = Some st" parameters_step parameters_inv
proof
  show "parameters_inv st" if "\<exists>h u p r. parameters_genesis h u p r = Some st" for st :: "'a system_parameters"
  proof -
    from that obtain h u p r where "parameters_genesis h u p r = Some st" by blast
    then show ?thesis
      by (cases h; cases u) (auto simp: parameters_genesis_def parameters_inv_def split: if_split_asm)
  qed
  show "parameters_inv st'" if "parameters_inv st" "parameters_step st st'" for st st' :: "'a system_parameters"
    using that(2,1)
    by cases (auto simp: update_terms_and_conditions_def update_d_parameter_def parameters_inv_def split: if_splits)
qed

lemma terms_url_bounded: "parameters_genesis h u p r = Some st \<Longrightarrow> parameters_step\<^sup>*\<^sup>* st st' \<Longrightarrow> parameters_inv st'"
  using sp.steps_inv sp.inv_init by blast

end
