(* ===== verification/Committee_Pallet.thy ===== *)
theory Committee_Pallet
  imports Committee_Selection System_Parameters
begin

text \<open>
  The session validator management pallet
  (\<open>partner-chains/toolkit/committee-selection/pallet/src\<close>): the selected, the queued
  and the current committee, the inherent that selects the next committee, and the
  session manager that hands committees to the session machinery and rotates them.

  The session pallet and the account system of Substrate, with their state, are
  parameters, as is the selection of authorities.
\<close>

section \<open>State\<close>

record ('i, 'k) CommitteeInfo =
  committee_epoch :: u64
  committee_members :: "('i, 'k) CommitteeMember list"

record ('i, 'k, 's) committee_storage =
  CurrentCommittee :: "('i, 'k) CommitteeInfo"
  QueuedCommittee :: "('i, 'k) CommitteeInfo"
  NextCommittee :: "('i, 'k) CommitteeInfo option"
  CommitteeScriptsConfiguration :: 's

datatype committee_error = CommitteeBadOrigin | InvalidEpoch | NextCommitteeAlreadySet

datatype committee_inherent_error =
    InvalidValidatorsMatchingHash "u8 list"
  | InvalidValidatorsHashMismatch "u8 list" "u8 list"
  | CommitteeNeedsToBeStoredOneEpochInAdvance

datatype ('i, 'k, 's) committee_call =
    SetCommittee "('i, 'k) CommitteeMember list" u64 "u8 list"
  | SetMainChainScripts 's

record ('i, 'k, 'inp, 'a, 'f) committee_config =
  config_select :: "'inp \<Rightarrow> u64 \<Rightarrow> ('i, 'k) CommitteeMember list option"
  max_validators :: nat
  blake2_inputs :: "'inp \<Rightarrow> u8 list"
  into_account :: "'i \<Rightarrow> 'a"
  account_exists :: "'a \<Rightarrow> 'f \<Rightarrow> bool"
  inc_providers :: "'a \<Rightarrow> 'f \<Rightarrow> 'f"
  set_keys :: "'a \<Rightarrow> 'k \<Rightarrow> 'f \<Rightarrow> 'f"
  has_keys :: "'a \<Rightarrow> 'f \<Rightarrow> bool"
  session_validators :: "'f \<Rightarrow> 'a list"
  session_queued :: "'f \<Rightarrow> 'a list"
  rotate_session :: "'a list option \<Rightarrow> 'f \<Rightarrow> 'f"

section \<open>Accounts and keys\<close>

definition member_account :: "('i, 'k, 'inp, 'a, 'f) committee_config \<Rightarrow> ('i, 'k) CommitteeMember \<Rightarrow> 'a" where
  "member_account cfg m = into_account cfg (authority_id m)"

definition provide_committee_accounts ::
  "('i, 'k, 'inp, 'a :: linorder, 'f) committee_config \<Rightarrow> ('i, 'k) CommitteeMember list \<Rightarrow> 'f \<Rightarrow> 'f" where
  "provide_committee_accounts cfg new_committee =
    fold (\<lambda>a f. if account_exists cfg a f then f else inc_providers cfg a f)
      (sort (remdups (map (member_account cfg) new_committee)))"

fun register_keys_loop ::
  "('i, 'k, 'inp, 'a, 'f) committee_config \<Rightarrow> ('i, 'k) CommitteeMember list \<Rightarrow> 'a list \<Rightarrow> 'f \<Rightarrow> 'f" where
  "register_keys_loop cfg [] keys_added f = f"
| "register_keys_loop cfg (m # ms) keys_added f =
    (let account_id = member_account cfg m
     in if account_id \<in> set keys_added then register_keys_loop cfg ms keys_added f
        else register_keys_loop cfg ms (account_id # keys_added) (set_keys cfg account_id (authority_keys m) f))"

definition register_committee_keys ::
  "('i, 'k, 'inp, 'a, 'f) committee_config \<Rightarrow> ('i, 'k) CommitteeMember list \<Rightarrow> 'f \<Rightarrow> 'f" where
  "register_committee_keys cfg new_committee = register_keys_loop cfg new_committee []"

section \<open>Genesis and hooks\<close>

definition committee_genesis ::
  "('i, 'k, 'inp, 'a :: linorder, 'f) committee_config \<Rightarrow> ('i, 'k) CommitteeMember list \<Rightarrow> 's \<Rightarrow> 'f
    \<Rightarrow> ('i, 'k, 's) committee_storage \<times> 'f" where
  "committee_genesis cfg initial_authorities main_chain_scripts f =
    (let initial_authorities = take (max_validators cfg) initial_authorities;
         committee_info = \<lparr>committee_epoch = 0, committee_members = initial_authorities\<rparr>
     in (\<lparr>CurrentCommittee = committee_info, QueuedCommittee = committee_info, NextCommittee = None,
          CommitteeScriptsConfiguration = main_chain_scripts\<rparr>,
         provide_committee_accounts cfg initial_authorities f))"

definition committee_on_initialize :: "nat \<Rightarrow> u64 \<Rightarrow> ('i, 'k, 's) committee_storage \<Rightarrow> ('i, 'k, 's) committee_storage" where
  "committee_on_initialize block_nr current_epoch st =
    (if block_nr = 1
     then st\<lparr>CurrentCommittee := (CurrentCommittee st)\<lparr>committee_epoch := current_epoch\<rparr>,
             QueuedCommittee := (QueuedCommittee st)\<lparr>committee_epoch := current_epoch\<rparr>\<rparr>
     else st)"

section \<open>The inherent\<close>

definition committee_create_inherent ::
  "('i, 'k, 'inp, 'a, 'f) committee_config \<Rightarrow> 'inp \<Rightarrow> ('i, 'k, 's) committee_storage \<Rightarrow> ('i, 'k, 's) committee_call option" where
  "committee_create_inherent cfg inputs st =
    (if NextCommittee st \<noteq> None then None
     else let for_epoch_number = committee_epoch (QueuedCommittee st) + 1;
              selection_inputs_hash = blake2_inputs cfg inputs
          in case config_select cfg inputs for_epoch_number of
               Some validators \<Rightarrow> Some (SetCommittee validators for_epoch_number selection_inputs_hash)
             | None \<Rightarrow> Some (SetCommittee (committee_members (QueuedCommittee st)) for_epoch_number selection_inputs_hash))"

fun committee_check_inherent ::
  "('i, 'k, 'inp, 'a, 'f) committee_config \<Rightarrow> ('i, 'k, 's) committee_call \<Rightarrow> 'inp \<Rightarrow> ('i, 'k, 's) committee_storage
    \<Rightarrow> (committee_inherent_error, unit) result" where
  "committee_check_inherent cfg (SetCommittee validators_param for_epoch_number_param call_selection_inputs_hash) inputs st =
    (let computed_selection_inputs_hash = blake2_inputs cfg inputs;
         validators = (case config_select cfg inputs for_epoch_number_param of
             Some validators \<Rightarrow> validators
           | None \<Rightarrow> committee_members (case NextCommittee st of Some c \<Rightarrow> c | None \<Rightarrow> QueuedCommittee st))
     in if validators_param \<noteq> validators
        then if call_selection_inputs_hash = computed_selection_inputs_hash
             then Inl (InvalidValidatorsMatchingHash computed_selection_inputs_hash)
             else Inl (InvalidValidatorsHashMismatch computed_selection_inputs_hash call_selection_inputs_hash)
        else Inr ())"
| "committee_check_inherent cfg (SetMainChainScripts _) inputs st = Inr ()"

fun committee_is_inherent :: "('i, 'k, 's) committee_call \<Rightarrow> bool" where
  "committee_is_inherent (SetCommittee _ _ _) = True"
| "committee_is_inherent (SetMainChainScripts _) = False"

definition committee_is_inherent_required :: "('i, 'k, 's) committee_storage \<Rightarrow> committee_inherent_error option" where
  "committee_is_inherent_required st = (if NextCommittee st = None then Some CommitteeNeedsToBeStoredOneEpochInAdvance else None)"

section \<open>Calls\<close>

definition set_committee ::
  "bool \<Rightarrow> ('i, 'k) CommitteeMember list \<Rightarrow> u64 \<Rightarrow> ('i, 'k, 's) committee_storage
    \<Rightarrow> (committee_error, ('i, 'k, 's) committee_storage) result" where
  "set_committee origin_none validators for_epoch_number st =
    (if \<not> origin_none then Inl CommitteeBadOrigin
     else if for_epoch_number \<noteq> committee_epoch (QueuedCommittee st) + 1 then Inl InvalidEpoch
     else if NextCommittee st \<noteq> None then Inl NextCommitteeAlreadySet
     else Inr (st\<lparr>NextCommittee := Some \<lparr>committee_epoch = for_epoch_number, committee_members = validators\<rparr>\<rparr>))"

definition set_committee_scripts ::
  "bool \<Rightarrow> 's \<Rightarrow> ('i, 'k, 's) committee_storage \<Rightarrow> (committee_error, ('i, 'k, 's) committee_storage) result" where
  "set_committee_scripts origin_allowed new_scripts st =
    (if \<not> origin_allowed then Inl CommitteeBadOrigin else Inr (st\<lparr>CommitteeScriptsConfiguration := new_scripts\<rparr>))"

definition get_next_unset_epoch_number :: "('i, 'k, 's) committee_storage \<Rightarrow> u64" where
  "get_next_unset_epoch_number st =
    (case NextCommittee st of Some next \<Rightarrow> committee_epoch next + 1 | None \<Rightarrow> committee_epoch (QueuedCommittee st) + 1)"

definition next_committee :: "('i, 'k, 'inp, 'a, 'f) committee_config \<Rightarrow> ('i, 'k, 's) committee_storage \<Rightarrow> 'i list option" where
  "next_committee cfg st =
    map_option (\<lambda>next. take (max_validators cfg) (map authority_id (committee_members next))) (NextCommittee st)"

definition rotate_committee_to_next_epoch ::
  "('i, 'k, 's) committee_storage \<Rightarrow> ('i, 'k) CommitteeMember list option \<times> ('i, 'k, 's) committee_storage" where
  "rotate_committee_to_next_epoch st =
    (let promoted = (QueuedCommittee st)\<lparr>committee_epoch := committee_epoch (QueuedCommittee st) + 1\<rparr>;
         st' = st\<lparr>CurrentCommittee := promoted\<rparr>
     in case NextCommittee st' of
          None \<Rightarrow> (None, st')
        | Some next \<Rightarrow> (Some (committee_members next), st'\<lparr>QueuedCommittee := next, NextCommittee := None\<rparr>))"

section \<open>The session manager\<close>

definition new_session_genesis ::
  "('i, 'k, 'inp, 'a :: linorder, 'f) committee_config \<Rightarrow> ('i, 'k, 's) committee_storage \<Rightarrow> 'f \<Rightarrow> 'a list option \<times> 'f" where
  "new_session_genesis cfg st f =
    (let committee = committee_members (CurrentCommittee st)
     in (Some (map (member_account cfg) committee),
         register_committee_keys cfg committee (provide_committee_accounts cfg committee f)))"

definition new_session ::
  "('i, 'k, 'inp, 'a :: linorder, 'f) committee_config \<Rightarrow> ('i, 'k, 's) committee_storage \<Rightarrow> 'f
    \<Rightarrow> 'a list option \<times> ('i, 'k, 's) committee_storage \<times> 'f" where
  "new_session cfg st f =
    (case rotate_committee_to_next_epoch st of
       (None, st') \<Rightarrow> (None, st', f)
     | (Some new_committee, st') \<Rightarrow>
         (Some (map (member_account cfg) new_committee), st',
          register_committee_keys cfg new_committee (provide_committee_accounts cfg new_committee f)))"

definition should_end_session :: "('i, 'k, 'inp, 'a, 'f) committee_config \<Rightarrow> u64 \<Rightarrow> ('i, 'k, 's) committee_storage \<Rightarrow> bool" where
  "should_end_session cfg current_epoch_number st =
    (if current_epoch_number > committee_epoch (QueuedCommittee st) then next_committee cfg st \<noteq> None else False)"

definition migrate_v1_to_v2 :: "('i, 'k, 's) committee_storage \<Rightarrow> ('i, 'k, 's) committee_storage" where
  "migrate_v1_to_v2 st = st\<lparr>QueuedCommittee := CurrentCommittee st\<rparr>"

section \<open>A block\<close>

text \<open>
  The hooks run before the inherents, the one of this pallet before the one of the
  session pallet, which asks whether the session ends and then rotates it.
\<close>

definition session_on_initialize ::
  "('i, 'k, 'inp, 'a :: linorder, 'f) committee_config \<Rightarrow> u64 \<Rightarrow> ('i, 'k, 's) committee_storage \<times> 'f
    \<Rightarrow> ('i, 'k, 's) committee_storage \<times> 'f" where
  "session_on_initialize cfg e = (\<lambda>(st, f).
    if should_end_session cfg e st
    then let (validators, st', f') = new_session cfg st f in (st', rotate_session cfg validators f')
    else (st, f))"

definition initialize_block ::
  "('i, 'k, 'inp, 'a :: linorder, 'f) committee_config \<Rightarrow> nat \<Rightarrow> u64 \<Rightarrow> ('i, 'k, 's) committee_storage \<times> 'f
    \<Rightarrow> ('i, 'k, 's) committee_storage \<times> 'f" where
  "initialize_block cfg n e = (\<lambda>(st, f). session_on_initialize cfg e (committee_on_initialize n e st, f))"

definition apply_inherent ::
  "('i, 'k, 's) committee_call option \<Rightarrow> ('i, 'k, 's) committee_storage \<Rightarrow> (committee_error, ('i, 'k, 's) committee_storage) result" where
  "apply_inherent call st =
    (case call of Some (SetCommittee validators e _) \<Rightarrow> set_committee True validators e st | _ \<Rightarrow> Inr st)"

definition committee_block ::
  "('i, 'k, 'inp, 'a :: linorder, 'f) committee_config \<Rightarrow> nat \<Rightarrow> u64 \<times> 'inp \<Rightarrow> ('i, 'k, 's) committee_storage \<times> 'f
    \<Rightarrow> (committee_error, ('i, 'k, 's) committee_storage \<times> 'f) result" where
  "committee_block cfg n = (\<lambda>(e, inputs) s.
    let (st, f) = initialize_block cfg n e s
    in bind_result (apply_inherent (committee_create_inherent cfg inputs st) st) (\<lambda>st'. Inr (st', f)))"

fun committee_blocks ::
  "('i, 'k, 'inp, 'a :: linorder, 'f) committee_config \<Rightarrow> nat \<Rightarrow> (u64 \<times> 'inp) list \<Rightarrow> ('i, 'k, 's) committee_storage \<times> 'f
    \<Rightarrow> (committee_error, ('i, 'k, 's) committee_storage \<times> 'f) result" where
  "committee_blocks cfg n [] s = Inr s"
| "committee_blocks cfg n (b # bs) s = bind_result (committee_block cfg n b s) (committee_blocks cfg (Suc n) bs)"

section \<open>The session machinery\<close>

text \<open>
  What the pallet relies on: a rotation applies the queued validators and queues the new
  ones, without those that have no session keys; providing for an account makes it
  exist, and the keys of an existing account can be set.
\<close>

definition session_ok :: "('i, 'k, 'inp, 'a, 'f) committee_config \<Rightarrow> bool" where
  "session_ok cfg \<longleftrightarrow>
    (\<forall>vs f. session_validators cfg (rotate_session cfg vs f) = session_queued cfg f)
    \<and> (\<forall>vs f. session_queued cfg (rotate_session cfg (Some vs) f) = filter (\<lambda>a. has_keys cfg a f) vs)
    \<and> (\<forall>a f. session_validators cfg (inc_providers cfg a f) = session_validators cfg f
        \<and> session_queued cfg (inc_providers cfg a f) = session_queued cfg f)
    \<and> (\<forall>a k f. session_validators cfg (set_keys cfg a k f) = session_validators cfg f
        \<and> session_queued cfg (set_keys cfg a k f) = session_queued cfg f)
    \<and> (\<forall>a b f. account_exists cfg b (inc_providers cfg a f) \<longleftrightarrow> b = a \<or> account_exists cfg b f)
    \<and> (\<forall>a b k f. account_exists cfg b (set_keys cfg a k f) \<longleftrightarrow> account_exists cfg b f)
    \<and> (\<forall>a b k f. account_exists cfg a f \<longrightarrow> has_keys cfg b (set_keys cfg a k f) = (b = a \<or> has_keys cfg b f))"

lemma session_laws:
  assumes "session_ok cfg"
  shows "session_validators cfg (rotate_session cfg vs f) = session_queued cfg f"
    and "session_queued cfg (rotate_session cfg (Some as) f) = filter (\<lambda>a. has_keys cfg a f) as"
    and "session_validators cfg (inc_providers cfg a f) = session_validators cfg f"
    and "session_queued cfg (inc_providers cfg a f) = session_queued cfg f"
    and "session_validators cfg (set_keys cfg a k f) = session_validators cfg f"
    and "session_queued cfg (set_keys cfg a k f) = session_queued cfg f"
    and "account_exists cfg b (inc_providers cfg a f) \<longleftrightarrow> b = a \<or> account_exists cfg b f"
    and "account_exists cfg b (set_keys cfg a k f) \<longleftrightarrow> account_exists cfg b f"
    and "account_exists cfg a f \<Longrightarrow> has_keys cfg b (set_keys cfg a k f) \<longleftrightarrow> b = a \<or> has_keys cfg b f"
  using assms unfolding session_ok_def by (elim conjE; simp)+

lemma provide_accounts:
  assumes "session_ok cfg"
  shows "session_validators cfg (provide_committee_accounts cfg ms f) = session_validators cfg f"
    and "session_queued cfg (provide_committee_accounts cfg ms f) = session_queued cfg f"
    and "m \<in> set ms \<Longrightarrow> account_exists cfg (member_account cfg m) (provide_committee_accounts cfg ms f)"
proof -
  let ?step = "\<lambda>a f. if account_exists cfg a f then f else inc_providers cfg a f"
  have loop: "session_validators cfg (fold ?step as f) = session_validators cfg f
      \<and> session_queued cfg (fold ?step as f) = session_queued cfg f
      \<and> (\<forall>b. account_exists cfg b (fold ?step as f) \<longleftrightarrow> b \<in> set as \<or> account_exists cfg b f)" for as f
    by (induction as arbitrary: f) (auto simp: session_laws [OF assms])
  show "session_validators cfg (provide_committee_accounts cfg ms f) = session_validators cfg f"
    "session_queued cfg (provide_committee_accounts cfg ms f) = session_queued cfg f"
    "m \<in> set ms \<Longrightarrow> account_exists cfg (member_account cfg m) (provide_committee_accounts cfg ms f)"
    unfolding provide_committee_accounts_def using loop by simp_all
qed

lemma register_keys:
  assumes "session_ok cfg"
    and "\<forall>m \<in> set ms. account_exists cfg (member_account cfg m) f" and "\<forall>a \<in> set added. has_keys cfg a f"
  shows "session_validators cfg (register_keys_loop cfg ms added f) = session_validators cfg f
    \<and> session_queued cfg (register_keys_loop cfg ms added f) = session_queued cfg f
    \<and> (\<forall>m \<in> set ms. has_keys cfg (member_account cfg m) (register_keys_loop cfg ms added f))
    \<and> (\<forall>a. has_keys cfg a f \<longrightarrow> has_keys cfg a (register_keys_loop cfg ms added f))"
  using assms(2,3)
proof (induction ms arbitrary: added f)
  case (Cons m ms)
  show ?case
  proof (cases "member_account cfg m \<in> set added")
    case True
    with Cons show ?thesis by (auto simp: Let_def)
  next
    case False
    let ?f = "set_keys cfg (member_account cfg m) (authority_keys m) f"
    have "\<forall>m \<in> set ms. account_exists cfg (member_account cfg m) ?f"
      "\<forall>a \<in> set (member_account cfg m # added). has_keys cfg a ?f" "\<forall>a. has_keys cfg a f \<longrightarrow> has_keys cfg a ?f"
      "session_validators cfg ?f = session_validators cfg f" "session_queued cfg ?f = session_queued cfg f"
      using Cons.prems by (auto simp: session_laws [OF assms(1)])
    with Cons.IH [of ?f "member_account cfg m # added"] False show ?thesis by (simp add: Let_def)
  qed
qed simp

text \<open>A rotation hands over the whole next committee.\<close>

lemma rotate_session_committee:
  assumes "session_ok cfg"
    and f'_def: "f' = register_committee_keys cfg ms (provide_committee_accounts cfg ms f)"
  shows "session_validators cfg (rotate_session cfg (Some (map (member_account cfg) ms)) f') = session_queued cfg f"
    and "session_queued cfg (rotate_session cfg (Some (map (member_account cfg) ms)) f') = map (member_account cfg) ms"
proof -
  have reg: "session_queued cfg f' = session_queued cfg f \<and> (\<forall>m \<in> set ms. has_keys cfg (member_account cfg m) f')"
    using register_keys [OF assms(1), of ms "provide_committee_accounts cfg ms f" "[]"] provide_accounts [OF assms(1)]
    by (simp add: f'_def register_committee_keys_def)
  then show "session_validators cfg (rotate_session cfg (Some (map (member_account cfg) ms)) f') = session_queued cfg f"
    by (simp add: session_laws [OF assms(1)])
  have "filter (\<lambda>a. has_keys cfg a f') (map (member_account cfg) ms) = map (member_account cfg) ms"
    using reg by (simp add: filter_id_conv)
  then show "session_queued cfg (rotate_session cfg (Some (map (member_account cfg) ms)) f') = map (member_account cfg) ms"
    by (simp only: session_laws [OF assms(1)])
qed

section \<open>The pipeline of committees\<close>

text \<open>
  The promise, without the storage: a list of the committees selected so far.  A block
  whose epoch is later than the one the last rotation was for rotates and selects one
  more, for the epoch after, falling back to the one before it.
\<close>

definition next_selection ::
  "('i, 'k, 'inp, 'a, 'f) committee_config \<Rightarrow> u64 \<Rightarrow> ('i, 'k) CommitteeMember list \<Rightarrow> ('i, 'k) CommitteeMember list list
    \<Rightarrow> 'inp \<Rightarrow> ('i, 'k) CommitteeMember list" where
  "next_selection cfg e1 g selected inputs =
    (case config_select cfg inputs (e1 + of_nat (length selected) + 1) of Some v \<Rightarrow> v | None \<Rightarrow> last (g # selected))"

fun selections ::
  "('i, 'k, 'inp, 'a, 'f) committee_config \<Rightarrow> u64 \<Rightarrow> ('i, 'k) CommitteeMember list \<Rightarrow> ('i, 'k) CommitteeMember list list
    \<Rightarrow> (u64 \<times> 'inp) list \<Rightarrow> ('i, 'k) CommitteeMember list list" where
  "selections cfg e1 g selected [] = selected"
| "selections cfg e1 g selected ((e, inputs) # bs) =
    selections cfg e1 g
      (if e1 + of_nat (length selected - 1) < e then selected @ [next_selection cfg e1 g selected inputs] else selected) bs"

definition pipelined ::
  "('i, 'k, 'inp, 'a, 'f) committee_config \<Rightarrow> u64 \<Rightarrow> ('i, 'k) CommitteeMember list \<Rightarrow> ('i, 'k) CommitteeMember list list
    \<Rightarrow> ('i, 'k, 's) committee_storage \<times> 'f \<Rightarrow> bool" where
  "pipelined cfg e1 g selected = (\<lambda>(st, f).
    \<exists>r. length selected = Suc r
      \<and> CurrentCommittee st = \<lparr>committee_epoch = e1 + of_nat r, committee_members = (g # g # selected) ! r\<rparr>
      \<and> QueuedCommittee st = \<lparr>committee_epoch = e1 + of_nat r, committee_members = (g # g # selected) ! Suc r\<rparr>
      \<and> NextCommittee st = Some \<lparr>committee_epoch = e1 + of_nat r + 1, committee_members = (g # g # selected) ! Suc (Suc r)\<rparr>
      \<and> session_validators cfg f = map (member_account cfg) ((g # g # selected) ! r)
      \<and> session_queued cfg f = map (member_account cfg) ((g # g # selected) ! Suc r))"

lemma session_rotates:
  assumes "should_end_session cfg e st" "NextCommittee st = Some next"
    and "session_on_initialize cfg e (st, f) = (st', f')"
  shows "CurrentCommittee st' = (QueuedCommittee st)\<lparr>committee_epoch := committee_epoch (QueuedCommittee st) + 1\<rparr>"
    and "QueuedCommittee st' = next" and "NextCommittee st' = None"
    and "f' = rotate_session cfg (Some (map (member_account cfg) (committee_members next)))
      (register_committee_keys cfg (committee_members next) (provide_committee_accounts cfg (committee_members next) f))"
  using assms
  by (auto simp: session_on_initialize_def new_session_def rotate_committee_to_next_epoch_def Let_def)

text \<open>A block selects a committee exactly when none is waiting.\<close>

lemma apply_created:
  "apply_inherent (committee_create_inherent cfg inputs st) st = Inr (case NextCommittee st of
      Some _ \<Rightarrow> st
    | None \<Rightarrow> st\<lparr>NextCommittee := Some \<lparr>committee_epoch = committee_epoch (QueuedCommittee st) + 1,
        committee_members = (case config_select cfg inputs (committee_epoch (QueuedCommittee st) + 1) of
            Some v \<Rightarrow> v | None \<Rightarrow> committee_members (QueuedCommittee st))\<rparr>\<rparr>)"
  by (auto simp: apply_inherent_def committee_create_inherent_def set_committee_def Let_def split: option.splits)

lemma nth_pipeline [simp]:
  "length selected = Suc r \<Longrightarrow> (g # selected @ [x]) ! r = (g # selected) ! r"
  "length selected = Suc r \<Longrightarrow> (selected @ [x]) ! r = selected ! r"
  "length selected = Suc r \<Longrightarrow> (selected @ [x]) ! Suc r = x"
  "length selected = Suc r \<Longrightarrow> last selected = selected ! r"
  using last_conv_nth [of selected] by (fastforce simp: nth_append nth_Cons split: nat.splits)+

lemma block_pipelined:
  assumes "session_ok cfg" "n \<noteq> 1" "pipelined cfg e1 g selected s"
  shows "\<exists>s'. committee_block cfg n (e, inputs) s = Inr s'
    \<and> pipelined cfg e1 g (if e1 + of_nat (length selected - 1) < e then selected @ [next_selection cfg e1 g selected inputs] else selected) s'"
proof -
  obtain st f where s: "s = (st, f)" by fastforce
  from assms(3) obtain r where len: "length selected = Suc r"
    and cur: "CurrentCommittee st = \<lparr>committee_epoch = e1 + of_nat r, committee_members = (g # g # selected) ! r\<rparr>"
    and que: "QueuedCommittee st = \<lparr>committee_epoch = e1 + of_nat r, committee_members = (g # g # selected) ! Suc r\<rparr>"
    and nxt: "NextCommittee st = Some \<lparr>committee_epoch = e1 + of_nat r + 1, committee_members = (g # g # selected) ! Suc (Suc r)\<rparr>"
    and val: "session_validators cfg f = map (member_account cfg) ((g # g # selected) ! r)"
    and ses: "session_queued cfg f = map (member_account cfg) ((g # g # selected) ! Suc r)"
    unfolding pipelined_def s by blast
  have ends: "should_end_session cfg e st \<longleftrightarrow> e1 + of_nat (length selected - 1) < e"
    by (simp add: should_end_session_def next_committee_def nxt que len)
  obtain st' f' where init: "session_on_initialize cfg e (st, f) = (st', f')" by fastforce
  have block: "committee_block cfg n (e, inputs) s = Inr (case NextCommittee st' of
      Some _ \<Rightarrow> st'
    | None \<Rightarrow> st'\<lparr>NextCommittee := Some \<lparr>committee_epoch = committee_epoch (QueuedCommittee st') + 1,
        committee_members = (case config_select cfg inputs (committee_epoch (QueuedCommittee st') + 1) of
            Some v \<Rightarrow> v | None \<Rightarrow> committee_members (QueuedCommittee st'))\<rparr>\<rparr>, f')"
    using assms(2) by (simp add: committee_block_def initialize_block_def committee_on_initialize_def s init apply_created)
  show ?thesis
  proof (cases "should_end_session cfg e st")
    case True
    note rot = session_rotates [OF True nxt init]
    moreover have "session_validators cfg f' = session_queued cfg f"
      "session_queued cfg f' = map (member_account cfg) ((g # g # selected) ! Suc (Suc r))"
      unfolding rot(4) using rotate_session_committee [OF assms(1) refl] by simp_all
    ultimately
    show ?thesis
      unfolding block using True ends len ses que
      by (auto simp: pipelined_def next_selection_def add.assoc add.commute split: option.splits)
  next
    case False
    then have "st' = st" "f' = f" using init by (auto simp: session_on_initialize_def)
    then show ?thesis
      unfolding block using False ends assms(3) nxt by (simp add: s)
  qed
qed

lemma first_block_pipelined:
  assumes "NextCommittee st = None" "committee_members (CurrentCommittee st) = g" "committee_members (QueuedCommittee st) = g"
    and "session_validators cfg f = map (member_account cfg) g" "session_queued cfg f = map (member_account cfg) g"
  shows "\<exists>s'. committee_block cfg 1 (e1, inputs) (st, f) = Inr s' \<and> pipelined cfg e1 g [next_selection cfg e1 g [] inputs] s'"
  using assms
  by (auto simp: committee_block_def initialize_block_def committee_on_initialize_def session_on_initialize_def
      should_end_session_def apply_created pipelined_def next_selection_def split: option.splits)

lemma blocks_pipelined:
  assumes "session_ok cfg"
  shows "1 < n \<Longrightarrow> pipelined cfg e1 g selected s
    \<Longrightarrow> \<exists>s'. committee_blocks cfg n bs s = Inr s' \<and> pipelined cfg e1 g (selections cfg e1 g selected bs) s'"
proof (induction bs arbitrary: n selected s)
  case (Cons b bs)
  obtain e inputs where b: "b = (e, inputs)" by fastforce
  have "n \<noteq> 1" using Cons.prems(1) by simp
  from block_pipelined [OF assms this Cons.prems(2), of e inputs] obtain s' where
    "committee_block cfg n b s = Inr s'"
    "pipelined cfg e1 g (if e1 + of_nat (length selected - 1) < e then selected @ [next_selection cfg e1 g selected inputs] else selected) s'"
    unfolding b by blast
  with Cons.IH [of "Suc n" _ s'] Cons.prems(1) show ?case by (simp only: b committee_blocks.simps selections.simps) simp
qed simp

lemma genesis_pipelined:
  assumes "session_ok cfg" and "committee_genesis cfg initial scripts f0 = (st0, f1)"
    and "g = take (max_validators cfg) initial"
    and "session_validators cfg f = map (member_account cfg) g" and "session_queued cfg f = map (member_account cfg) g"
  shows "\<exists>s. committee_blocks cfg 1 ((e1, inputs) # bs) (st0, f) = Inr s
    \<and> pipelined cfg e1 g (selections cfg e1 g [next_selection cfg e1 g [] inputs] bs) s"
proof -
  have "NextCommittee st0 = None" "committee_members (CurrentCommittee st0) = g" "committee_members (QueuedCommittee st0) = g"
    using assms(2,3) by (auto simp: committee_genesis_def Let_def)
  from first_block_pipelined [OF this assms(4,5), of e1 inputs] obtain s' where first:
    "committee_block cfg 1 (e1, inputs) (st0, f) = Inr s'" "pipelined cfg e1 g [next_selection cfg e1 g [] inputs] s'"
    by blast
  from blocks_pipelined [OF assms(1) _ first(2), of 2 bs] obtain s where
    "committee_blocks cfg 2 bs s' = Inr s" "pipelined cfg e1 g (selections cfg e1 g [next_selection cfg e1 g [] inputs] bs) s"
    by auto
  then show ?thesis using first(1) by (simp add: numeral_2_eq_2)
qed

lemma pipelined_members:
  assumes "pipelined cfg e1 g selected (st, f)"
    and "m \<in> set (committee_members (CurrentCommittee st)) \<or> m \<in> set (committee_members (QueuedCommittee st))
      \<or> (\<exists>next. NextCommittee st = Some next \<and> m \<in> set (committee_members next))"
  shows "\<exists>c \<in> set (g # selected). m \<in> set c"
proof -
  from assms(1) obtain r where len: "length selected = Suc r"
    and committees: "CurrentCommittee st = \<lparr>committee_epoch = e1 + of_nat r, committee_members = (g # g # selected) ! r\<rparr>"
    "QueuedCommittee st = \<lparr>committee_epoch = e1 + of_nat r, committee_members = (g # g # selected) ! Suc r\<rparr>"
    "NextCommittee st = Some \<lparr>committee_epoch = e1 + of_nat r + 1, committee_members = (g # g # selected) ! Suc (Suc r)\<rparr>"
    unfolding pipelined_def by blast
  have "(g # g # selected) ! i \<in> set (g # g # selected)" if "i \<le> Suc (Suc r)" for i
    by (rule nth_mem) (use that len in simp)
  then have mem: "(g # g # selected) ! i \<in> set (g # selected)" if "i \<le> Suc (Suc r)" for i
    using that by (metis list.simps(15) insert_absorb2)
  from assms(2) have "m \<in> set ((g # g # selected) ! r) \<or> m \<in> set ((g # g # selected) ! Suc r) \<or> m \<in> set ((g # g # selected) ! Suc (Suc r))"
    by (simp add: committees)
  with mem [of r] mem [of "Suc r"] mem [of "Suc (Suc r)"] show ?thesis by (meson le_SucI le_refl)
qed

lemma block_epochs:
  assumes "n \<noteq> 1" "NextCommittee st = Some next" "committee_epoch next = committee_epoch (QueuedCommittee st) + 1"
  shows "\<exists>st' f' next'. committee_block cfg n (e, inputs) (st, f) = Inr (st', f') \<and> NextCommittee st' = Some next'
    \<and> committee_epoch next' = committee_epoch (QueuedCommittee st') + 1
    \<and> committee_epoch (QueuedCommittee st') =
      (if committee_epoch (QueuedCommittee st) < e then committee_epoch (QueuedCommittee st) + 1 else committee_epoch (QueuedCommittee st))"
proof -
  obtain st' f' where init: "session_on_initialize cfg e (st, f) = (st', f')" by fastforce
  have "should_end_session cfg e st \<longleftrightarrow> committee_epoch (QueuedCommittee st) < e"
    by (simp add: should_end_session_def next_committee_def assms(2))
  moreover have "st' = st \<and> f' = f" if "\<not> should_end_session cfg e st"
    using init that by (simp add: session_on_initialize_def)
  ultimately show ?thesis
    using assms init session_rotates [OF _ assms(2) init]
    by (cases "should_end_session cfg e st")
      (simp_all add: committee_block_def initialize_block_def committee_on_initialize_def apply_created)
qed

text \<open>
  A session machinery for the examples, with the validators, the queued validators, the
  accounts and the accounts with keys as lists.
\<close>

definition session_with ::
  "('inp \<Rightarrow> u64 \<Rightarrow> (nat, nat) CommitteeMember list option)
    \<Rightarrow> (nat, nat, 'inp, nat, nat list \<times> nat list \<times> nat list \<times> nat list) committee_config" where
  "session_with select = \<lparr>
    config_select = select,
    max_validators = 10,
    blake2_inputs = (\<lambda>inputs. [0]),
    into_account = (\<lambda>i. i),
    account_exists = (\<lambda>a (vs, qs, as, ks). a \<in> set as),
    inc_providers = (\<lambda>a (vs, qs, as, ks). (vs, qs, a # as, ks)),
    set_keys = (\<lambda>a k (vs, qs, as, ks). (vs, qs, as, if a \<in> set as then a # ks else ks)),
    has_keys = (\<lambda>a (vs, qs, as, ks). a \<in> set ks),
    session_validators = (\<lambda>(vs, qs, as, ks). vs),
    session_queued = (\<lambda>(vs, qs, as, ks). qs),
    rotate_session = (\<lambda>new (vs, qs, as, ks). (qs, case new of None \<Rightarrow> qs | Some ns \<Rightarrow> filter (\<lambda>a. a \<in> set ks) ns, as, ks))\<rparr>"

lemma session_with_ok: "session_ok (session_with select)"
  by (auto simp: session_ok_def session_with_def split: prod.splits)

text \<open>A selection of one member, which returns nothing on the input 0.\<close>

definition listed_session :: "(nat, nat, nat, nat, nat list \<times> nat list \<times> nat list \<times> nat list) committee_config" where
  "listed_session = session_with (\<lambda>inputs e. if inputs = 0 then None else Some [PermissionedMember inputs 1])"

lemmas listed_session_defs = listed_session_def session_with_def

lemma listed_session_ok: "session_ok listed_session"
  by (simp add: listed_session_def session_with_ok)

text \<open>Every committee of the pipeline is the genesis one or one that was selected.\<close>

lemma selections_selected:
  assumes "c \<in> set (selections cfg e1 g selected bs)"
  shows "c = g \<or> c \<in> set selected \<or> (\<exists>(e, inputs) \<in> set bs. \<exists>epoch. config_select cfg inputs epoch = Some c)"
  using assms
proof (induction bs arbitrary: selected)
  case (Cons b bs)
  obtain e inputs where b: "b = (e, inputs)" by fastforce
  define selected' where "selected' = (if e1 + of_nat (length selected - 1) < e
    then selected @ [next_selection cfg e1 g selected inputs] else selected)"
  have extended: "d = g \<or> d \<in> set selected \<or> (\<exists>epoch. config_select cfg inputs epoch = Some d)" if "d \<in> set selected'" for d
    using that last_in_set [of selected] by (auto simp: selected'_def next_selection_def split: option.splits if_splits)
  have "c = g \<or> c \<in> set selected' \<or> (\<exists>(e, inputs) \<in> set bs. \<exists>epoch. config_select cfg inputs epoch = Some c)"
    using Cons.IH [of selected'] Cons.prems by (simp add: b selected'_def)
  then show ?case using extended [of c] by (cases "c \<in> set selected'") (auto simp: b)
qed simp

section \<open>The committee of the runtime\<close>

text \<open>
  The runtime selects from the inputs of the inherent and the D-parameter of the system
  parameters pallet.  A selection that panics selects nothing here.
\<close>

definition runtime_select_authorities ::
  "'g rng_lib \<Rightarrow> ('i :: linorder, 'k :: linorder) candidate_crypto \<Rightarrow> candidate_utxo
    \<Rightarrow> 'h system_parameters \<times> AuthoritySelectionInputs \<Rightarrow> u64 \<Rightarrow> ('i, 'k) CommitteeMember list option" where
  "runtime_select_authorities rng cr genesis_utxo = (\<lambda>(sp, input) sidechain_epoch.
    case select_authorities_optionally_overriding rng cr (get_d_parameter sp) genesis_utxo input sidechain_epoch of
      Some outcome \<Rightarrow> outcome | None \<Rightarrow> None)"

lemma runtime_selected_valid:
  assumes "rng_ok rng" "runtime_select_authorities rng cr genesis_utxo (sp, input) epoch = Some c" "m \<in> set c"
  shows "valid_candidacy cr genesis_utxo input m"
proof (rule committee_members_valid [OF assms(1) _ assms(3)])
  show "select_authorities_optionally_overriding rng cr (get_d_parameter sp) genesis_utxo input epoch = Some (Some c)"
    using assms(2) by (auto simp: runtime_select_authorities_def split: option.splits)
qed

section \<open>Properties of the pallet\<close>



text \<open>
  C20: The inherent survives the rotation.  A block author creates the call after the
  hooks of the block, when a due rotation has already moved the committees, while the
  other nodes check it against the state before the block.  Still, whatever the
  selection returns, and also when it returns nothing and the previous committee is
  kept, the check accepts the call and the call succeeds.
\<close>

theorem inherent_survives_rotation:
  assumes "initialize_block cfg n e (st, f) = (st', f')" and "committee_create_inherent cfg inputs st' = Some call"
  shows "committee_check_inherent cfg call inputs st = Inr () \<and> committee_is_inherent call
    \<and> (\<exists>st''. apply_inherent (Some call) st' = Inr st'' \<and> committee_is_inherent_required st'' = None)"
proof -
  let ?st = "committee_on_initialize n e st"
  have init: "session_on_initialize cfg e (?st, f) = (st', f')" using assms(1) by (simp add: initialize_block_def)
  have same: "NextCommittee ?st = NextCommittee st" "committee_members (QueuedCommittee ?st) = committee_members (QueuedCommittee st)"
    by (simp_all add: committee_on_initialize_def)
  have fallback: "committee_members (QueuedCommittee st') = committee_members (case NextCommittee st of Some c \<Rightarrow> c | None \<Rightarrow> QueuedCommittee st)"
  proof (cases "should_end_session cfg e ?st")
    case True
    then obtain c where "NextCommittee ?st = Some c"
      by (auto simp: should_end_session_def next_committee_def split: if_splits)
    with session_rotates [OF True this init] show ?thesis using same by simp
  next
    case False
    then have "st' = ?st" using init by (simp add: session_on_initialize_def)
    moreover have "NextCommittee st' = None" using assms(2) by (auto simp: committee_create_inherent_def split: if_splits)
    ultimately show ?thesis using same by simp
  qed
  have call: "call = SetCommittee (case config_select cfg inputs (committee_epoch (QueuedCommittee st') + 1) of
      Some v \<Rightarrow> v | None \<Rightarrow> committee_members (QueuedCommittee st')) (committee_epoch (QueuedCommittee st') + 1) (blake2_inputs cfg inputs)"
    and none: "NextCommittee st' = None"
    using assms(2) by (auto simp: committee_create_inherent_def Let_def split: if_splits option.splits)
  then show ?thesis
    unfolding call using fallback none
    by (auto simp: apply_inherent_def set_committee_def committee_is_inherent_required_def split: option.splits)
qed

theorem inherent_survives_rotation_witness:
  "\<exists>st f st' f' call. initialize_block listed_session 5 (12 :: u64) (st, f) = (st', f')
    \<and> QueuedCommittee (st :: (nat, nat, unit) committee_storage) \<noteq> QueuedCommittee st'
    \<and> committee_create_inherent listed_session 0 st' = Some call \<and> committee_check_inherent listed_session call 0 st = Inr ()"
proof -
  let ?c = "\<lambda>e i. \<lparr>committee_epoch = e, committee_members = [PermissionedMember i (1 :: nat)]\<rparr>"
  let ?st = "\<lparr>CurrentCommittee = ?c 11 4, QueuedCommittee = ?c 11 5, NextCommittee = Some (?c 12 6), CommitteeScriptsConfiguration = ()\<rparr>"
  obtain st' f' where init: "initialize_block listed_session 5 12 (?st, ([4], [5], [], [])) = (st', f')"
    by (metis surj_pair)
  then have st': "QueuedCommittee st' = ?c 12 6" "NextCommittee st' = None"
    by (auto simp: initialize_block_def committee_on_initialize_def session_on_initialize_def should_end_session_def
        next_committee_def new_session_def rotate_committee_to_next_epoch_def)
  then obtain call where call: "committee_create_inherent listed_session 0 st' = Some call"
    by (auto simp: committee_create_inherent_def listed_session_defs Let_def)
  from inherent_survives_rotation [OF init call] have "committee_check_inherent listed_session call 0 ?st = Inr ()" by blast
  moreover have "QueuedCommittee ?st \<noteq> QueuedCommittee st'" using st' by simp
  ultimately show ?thesis using init call by blast
qed

text \<open>
  C25: After epochs without blocks the pallet catches up: each block of an epoch rotates
  once, until the queued committee is the one selected for that epoch, and then no
  more, so that no committee is skipped and none is rotated in early.
\<close>

theorem committee_catches_up:
  assumes "1 < n" "NextCommittee st = Some nxt" "committee_epoch nxt = committee_epoch (QueuedCommittee st) + 1"
    and "committee_epoch (QueuedCommittee st) \<le> e"
  shows "\<exists>st' f'. committee_blocks cfg n (map (\<lambda>inputs. (e, inputs)) inps) (st, f) = Inr (st', f')
    \<and> unat (committee_epoch (QueuedCommittee st')) = min (unat e) (unat (committee_epoch (QueuedCommittee st)) + length inps)"
  using assms
proof (induction inps arbitrary: n st nxt f)
  case Nil
  then show ?case by (simp add: word_le_nat_alt)
next
  case (Cons inputs inps)
  let ?q = "committee_epoch (QueuedCommittee st)"
  have "n \<noteq> 1" using Cons.prems(1) by simp
  from block_epochs [OF this Cons.prems(2,3), of cfg e inputs f] obtain st' f' nxt' where
    block: "committee_block cfg n (e, inputs) (st, f) = Inr (st', f')" "NextCommittee st' = Some nxt'"
      "committee_epoch nxt' = committee_epoch (QueuedCommittee st') + 1"
    and q: "committee_epoch (QueuedCommittee st') = (if ?q < e then ?q + 1 else ?q)"
    by blast
  have step: "unat (committee_epoch (QueuedCommittee st')) = min (unat e) (unat ?q + 1)"
  proof (cases "?q < e")
    case True
    moreover have "unat e < 2 ^ LENGTH(64)" by (rule unsigned_less)
    ultimately have "unat (?q + 1) = unat ?q + 1" by (simp add: unat_word_ariths word_less_nat_alt)
    with True q show ?thesis by (simp add: word_less_nat_alt)
  next
    case False
    with q Cons.prems(4) show ?thesis by (simp add: word_less_nat_alt word_le_nat_alt)
  qed
  then have "committee_epoch (QueuedCommittee st') \<le> e" by (simp add: word_le_nat_alt)
  from Cons.IH [OF _ block(2,3) this, of "Suc n" f'] Cons.prems(1) obtain st'' f'' where
    "committee_blocks cfg (Suc n) (map (\<lambda>inputs. (e, inputs)) inps) (st', f') = Inr (st'', f'')"
    "unat (committee_epoch (QueuedCommittee st'')) = min (unat e) (unat (committee_epoch (QueuedCommittee st')) + length inps)"
    by auto
  with block(1) step show ?case by auto
qed

theorem committee_catches_up_witness:
  "\<exists>st f st' f'. committee_epoch (QueuedCommittee st) = 11
    \<and> committee_blocks listed_session 5 [(14 :: u64, 7), (14, 0), (14, 9), (14, 2)] (st :: (nat, nat, unit) committee_storage, f) = Inr (st', f')
    \<and> unat (committee_epoch (QueuedCommittee st')) = 14"
proof -
  let ?c = "\<lambda>e i. \<lparr>committee_epoch = e, committee_members = [PermissionedMember i (1 :: nat)]\<rparr>"
  let ?st = "\<lparr>CurrentCommittee = ?c 11 4, QueuedCommittee = ?c 11 5, NextCommittee = Some (?c 12 6), CommitteeScriptsConfiguration = ()\<rparr>"
  from committee_catches_up [of 5 ?st "?c 12 6" 14 listed_session "[7, 0, 9, 2]" "([4], [5], [], [])"]
  obtain st' f' where "committee_blocks listed_session 5 [(14, 7), (14, 0), (14, 9), (14, 2)] (?st, ([4], [5], [], [])) = Inr (st', f')"
    "unat (committee_epoch (QueuedCommittee st')) = 14"
    by auto
  moreover have "committee_epoch (QueuedCommittee ?st) = 11" by simp
  ultimately show ?thesis by blast
qed



end
