(* ===== verification/Mainchain_Epochs.thy ===== *)
theory Mainchain_Epochs
  imports Prelude
begin

text \<open>
  Time: the epochs and slots of Cardano (\<open>sidechain/domain/src/mainchain_epoch.rs\<close>),
  those of the partner chain (\<open>sidechain/sidechain-slots/src/lib.rs\<close>) with the pallet
  that notices new epochs (\<open>sidechain/pallet/src/lib.rs\<close>), and the checks a node makes
  of their configuration (\<open>node/src/cfg/midnight_cfg/invariants.rs\<close>).  A division by
  zero panics, which is \<open>None\<close>.
\<close>

section \<open>Epochs of the main chain\<close>

record MainchainEpochConfig =
  epoch_duration_millis :: u64
  slot_duration_millis :: u64
  first_epoch_timestamp_millis :: u64
  first_epoch_number :: u32
  first_slot_number :: u64

datatype EpochDerivationError = TimestampTooSmall | EpochTooBig | EpochTooSmall | SlotTooSmall

definition checked_div :: "u64 \<Rightarrow> u64 \<Rightarrow> u64 option" where
  "checked_div a b = (if b = 0 then None else Some (a div b))"

definition mc_slots_per_epoch :: "MainchainEpochConfig \<Rightarrow> u64" where
  "mc_slots_per_epoch cfg = epoch_duration_millis cfg div 1000"

text \<open>Narrowing a 64-bit number to 32 bits fails when it does not fit.\<close>

definition try_u32 :: "'e \<Rightarrow> u64 \<Rightarrow> ('e, u32) result" where
  "try_u32 e a = (if unat a < 2 ^ 32 then Inr (ucast a) else Inl e)"

definition epochs_passed :: "MainchainEpochConfig \<Rightarrow> u64 \<Rightarrow> (EpochDerivationError, u32) result option" where
  "epochs_passed cfg timestamp =
    (case checked_sub timestamp (first_epoch_timestamp_millis cfg) of
       None \<Rightarrow> Some (Inl TimestampTooSmall)
     | Some time_elapsed \<Rightarrow>
         map_option (\<lambda>q. bind_result (try_u32 EpochTooBig q) (\<lambda>res. if unat res > 2 ^ 31 - 1 then Inl EpochTooBig else Inr res))
           (checked_div time_elapsed (epoch_duration_millis cfg)))"

definition timestamp_to_mainchain_epoch :: "MainchainEpochConfig \<Rightarrow> u64 \<Rightarrow> (EpochDerivationError, u32) result option" where
  "timestamp_to_mainchain_epoch cfg timestamp =
    map_option (\<lambda>r. bind_result r (\<lambda>passed. Inr (saturating_add (first_epoch_number cfg) passed))) (epochs_passed cfg timestamp)"

definition timestamp_to_mainchain_slot_number :: "MainchainEpochConfig \<Rightarrow> u64 \<Rightarrow> (EpochDerivationError, u64) result option" where
  "timestamp_to_mainchain_slot_number cfg timestamp =
    (case checked_sub timestamp (first_epoch_timestamp_millis cfg) of
       None \<Rightarrow> Some (Inl TimestampTooSmall)
     | Some time_elapsed \<Rightarrow>
         map_option (\<lambda>q. Inr (first_slot_number cfg + q)) (checked_div time_elapsed (slot_duration_millis cfg)))"

definition mainchain_epoch_to_timestamp :: "MainchainEpochConfig \<Rightarrow> u32 \<Rightarrow> u64" where
  "mainchain_epoch_to_timestamp cfg epoch =
    first_epoch_timestamp_millis cfg + epoch_duration_millis cfg * ucast epoch"

definition first_slot_of_epoch :: "MainchainEpochConfig \<Rightarrow> u32 \<Rightarrow> (EpochDerivationError, u64) result" where
  "first_slot_of_epoch cfg epoch =
    bind_result (ok_or EpochTooSmall (checked_sub epoch (first_epoch_number cfg))) (\<lambda>since.
      Inr (ucast since * mc_slots_per_epoch cfg + first_slot_number cfg))"

definition epoch_for_slot :: "MainchainEpochConfig \<Rightarrow> u64 \<Rightarrow> (EpochDerivationError, u32) result option" where
  "epoch_for_slot cfg slot =
    (case checked_sub slot (first_slot_number cfg) of
       None \<Rightarrow> Some (Inl SlotTooSmall)
     | Some since \<Rightarrow>
         map_option (\<lambda>q. bind_result (try_u32 EpochTooBig q) (\<lambda>epochs. Inr (first_epoch_number cfg + epochs)))
           (checked_div since (mc_slots_per_epoch cfg)))"

section \<open>Slots and epochs of the partner chain\<close>

record ScSlotConfig =
  slots_per_epoch :: u32
  slot_duration :: u64

definition epoch_number :: "u64 \<Rightarrow> u32 \<Rightarrow> u64 option" where
  "epoch_number slot spe = checked_div slot (ucast spe)"

definition sc_first_slot_number :: "u64 \<Rightarrow> u32 \<Rightarrow> u64" where
  "sc_first_slot_number epoch spe = epoch * ucast spe"

definition slot_number_in_epoch :: "u64 \<Rightarrow> u32 \<Rightarrow> u32 option" where
  "slot_number_in_epoch slot spe = (if spe = 0 then None else Some (ucast (slot mod ucast spe)))"

definition is_last_slot_of_an_epoch :: "u64 \<Rightarrow> u32 \<Rightarrow> bool option" where
  "is_last_slot_of_an_epoch slot spe = map_option (\<lambda>n. n = spe - 1) (slot_number_in_epoch slot spe)"

text \<open>The start of a slot fails when it does not fit 64 bits (\<open>Slot::timestamp\<close>).\<close>

definition slot_timestamp :: "u64 \<Rightarrow> u64 \<Rightarrow> u64 option" where
  "slot_timestamp slot duration = checked_mul duration slot"

definition slot_from_timestamp :: "ScSlotConfig \<Rightarrow> u64 \<Rightarrow> u64 option" where
  "slot_from_timestamp cfg timestamp = checked_div timestamp (slot_duration cfg)"

definition epoch_start_time :: "ScSlotConfig \<Rightarrow> u64 \<Rightarrow> u64 option" where
  "epoch_start_time cfg epoch = slot_timestamp (sc_first_slot_number epoch (slots_per_epoch cfg)) (slot_duration cfg)"

section \<open>The sidechain pallet\<close>

record 'u sidechain_storage =
  EpochNumber :: "u64 option"
  SlotsPerEpoch :: u32
  GenesisUtxo :: 'u

definition sidechain_genesis :: "'u \<Rightarrow> u32 \<Rightarrow> 'u sidechain_storage" where
  "sidechain_genesis utxo spe = \<lparr>EpochNumber = None, SlotsPerEpoch = spe, GenesisUtxo = utxo\<rparr>"

definition current_epoch_number :: "u64 \<Rightarrow> 'u sidechain_storage \<Rightarrow> u64 option" where
  "current_epoch_number current_slot st = epoch_number current_slot (SlotsPerEpoch st)"

text \<open>The hook returns the epochs it calls \<open>on_new_epoch\<close> with, if it does.\<close>

definition sidechain_on_initialize :: "u64 \<Rightarrow> 'u sidechain_storage \<Rightarrow> ((u64 \<times> u64) option \<times> 'u sidechain_storage) option" where
  "sidechain_on_initialize current_slot st =
    map_option (\<lambda>real_epoch.
      case EpochNumber st of
        Some saved_epoch \<Rightarrow>
          if saved_epoch \<noteq> real_epoch then (Some (saved_epoch, real_epoch), st\<lparr>EpochNumber := Some real_epoch\<rparr>) else (None, st)
      | None \<Rightarrow> (None, st\<lparr>EpochNumber := Some real_epoch\<rparr>))
    (current_epoch_number current_slot st)"

section \<open>The checks of the configuration\<close>

datatype MainchainEpochConfigError =
    EpochDurationZero
  | SlotDurationZero
  | EpochDurationBelowMinimum u64 u64
  | EpochNotDivisibleBySlot u64 u64
  | UnsupportedSlotDuration u64

datatype ConsensusConfigCoherenceError =
    MainchainEpochNotDivisibleBySidechainEpoch u64 nat
  | SidechainEpochZero u32 u64

definition MIN_EPOCH_DURATION_MILLIS :: u64 where "MIN_EPOCH_DURATION_MILLIS = 1000"

definition check_mainchain_epoch_invariants :: "MainchainEpochConfig \<Rightarrow> (MainchainEpochConfigError, unit) result" where
  "check_mainchain_epoch_invariants cfg =
    (let e = epoch_duration_millis cfg; s = slot_duration_millis cfg in
     if e = 0 then Inl EpochDurationZero
     else if s = 0 then Inl SlotDurationZero
     else if e < MIN_EPOCH_DURATION_MILLIS then Inl (EpochDurationBelowMinimum e MIN_EPOCH_DURATION_MILLIS)
     else if e mod s \<noteq> 0 then Inl (EpochNotDivisibleBySlot e s)
     else if s \<noteq> 1000 then Inl (UnsupportedSlotDuration s)
     else Inr ())"

text \<open>The length of an epoch is computed in 128 bits, where the product always fits.\<close>

definition check_sidechain_mainchain_coherence ::
  "MainchainEpochConfig \<Rightarrow> ScSlotConfig \<Rightarrow> (ConsensusConfigCoherenceError, unit) result" where
  "check_sidechain_mainchain_coherence mc sc =
    (let mc_epoch = epoch_duration_millis mc;
         sc_epoch = unat (slots_per_epoch sc) * unat (slot_duration sc)
     in if sc_epoch = 0 then Inl (SidechainEpochZero (slots_per_epoch sc) (slot_duration sc))
        else if unat mc_epoch mod sc_epoch \<noteq> 0 then Inl (MainchainEpochNotDivisibleBySidechainEpoch mc_epoch sc_epoch)
        else Inr ())"

section \<open>Lemmas\<close>

lemma checks_passed:
  assumes "check_mainchain_epoch_invariants cfg = Inr ()"
  obtains k where "0 < k" "unat (epoch_duration_millis cfg) = 1000 * k" "slot_duration_millis cfg = 1000" "unat (mc_slots_per_epoch cfg) = k"
proof -
  have *: "slot_duration_millis cfg = 1000" "epoch_duration_millis cfg \<noteq> 0" "epoch_duration_millis cfg mod 1000 = 0"
    using assms by (auto simp: check_mainchain_epoch_invariants_def Let_def split: if_splits)
  have "unat (epoch_duration_millis cfg) mod 1000 = unat (epoch_duration_millis cfg mod 1000)" by (simp add: unat_mod)
  then have "unat (epoch_duration_millis cfg) mod 1000 = 0" by (simp add: *(3))
  then obtain k where k: "unat (epoch_duration_millis cfg) = 1000 * k" by auto
  moreover have "k \<noteq> 0" using k *(2) by (metis mult_0_right unat_eq_zero)
  moreover have "unat (mc_slots_per_epoch cfg) = k" using k by (simp add: mc_slots_per_epoch_def unat_div)
  ultimately show thesis using that *(1) by blast
qed

lemma checked_sub_ge: "b \<le> a \<Longrightarrow> checked_sub a b = Some (a - b)" "unat (a - b) = unat a - unat b" if "b \<le> a" for a b :: "'a :: len word"
  using that by (simp_all add: checked_sub_def unat_sub)

lemma unat_ucast_u32 [simp]: "unat (ucast (a :: u32) :: u64) = unat a"
proof -
  have "unat a < 2 ^ LENGTH(32)" by (rule unsigned_less)
  then show ?thesis by (simp add: unsigned_ucast_eq take_bit_eq_mod)
qed

lemma unat_ucast_small: "unat (a :: u64) < 2 ^ 32 \<Longrightarrow> unat (ucast a :: u32) = unat a"
  by (simp add: unsigned_ucast_eq take_bit_eq_mod)

lemma word_add_unat: "unat a + unat b < 2 ^ LENGTH('a) \<Longrightarrow> unat (a + b) = unat a + unat b" for a b :: "'a :: len word"
  by (simp add: unat_word_ariths)

text \<open>The number of the partner chain's epoch at a time, by its slot.\<close>

definition sc_epoch_at :: "ScSlotConfig \<Rightarrow> u64 \<Rightarrow> u64 option" where
  "sc_epoch_at cfg timestamp = Option.bind (slot_from_timestamp cfg timestamp) (\<lambda>slot. epoch_number slot (slots_per_epoch cfg))"

lemma sc_epoch_at_value:
  assumes "0 < unat (slots_per_epoch cfg) * unat (slot_duration cfg)"
  shows "\<exists>e. sc_epoch_at cfg ts = Some e \<and> unat e = unat ts div (unat (slots_per_epoch cfg) * unat (slot_duration cfg))"
proof -
  have "slot_duration cfg \<noteq> 0" "slots_per_epoch cfg \<noteq> 0" using assms by auto
  moreover from this(2) have "(ucast (slots_per_epoch cfg) :: u64) \<noteq> 0" by (metis unat_0 unat_eq_zero unat_ucast_u32)
  ultimately show ?thesis
    by (simp add: sc_epoch_at_def slot_from_timestamp_def epoch_number_def checked_div_def unat_div div_mult2_eq [symmetric] mult.commute)
qed

lemma div_pred_iff: "0 < t \<Longrightarrow> 0 < L \<Longrightarrow> (t - 1) div L \<noteq> t div L \<longleftrightarrow> L dvd t" for t L :: nat
  using div_Suc [of "t - 1" L] by (auto simp: dvd_eq_mod_eq_0 split: if_splits)

section \<open>Properties\<close>

text \<open>
  C31: For a configuration that passes the checks, the two derivations of the Cardano
  epoch agree: the epoch of a time is the epoch of the slot of that time, the slot lies
  between the first slot of that epoch and the first one of the next, and nothing
  divides by zero.
\<close>

theorem epochs_and_slots_agree:
  assumes checks: "check_mainchain_epoch_invariants cfg = Inr ()"
    and time: "first_epoch_timestamp_millis cfg \<le> ts"
    and epoch_fits: "unat (first_epoch_number cfg) + (unat ts - unat (first_epoch_timestamp_millis cfg)) div unat (epoch_duration_millis cfg) < 2 ^ 31"
    and slot_fits: "unat (first_slot_number cfg) + (unat ts - unat (first_epoch_timestamp_millis cfg)) div 1000 < 2 ^ 64"
  shows "\<exists>slot epoch first. timestamp_to_mainchain_slot_number cfg ts = Some (Inr slot)
    \<and> timestamp_to_mainchain_epoch cfg ts = Some (Inr epoch) \<and> epoch_for_slot cfg slot = Some (Inr epoch)
    \<and> first_slot_of_epoch cfg epoch = Inr first
    \<and> unat first \<le> unat slot \<and> unat slot < unat first + unat (mc_slots_per_epoch cfg)"
proof -
  from checks obtain k where k: "0 < k" "unat (epoch_duration_millis cfg) = 1000 * k" "slot_duration_millis cfg = 1000"
    "unat (mc_slots_per_epoch cfg) = k"
    by (rule checks_passed)
  define d where "d = ts - first_epoch_timestamp_millis cfg"
  define T where "T = unat ts - unat (first_epoch_timestamp_millis cfg)"
  have sub: "checked_sub ts (first_epoch_timestamp_millis cfg) = Some d" and T: "unat d = T"
    using time by (simp_all add: checked_sub_ge d_def T_def)
  have nz: "epoch_duration_millis cfg \<noteq> 0" "mc_slots_per_epoch cfg \<noteq> 0" using k by auto
  define n where "n = T div (1000 * k)"
  have n: "T div 1000 div k = n" unfolding n_def by (simp add: div_mult2_eq)
  have small: "unat (first_epoch_number cfg) + n < 2 ^ 31" using epoch_fits k(2) by (simp add: n_def T_def)
  define q where "q = d div epoch_duration_millis cfg"
  have q: "unat q = n" by (simp add: q_def unat_div T k(2) n_def)
  have q32: "unat (ucast q :: u32) = n" using small q by (subst unat_ucast_small) auto
  define epoch where "epoch = first_epoch_number cfg + ucast q"
  have epoch: "unat epoch = unat (first_epoch_number cfg) + n"
    unfolding epoch_def using small q32 by (subst word_add_unat) auto
  have "timestamp_to_mainchain_epoch cfg ts = Some (Inr epoch)"
    using small q q32 nz
    by (simp add: timestamp_to_mainchain_epoch_def epochs_passed_def sub checked_div_def q_def [symmetric] try_u32_def
        saturating_add_def epoch_def)
  moreover
  define slot where "slot = first_slot_number cfg + d div 1000"
  have dd: "unat (d div 1000) = T div 1000" by (simp add: unat_div T)
  have slot: "unat slot = unat (first_slot_number cfg) + T div 1000"
    unfolding slot_def using slot_fits by (subst word_add_unat) (simp_all add: dd T_def)
  have "timestamp_to_mainchain_slot_number cfg ts = Some (Inr slot)"
    by (simp add: timestamp_to_mainchain_slot_number_def sub checked_div_def k(3) slot_def)
  moreover
  have le: "first_slot_number cfg \<le> slot" using slot by (simp add: word_le_nat_alt)
  have since: "unat (slot - first_slot_number cfg) = T div 1000" using slot checked_sub_ge(2) [OF le] by simp
  have "unat ((slot - first_slot_number cfg) div mc_slots_per_epoch cfg) = n" by (simp add: unat_div since k(4) n)
  then have "(slot - first_slot_number cfg) div mc_slots_per_epoch cfg = q" using q by (simp only: word_unat_eq_iff)
  then have "epoch_for_slot cfg slot = Some (Inr epoch)"
    using le nz small q by (simp add: epoch_for_slot_def checked_sub_def checked_div_def try_u32_def epoch_def)
  moreover
  have lee: "first_epoch_number cfg \<le> epoch" using epoch by (simp add: word_le_nat_alt)
  have se: "unat (epoch - first_epoch_number cfg) = n" using epoch checked_sub_ge(2) [OF lee] by simp
  have nk: "n * k \<le> T div 1000" "T div 1000 < n * k + k"
    using n k(1) div_times_less_eq_dividend [of "T div 1000" k] dividend_less_div_times [of k "T div 1000"] by auto
  define first where "first = ucast (epoch - first_epoch_number cfg) * mc_slots_per_epoch cfg + first_slot_number cfg"
  have "unat (ucast (epoch - first_epoch_number cfg) * mc_slots_per_epoch cfg) = n * k"
    using nk slot_fits by (simp add: unat_word_ariths se k(4) T_def)
  then have "unat first = n * k + unat (first_slot_number cfg)"
    unfolding first_def using nk slot_fits by (subst word_add_unat) (simp_all add: T_def)
  moreover have "first_slot_of_epoch cfg epoch = Inr first"
    using lee by (simp add: first_slot_of_epoch_def checked_sub_def ok_or_def first_def)
  ultimately show ?thesis using slot nk k(4) by auto
qed

theorem epochs_and_slots_agree_witness:
  "let cfg = \<lparr>epoch_duration_millis = 432000000, slot_duration_millis = 1000,
      first_epoch_timestamp_millis = 1655798400000, first_epoch_number = 4, first_slot_number = 86400\<rparr> in
    \<exists>slot epoch. timestamp_to_mainchain_slot_number cfg 1705091294000 = Some (Inr slot)
      \<and> timestamp_to_mainchain_epoch cfg 1705091294000 = Some (Inr epoch) \<and> epoch_for_slot cfg slot = Some (Inr epoch)"
  using epochs_and_slots_agree [of "\<lparr>epoch_duration_millis = 432000000, slot_duration_millis = 1000,
      first_epoch_timestamp_millis = 1655798400000, first_epoch_number = 4, first_slot_number = 86400\<rparr>" 1705091294000]
  by (auto simp: check_mainchain_epoch_invariants_def MIN_EPOCH_DURATION_MILLIS_def)

text \<open>
  C33: What the check of the two chains' epochs achieves.  It requires a Cardano epoch to
  be a whole number of partner chain epochs, so that epoch boundaries of Cardano
  coincide with boundaries of the partner chain exactly when the first one does, that
  is, when the time of the first Cardano epoch is a multiple of the length of a
  partner chain epoch; this the check does not look at.
\<close>

theorem coherence_up_to_offset:
  assumes "check_sidechain_mainchain_coherence mc sc = Inr ()"
    and "unat ts = unat (first_epoch_timestamp_millis mc) + n * unat (epoch_duration_millis mc)" and "0 < unat ts"
  shows "sc_epoch_at sc (ts - 1) \<noteq> sc_epoch_at sc ts \<longleftrightarrow>
    (unat (slots_per_epoch sc) * unat (slot_duration sc)) dvd unat (first_epoch_timestamp_millis mc)"
proof -
  define L where "L = unat (slots_per_epoch sc) * unat (slot_duration sc)"
  have L: "0 < L" "L dvd unat (epoch_duration_millis mc)"
    using assms(1) by (auto simp: check_sidechain_mainchain_coherence_def L_def Let_def split: if_splits)
  have pred: "unat (ts - 1) = unat ts - 1" using assms(3) by (metis unat_0 less_numeral_extra(3) unat_minus_one)
  have at: "\<exists>e. sc_epoch_at sc t = Some e \<and> unat e = unat t div L" for t
    using sc_epoch_at_value [of sc t] L(1) unfolding L_def by simp
  obtain a b where "sc_epoch_at sc (ts - 1) = Some a" "unat a = unat (ts - 1) div L" "sc_epoch_at sc ts = Some b" "unat b = unat ts div L"
    using at by blast
  then have "sc_epoch_at sc (ts - 1) \<noteq> sc_epoch_at sc ts \<longleftrightarrow> L dvd unat ts"
    using div_pred_iff [OF assms(3) L(1)] pred by (auto simp: word_unat_eq_iff)
  also have "\<dots> \<longleftrightarrow> L dvd unat (first_epoch_timestamp_millis mc)"
    unfolding assms(2) using L(2) by (simp add: dvd_add_left_iff)
  finally show ?thesis by (simp add: L_def)
qed

text \<open>
  The values of the network configuration in \<open>res/mainnet\<close> (\<open>pc-chain-config.json\<close> and
  \<open>chain-spec.json\<close>) pass the check, and no Cardano epoch starts with an epoch of
  the partner chain.
\<close>

definition mainnet_epochs :: MainchainEpochConfig where
  "mainnet_epochs = \<lparr>epoch_duration_millis = 432000000, slot_duration_millis = 1000,
    first_epoch_timestamp_millis = 1596059091000, first_epoch_number = 208, first_slot_number = 4492800\<rparr>"

definition mainnet_slots :: ScSlotConfig where
  "mainnet_slots = \<lparr>slots_per_epoch = 300, slot_duration = 6000\<rparr>"

theorem coherence_up_to_offset_witness:
  "check_mainchain_epoch_invariants mainnet_epochs = Inr ()
    \<and> check_sidechain_mainchain_coherence mainnet_epochs mainnet_slots = Inr ()
    \<and> sc_epoch_at mainnet_slots (1596491091000 - 1) = sc_epoch_at mainnet_slots 1596491091000"
proof -
  have "check_sidechain_mainchain_coherence mainnet_epochs mainnet_slots = Inr ()"
    by (simp add: check_sidechain_mainchain_coherence_def mainnet_epochs_def mainnet_slots_def)
  moreover from coherence_up_to_offset [OF this, of 1596491091000 1]
  have "sc_epoch_at mainnet_slots (1596491091000 - 1) = sc_epoch_at mainnet_slots 1596491091000"
    by (simp add: mainnet_epochs_def mainnet_slots_def)
  ultimately show ?thesis
    by (simp add: check_mainchain_epoch_invariants_def mainnet_epochs_def MIN_EPOCH_DURATION_MILLIS_def)
qed

text \<open>
  The start of an epoch is computed as if the epochs counted from zero: the time
  \<open>mainchain_epoch_to_timestamp\<close> returns for an epoch lies in the epoch that is later
  by the number of the first epoch.
\<close>

lemma epoch_start_shifted:
  assumes "epoch_duration_millis cfg \<noteq> 0"
    and "unat (first_epoch_timestamp_millis cfg) + unat (epoch_duration_millis cfg) * unat epoch < 2 ^ 64"
    and "unat (first_epoch_number cfg) + unat epoch < 2 ^ 31"
  shows "timestamp_to_mainchain_epoch cfg (mainchain_epoch_to_timestamp cfg epoch) = Some (Inr (first_epoch_number cfg + epoch))"
proof -
  have mul: "unat (epoch_duration_millis cfg * ucast epoch) = unat (epoch_duration_millis cfg) * unat epoch"
    using assms(2) by (simp add: unat_word_ariths)
  have ts: "unat (mainchain_epoch_to_timestamp cfg epoch) = unat (first_epoch_timestamp_millis cfg) + unat (epoch_duration_millis cfg) * unat epoch"
    unfolding mainchain_epoch_to_timestamp_def using assms(2) by (subst word_add_unat) (simp_all add: mul)
  then have le: "first_epoch_timestamp_millis cfg \<le> mainchain_epoch_to_timestamp cfg epoch" by (simp add: word_le_nat_alt)
  define d where "d = mainchain_epoch_to_timestamp cfg epoch - first_epoch_timestamp_millis cfg"
  have "unat d = unat (epoch_duration_millis cfg) * unat epoch" using ts checked_sub_ge(2) [OF le] by (simp add: d_def)
  moreover have "0 < unat (epoch_duration_millis cfg)" using assms(1) by (simp add: unat_gt_0)
  ultimately have q: "unat (d div epoch_duration_millis cfg) = unat epoch" by (simp add: unat_div)
  then have "unat (ucast (d div epoch_duration_millis cfg) :: u32) = unat epoch"
    using assms(3) by (subst unat_ucast_small) auto
  then have "ucast (d div epoch_duration_millis cfg) = epoch" by (simp only: word_unat_eq_iff)
  with q show ?thesis
    using assms le
    by (simp add: timestamp_to_mainchain_epoch_def epochs_passed_def checked_sub_ge(1) d_def [symmetric] checked_div_def
        try_u32_def saturating_add_def)
qed

lemma epoch_start_shifted_example:
  "timestamp_to_mainchain_epoch mainnet_epochs (mainchain_epoch_to_timestamp mainnet_epochs 500) = Some (Inr 708)"
  using epoch_start_shifted [of mainnet_epochs 500] by (simp add: mainnet_epochs_def)

section \<open>The epochs of the pallet\<close>

text \<open>After its hook the pallet stores the epoch of the slot, and it announces exactly the changes.\<close>

lemma sidechain_epoch_stored:
  assumes "sidechain_on_initialize slot st = Some (announced, st')"
  shows "EpochNumber st' = current_epoch_number slot st"
    and "announced = Some (old, new) \<longleftrightarrow> EpochNumber st = Some old \<and> EpochNumber st' = Some new \<and> old \<noteq> new"
proof -
  obtain e where e: "current_epoch_number slot st = Some e"
    using assms by (auto simp: sidechain_on_initialize_def)
  show "EpochNumber st' = current_epoch_number slot st"
    "announced = Some (old, new) \<longleftrightarrow> EpochNumber st = Some old \<and> EpochNumber st' = Some new \<and> old \<noteq> new"
    using assms unfolding sidechain_on_initialize_def e
    by (cases "EpochNumber st"; auto split: if_split_asm)+
qed

lemma slot_in_epoch:
  assumes "0 < spe"
  shows "\<exists>e i. epoch_number slot spe = Some e \<and> slot_number_in_epoch slot spe = Some i
    \<and> slot = sc_first_slot_number e spe + ucast i \<and> i < spe"
proof -
  have spe: "(ucast spe :: u64) \<noteq> 0" "0 < unat spe"
    using assms by (metis unat_0 unat_eq_zero unat_ucast_u32 word_gt_0, simp add: unat_gt_0 word_gt_0)
  have "unat (slot mod ucast spe) < unat spe" by (simp add: unat_mod spe(2))
  moreover have "unat spe < 2 ^ LENGTH(32)" by (rule unsigned_less)
  ultimately have i: "unat (ucast (slot mod ucast spe) :: u32) = unat slot mod unat spe"
    by (subst unat_ucast_small) (simp_all add: unat_mod)
  have "ucast (ucast (slot mod ucast spe) :: u32) = slot mod ucast spe"
    by (simp only: word_unat_eq_iff unat_ucast_u32 i) (simp add: unat_mod)
  moreover have "slot div ucast spe * ucast spe + slot mod ucast spe = slot"
    by (metis word_mod_div_equality)
  moreover have "(ucast (slot mod ucast spe) :: u32) < spe" using i spe(2) by (simp add: word_less_nat_alt)
  ultimately show ?thesis
    using spe(1) assms by (auto simp: epoch_number_def checked_div_def slot_number_in_epoch_def sc_first_slot_number_def)
qed

end
