(* ===== verification/Stable_Blocks.thy ===== *)
theory Stable_Blocks
  imports Mainchain_Epochs
begin

text \<open>
  References to stable blocks of Cardano: the source of blocks on the tables of db-sync
  with its cache (\<open>data-sources/db-sync/src/block/mod.rs\<close> and \<open>db_model.rs\<close>), and the
  inherent data provider that chooses the reference of a proposed block and verifies
  the one of an imported block (\<open>sidechain/sidechain-mc-hash/src/lib.rs\<close>), up to the
  retries of the node (\<open>node/src/inherent_data.rs\<close>).

  Times are milliseconds since 1970.  A block of Cardano has a time after 1970, so the
  conversion of its time to seconds never fails, and the bounds of the age of a
  block are far from the limits of the calendar type.  The queries of one call see
  the same tables.  Where the source panics, the model returns one of the errors
  \<open>SourcePanic\<close> and \<open>McHashPanic\<close>.
\<close>

section \<open>Blocks and queries\<close>

type_synonym block_hash = "u8 list"

record block_row =
  row_block_no :: u32
  row_hash :: block_hash
  row_epoch_no :: u32
  row_slot_no :: u64
  row_time :: nat

record MainchainBlock =
  mc_number :: u32
  referenced_hash :: block_hash
  mc_epoch :: u32
  mc_slot :: u64
  mc_timestamp :: u64

definition mainchain_block :: "block_row \<Rightarrow> MainchainBlock" where
  "mainchain_block b = \<lparr>mc_number = row_block_no b, referenced_hash = row_hash b, mc_epoch = row_epoch_no b,
    mc_slot = row_slot_no b, mc_timestamp = of_nat (row_time b div 1000)\<rparr>"

definition highest :: "block_row list \<Rightarrow> block_row option" where
  "highest bs = (case rev (sort_key row_block_no bs) of [] \<Rightarrow> None | b # _ \<Rightarrow> Some b)"

definition db_latest_block_info :: "block_row list \<Rightarrow> block_row option" where
  "db_latest_block_info db = highest db"

definition db_blocks_by_numbers :: "block_row list \<Rightarrow> u32 \<Rightarrow> u32 \<Rightarrow> block_row list" where
  "db_blocks_by_numbers db from to = sort_key row_block_no (filter (\<lambda>b. from \<le> row_block_no b \<and> row_block_no b \<le> to) db)"

definition db_highest_block :: "block_row list \<Rightarrow> u32 \<Rightarrow> int \<Rightarrow> u64 \<Rightarrow> int \<Rightarrow> u64 \<Rightarrow> block_row option" where
  "db_highest_block db max_block min_time min_slot max_time max_slot =
    highest (filter (\<lambda>b. row_block_no b \<le> max_block \<and> min_slot \<le> row_slot_no b \<and> row_slot_no b \<le> max_slot
      \<and> min_time \<le> int (row_time b) \<and> int (row_time b) \<le> max_time) db)"

definition db_block_by_hash :: "block_row list \<Rightarrow> block_hash \<Rightarrow> block_row option" where
  "db_block_by_hash db h = find (\<lambda>b. row_hash b = h) db"

section \<open>The source of blocks\<close>

record block_source =
  security_parameter :: u32
  min_slot_boundary :: int
  max_slot_boundary :: int
  mainchain_epoch_config :: MainchainEpochConfig
  block_stability_margin :: u32
  max_latest_block_age_seconds :: u32
  cache_size :: u16
  db_time_limit :: int

text \<open>The bounds of the age of a stable block, from the rounded \<open>k / f\<close> and the expected interval of blocks.\<close>

definition block_source_from_config :: "u32 \<Rightarrow> u32 \<Rightarrow> int \<Rightarrow> u32 \<Rightarrow> MainchainEpochConfig \<Rightarrow> int \<Rightarrow> block_source" where
  "block_source_from_config k margin k_over_f expected_blocks_interval_seconds epochs time_limit =
    \<lparr>security_parameter = k, min_slot_boundary = k_over_f, max_slot_boundary = 3 * k_over_f, mainchain_epoch_config = epochs,
     block_stability_margin = margin,
     max_latest_block_age_seconds = saturating_mul (max margin 1) expected_blocks_interval_seconds,
     cache_size = 100, db_time_limit = time_limit\<rparr>"

datatype block_source_error =
    BadRequest
  | ExpectedDataNotFound
  | InternalDataSourceError
  | SourceDatabase
  | LatestBlockUnavailable block_hash
  | SourcePanic

datatype StableBlockByHashResult =
    BlockNotFound
  | BlockTimestampOutRange MainchainBlock
  | NotEnoughConfirmations MainchainBlock
  | BlockStable MainchainBlock

datatype StableBlockByHashError =
    ByHashDatabase
  | ByHashNotFound block_hash
  | ByHashLatestUnavailable block_hash
  | NotStableYet block_row
  | TimestampOutOfRange block_row

text \<open>Every query fails when the database does, which is \<open>None\<close>.\<close>

definition query :: "block_row list option \<Rightarrow> (block_row list \<Rightarrow> 'a) \<Rightarrow> (block_source_error, 'a) result" where
  "query db q = (case db of None \<Rightarrow> Inl SourceDatabase | Some rows \<Rightarrow> Inr (q rows))"

definition timestamp_to_db_type :: "block_source \<Rightarrow> u64 \<Rightarrow> (block_source_error, int) result" where
  "timestamp_to_db_type src ts = (if uint ts \<le> db_time_limit src then Inr (uint ts) else Inl BadRequest)"

definition date_time_to_slot :: "block_source \<Rightarrow> int \<Rightarrow> (block_source_error, u64) result" where
  "date_time_to_slot src dt =
    (if dt < 0 then Inl BadRequest
     else case timestamp_to_mainchain_slot_number (mainchain_epoch_config src) (word_of_int dt) of
            None \<Rightarrow> Inl SourcePanic
          | Some (Inl _) \<Rightarrow> Inr (first_slot_number (mainchain_epoch_config src))
          | Some (Inr slot) \<Rightarrow> Inr slot)"

definition min_block_allowed_time :: "block_source \<Rightarrow> int \<Rightarrow> int" where
  "min_block_allowed_time src t = t - max_slot_boundary src"

definition max_allowed_block_time :: "block_source \<Rightarrow> int \<Rightarrow> int" where
  "max_allowed_block_time src t = t - min_slot_boundary src"

definition is_stable_block_time_valid :: "block_source \<Rightarrow> block_row \<Rightarrow> int \<Rightarrow> bool" where
  "is_stable_block_time_valid src b t \<longleftrightarrow> min_block_allowed_time src t \<le> int (row_time b) \<and> int (row_time b) \<le> max_allowed_block_time src t"

definition is_block_fresh :: "block_source \<Rightarrow> u64 \<Rightarrow> MainchainBlock \<Rightarrow> bool" where
  "is_block_fresh src current_time_millis b \<longleftrightarrow>
    saturating_sub (current_time_millis div 1000) (mc_timestamp b) < ucast (max_latest_block_age_seconds src)"

definition get_latest_block_info :: "block_row list option \<Rightarrow> (block_source_error, MainchainBlock) result" where
  "get_latest_block_info db =
    bind_result (query db db_latest_block_info) (\<lambda>b. ok_or ExpectedDataNotFound (map_option mainchain_block b))"

definition get_latest_block :: "block_source \<Rightarrow> block_row list option \<Rightarrow> u32 \<Rightarrow> int \<Rightarrow> (block_source_error, block_row option) result" where
  "get_latest_block src db max_block t =
    (let min_time = min_block_allowed_time src t; max_time = max_allowed_block_time src t in
     bind_result (date_time_to_slot src min_time) (\<lambda>min_slot.
     bind_result (date_time_to_slot src max_time) (\<lambda>max_slot.
     query db (\<lambda>rows. db_highest_block rows max_block min_time min_slot max_time max_slot))))"

definition get_latest_stable_block_for ::
  "block_source \<Rightarrow> block_row list option \<Rightarrow> u64 \<Rightarrow> (block_source_error, MainchainBlock option) result" where
  "get_latest_stable_block_for src db ts =
    bind_result (timestamp_to_db_type src ts) (\<lambda>t.
    bind_result (get_latest_block_info db) (\<lambda>latest.
    let offset = security_parameter src + block_stability_margin src;
        stable = saturating_sub (mc_number latest) offset
    in bind_result (get_latest_block src db stable t) (\<lambda>b. Inr (map_option mainchain_block b))))"

definition find_by_hash :: "block_row list \<Rightarrow> block_hash \<Rightarrow> block_row option" where
  "find_by_hash cache h = find (\<lambda>b. row_hash b = h) cache"

definition get_stable_block_by_hash_from_cache :: "block_source \<Rightarrow> block_row list \<Rightarrow> block_hash \<Rightarrow> int \<Rightarrow> block_row option" where
  "get_stable_block_by_hash_from_cache src cache h t =
    (case find_by_hash cache h of Some b \<Rightarrow> if is_stable_block_time_valid src b t then Some b else None | None \<Rightarrow> None)"

definition get_stable_block_by_hash_from_db ::
  "block_source \<Rightarrow> block_row list option \<Rightarrow> block_hash \<Rightarrow> int \<Rightarrow> (StableBlockByHashError, block_row) result" where
  "get_stable_block_by_hash_from_db src db h t =
    (case db of None \<Rightarrow> Inl ByHashDatabase
     | Some rows \<Rightarrow>
        (case db_latest_block_info rows of None \<Rightarrow> Inl (ByHashLatestUnavailable h)
         | Some latest \<Rightarrow>
            (case db_block_by_hash rows h of None \<Rightarrow> Inl (ByHashNotFound h)
             | Some b \<Rightarrow>
                if \<not> is_stable_block_time_valid src b t then Inl (TimestampOutOfRange b)
                else if \<not> saturating_add (row_block_no b) (security_parameter src) \<le> row_block_no latest then Inl (NotStableYet b)
                else Inr b)))"

definition fill_block_cache :: "block_source \<Rightarrow> block_row list option \<Rightarrow> block_row \<Rightarrow> (block_source_error, block_row list) result" where
  "fill_block_cache src db from_block =
    bind_result (query db db_latest_block_info) (\<lambda>latest.
    bind_result (ok_or InternalDataSourceError latest) (\<lambda>latest_block.
    let from_block_no = row_block_no from_block;
        stable_block_num = saturating_sub (row_block_no latest_block) (security_parameter src);
        to_block_no = min (saturating_add from_block_no (ucast (cache_size src))) stable_block_num
    in if to_block_no > from_block_no then query db (\<lambda>rows. db_blocks_by_numbers rows from_block_no to_block_no)
       else Inr [from_block]))"

definition get_stable_block_by_hash ::
  "block_source \<Rightarrow> block_row list option \<Rightarrow> block_hash \<Rightarrow> int \<Rightarrow> block_row list
    \<Rightarrow> (block_source_error, StableBlockByHashResult) result \<times> block_row list" where
  "get_stable_block_by_hash src db h t cache =
    (case get_stable_block_by_hash_from_cache src cache h t of
       Some b \<Rightarrow> (Inr (BlockStable (mainchain_block b)), cache)
     | None \<Rightarrow>
        (case get_stable_block_by_hash_from_db src db h t of
           Inr b \<Rightarrow>
             (case fill_block_cache src db b of
                Inl e \<Rightarrow> (Inl e, cache)
              | Inr cache' \<Rightarrow> (Inr (BlockStable (mainchain_block b)), cache'))
         | Inl (ByHashNotFound _) \<Rightarrow> (Inr BlockNotFound, cache)
         | Inl (TimestampOutOfRange b) \<Rightarrow> (Inr (BlockTimestampOutRange (mainchain_block b)), cache)
         | Inl (NotStableYet b) \<Rightarrow> (Inr (NotEnoughConfirmations (mainchain_block b)), cache)
         | Inl ByHashDatabase \<Rightarrow> (Inl SourceDatabase, cache)
         | Inl (ByHashLatestUnavailable h) \<Rightarrow> (Inl (LatestBlockUnavailable h), cache)))"

definition get_stable_block_for ::
  "block_source \<Rightarrow> block_row list option \<Rightarrow> block_hash \<Rightarrow> u64 \<Rightarrow> block_row list
    \<Rightarrow> (block_source_error, StableBlockByHashResult) result \<times> block_row list" where
  "get_stable_block_for src db h ts cache =
    (case timestamp_to_db_type src ts of Inl e \<Rightarrow> (Inl e, cache) | Inr t \<Rightarrow> get_stable_block_by_hash src db h t cache)"

definition source_get_block_by_hash ::
  "block_row list option \<Rightarrow> block_hash \<Rightarrow> block_row list \<Rightarrow> (block_source_error, MainchainBlock option) result" where
  "source_get_block_by_hash db h cache =
    bind_result (case find_by_hash cache h of Some b \<Rightarrow> Inr (Some b) | None \<Rightarrow> query db (\<lambda>rows. db_block_by_hash rows h))
      (\<lambda>b. Inr (map_option mainchain_block b))"

definition is_cardano_tip_fresh :: "block_source \<Rightarrow> block_row list option \<Rightarrow> u64 \<Rightarrow> (block_source_error, bool) result" where
  "is_cardano_tip_fresh src db now = bind_result (get_latest_block_info db) (\<lambda>b. Inr (is_block_fresh src now b))"

definition is_cardano_ok :: "block_source \<Rightarrow> block_row list option \<Rightarrow> u64 \<Rightarrow> (block_source_error, bool) result" where
  "is_cardano_ok src db now =
    bind_result (timestamp_to_db_type src now) (\<lambda>t.
    bind_result (query db db_latest_block_info) (\<lambda>latest.
    case latest of
      None \<Rightarrow> Inr False
    | Some b \<Rightarrow>
        if t - min_slot_boundary src > int (row_time b) then Inr False
        else bind_result (get_latest_block src db (saturating_sub (row_block_no b) (security_parameter src)) t) (\<lambda>s. Inr (s \<noteq> None))))"

section \<open>The reference in the header\<close>

definition MC_HASH_DIGEST_ID :: "u8 list" where "MC_HASH_DIGEST_ID = [0x6d, 0x63, 0x73, 0x68]"

datatype mc_digest_item = PreRuntimeDigest "u8 list" "u8 list" | OtherDigest

datatype mc_digest_error = MultipleHashes | InvalidHash | MissingHash

definition from_mc_block_hash :: "block_hash \<Rightarrow> mc_digest_item list" where
  "from_mc_block_hash h = [PreRuntimeDigest MC_HASH_DIGEST_ID h]"

fun digest_loop :: "mc_digest_item list \<Rightarrow> block_hash option \<Rightarrow> (mc_digest_error, block_hash option) result" where
  "digest_loop [] found = Inr found"
| "digest_loop (PreRuntimeDigest i d # ds) found =
    (if i = MC_HASH_DIGEST_ID
     then if found \<noteq> None then Inl MultipleHashes
          else if length d \<noteq> 32 then Inl InvalidHash
          else digest_loop ds (Some d)
     else digest_loop ds found)"
| "digest_loop (OtherDigest # ds) found = digest_loop ds found"

definition value_from_digest :: "mc_digest_item list \<Rightarrow> (mc_digest_error, block_hash) result" where
  "value_from_digest digest = bind_result (digest_loop digest None) (ok_or MissingHash)"

definition get_inherent_digest_value_for_block ::
  "(nat \<times> mc_digest_item list) option \<Rightarrow> (mc_digest_error option, block_hash option) result" where
  "get_inherent_digest_value_for_block header =
    (case header of
       None \<Rightarrow> Inl None
     | Some (number, digest) \<Rightarrow>
        if number = 0 then Inr None
        else (case value_from_digest digest of Inl e \<Rightarrow> Inl (Some e) | Inr h \<Rightarrow> Inr (Some h)))"

section \<open>The inherent data provider\<close>

text \<open>What the provider asks of its source, as the source answers at one time.\<close>

record McHashDataSource =
  ds_latest_stable_block_for :: "u64 \<Rightarrow> (block_source_error, MainchainBlock option) result"
  ds_stable_block_for :: "block_hash \<Rightarrow> u64 \<Rightarrow> (block_source_error, StableBlockByHashResult) result"
  ds_block_by_hash :: "block_hash \<Rightarrow> (block_source_error, MainchainBlock option) result"
  ds_cardano_tip_fresh :: "(block_source_error, bool) result"
  ds_cardano_ok :: "(block_source_error, bool) result"

record McHashInherentDataProvider =
  mc_block :: MainchainBlock
  previous_mc_block :: "MainchainBlock option"

datatype McHashInherentError =
    McDataSourceError block_source_error
  | StableBlockNotFound u64
  | SlotTooBig
  | McStateReferenceInvalid block_hash u64 u64
  | McStateReferenceRegressed block_hash u64 u32 u32
  | McDigestError mc_digest_error
  | StableBlockNotFoundByHash block_hash
  | AwaitingCardanoData block_hash
  | McHashPanic

definition source_result :: "(block_source_error, 'a) result \<Rightarrow> (McHashInherentError, 'a) result" where
  "source_result r = (case r of Inl e \<Rightarrow> Inl (McDataSourceError e) | Inr x \<Rightarrow> Inr x)"

definition new_proposal ::
  "mc_digest_item list \<Rightarrow> McHashDataSource \<Rightarrow> u64 \<Rightarrow> u64 \<Rightarrow> (McHashInherentError, McHashInherentDataProvider) result" where
  "new_proposal parent_digest ds slot slot_dur =
    bind_result (ok_or SlotTooBig (slot_timestamp slot slot_dur)) (\<lambda>slot_start.
    bind_result (source_result (ds_latest_stable_block_for ds slot_start)) (\<lambda>latest.
    bind_result (ok_or (StableBlockNotFound slot_start) latest) (\<lambda>b.
    case value_from_digest parent_digest of
      Inr parent_mc_hash \<Rightarrow>
        bind_result (source_result (ds_block_by_hash ds parent_mc_hash)) (\<lambda>p.
        bind_result (ok_or (StableBlockNotFoundByHash parent_mc_hash) p) (\<lambda>parent.
        if mc_number b \<ge> mc_number parent then Inr \<lparr>mc_block = b, previous_mc_block = Some parent\<rparr>
        else Inr \<lparr>mc_block = parent, previous_mc_block = Some parent\<rparr>))
    | Inl _ \<Rightarrow> Inr \<lparr>mc_block = b, previous_mc_block = None\<rparr>)))"

datatype BlockHashClassification = Stable MainchainBlock | AwaitingCardano | Invalid

definition classify_block_hash ::
  "block_hash \<Rightarrow> u64 \<Rightarrow> McHashDataSource \<Rightarrow> (McHashInherentError, BlockHashClassification) result" where
  "classify_block_hash h timestamp ds =
    bind_result (source_result (ds_stable_block_for ds h timestamp)) (\<lambda>r. case r of
      BlockStable info \<Rightarrow> Inr (Stable info)
    | BlockTimestampOutRange _ \<Rightarrow> Inr Invalid
    | NotEnoughConfirmations _ \<Rightarrow>
        bind_result (source_result (ds_cardano_tip_fresh ds)) (\<lambda>fresh. Inr (if fresh then Invalid else AwaitingCardano))
    | BlockNotFound \<Rightarrow>
        bind_result (source_result (ds_cardano_ok ds)) (\<lambda>ok. Inr (if ok then Invalid else AwaitingCardano)))"

definition new_verification ::
  "mc_digest_item list \<Rightarrow> u64 option \<Rightarrow> u64 \<Rightarrow> block_hash \<Rightarrow> u64 \<Rightarrow> McHashDataSource
    \<Rightarrow> (McHashInherentError, McHashInherentDataProvider) result" where
  "new_verification parent_digest parent_slot slot h slot_dur ds =
    bind_result (ok_or SlotTooBig (slot_timestamp slot slot_dur)) (\<lambda>timestamp.
    bind_result (classify_block_hash h timestamp ds) (\<lambda>c. case c of
      AwaitingCardano \<Rightarrow> Inl (AwaitingCardanoData h)
    | Invalid \<Rightarrow> Inl (McStateReferenceInvalid h slot timestamp)
    | Stable b \<Rightarrow>
        if parent_slot = None then Inr \<lparr>mc_block = b, previous_mc_block = None\<rparr>
        else (case value_from_digest parent_digest of
            Inl e \<Rightarrow> Inl (McDigestError e)
          | Inr parent_hash \<Rightarrow>
              bind_result (source_result (ds_block_by_hash ds parent_hash)) (\<lambda>p.
              bind_result (ok_or McHashPanic p) (\<lambda>parent.
              if mc_number b < mc_number parent
              then Inl (McStateReferenceRegressed h slot (mc_number b) (mc_number parent))
              else Inr \<lparr>mc_block = b, previous_mc_block = Some parent\<rparr>)))))"

text \<open>The node retries as long as the source waits for Cardano; \<open>views i\<close> is the source at the \<open>i\<close>-th attempt.\<close>

primrec verify_reference ::
  "nat \<Rightarrow> nat \<Rightarrow> mc_digest_item list \<Rightarrow> u64 option \<Rightarrow> u64 \<Rightarrow> block_hash \<Rightarrow> u64 \<Rightarrow> (nat \<Rightarrow> McHashDataSource)
    \<Rightarrow> (McHashInherentError, McHashInherentDataProvider) result" where
  "verify_reference 0 i parent_digest parent_slot slot h slot_dur views =
    new_verification parent_digest parent_slot slot h slot_dur (views i)"
| "verify_reference (Suc retries) i parent_digest parent_slot slot h slot_dur views =
    (case new_verification parent_digest parent_slot slot h slot_dur (views i) of
       Inl (AwaitingCardanoData _) \<Rightarrow> verify_reference retries (Suc i) parent_digest parent_slot slot h slot_dur views
     | r \<Rightarrow> r)"

text \<open>The source of blocks as the provider's source.\<close>

definition db_data_source :: "block_source \<Rightarrow> block_row list option \<Rightarrow> u64 \<Rightarrow> block_row list \<Rightarrow> McHashDataSource" where
  "db_data_source src db now cache = \<lparr>
    ds_latest_stable_block_for = get_latest_stable_block_for src db,
    ds_stable_block_for = (\<lambda>h ts. fst (get_stable_block_for src db h ts cache)),
    ds_block_by_hash = (\<lambda>h. source_get_block_by_hash db h cache),
    ds_cardano_tip_fresh = is_cardano_tip_fresh src db now,
    ds_cardano_ok = is_cardano_ok src db now\<rparr>"

section \<open>Chains\<close>

lemma mainchain_block_simps [simp]:
  "mc_number (mainchain_block b) = row_block_no b" "referenced_hash (mainchain_block b) = row_hash b"
  by (simp_all add: mainchain_block_def)

text \<open>
  The tables of one node: hashes and numbers identify blocks, and times do not decrease
  with the number.  The tip is the number of the last block.
\<close>

definition chain_ok :: "block_row list \<Rightarrow> bool" where
  "chain_ok rows \<longleftrightarrow> rows \<noteq> [] \<and> distinct (map row_hash rows) \<and>
    (\<forall>b \<in> set rows. \<forall>b' \<in> set rows. row_block_no b \<le> row_block_no b' \<longrightarrow> row_time b \<le> row_time b')"

definition tip :: "block_row list \<Rightarrow> nat" where
  "tip rows = Max (insert 0 ((\<lambda>b. unat (row_block_no b)) ` set rows))"

definition confirmed :: "block_source \<Rightarrow> block_row list \<Rightarrow> block_row \<Rightarrow> bool" where
  "confirmed src rows b \<longleftrightarrow> b \<in> set rows \<and> min (unat (row_block_no b) + unat (security_parameter src)) (2 ^ 32 - 1) \<le> tip rows"

definition cache_ok :: "block_source \<Rightarrow> block_row list \<Rightarrow> block_row list \<Rightarrow> bool" where
  "cache_ok src rows cache \<longleftrightarrow> (\<forall>b \<in> set cache. confirmed src rows b)"

lemma highest_Some:
  assumes "highest bs = Some b"
  shows "b \<in> set bs" "b' \<in> set bs \<Longrightarrow> row_block_no b' \<le> row_block_no b"
proof -
  from assms obtain bs' where r: "rev (sort_key row_block_no bs) = b # bs'"
    by (auto simp: highest_def split: list.splits)
  then have s: "sort_key row_block_no bs = rev bs' @ [b]" by (simp add: rev_swap)
  then show "b \<in> set bs" by (metis in_set_conv_decomp set_sort)
  have "sorted (map row_block_no (rev bs' @ [b]))" by (metis s sorted_sort_key)
  moreover assume "b' \<in> set bs"
  then have "b' \<in> set (rev bs' @ [b])" by (metis s set_sort)
  ultimately show "row_block_no b' \<le> row_block_no b" by (auto simp: sorted_append)
qed

lemma highest_None: "highest bs = None \<longleftrightarrow> bs = []"
proof -
  have "highest bs = None \<longleftrightarrow> rev (sort_key row_block_no bs) = []" by (simp add: highest_def split: list.split)
  also have "\<dots> \<longleftrightarrow> set (sort_key row_block_no bs) = {}" by (simp only: rev_is_Nil_conv set_empty)
  finally show ?thesis by (simp only: set_sort set_empty)
qed

lemma tip_highest: "highest rows = Some b \<Longrightarrow> tip rows = unat (row_block_no b)"
  unfolding tip_def
  by (intro Max_eqI) (auto dest: highest_Some(1) highest_Some(2) simp: word_le_nat_alt [symmetric])

lemma latest_exists:
  assumes "chain_ok rows"
  obtains b where "db_latest_block_info rows = Some b" "b \<in> set rows" "unat (row_block_no b) = tip rows"
  using assms that highest_Some(1) tip_highest by (fastforce simp: chain_ok_def db_latest_block_info_def highest_None)

lemma by_hash_found: "chain_ok rows \<Longrightarrow> b \<in> set rows \<Longrightarrow> db_block_by_hash rows (row_hash b) = Some b"
  unfolding chain_ok_def db_block_by_hash_def by (intro find_by_key) auto

lemma by_hash_in: "db_block_by_hash rows h = Some b \<Longrightarrow> b \<in> set rows \<and> row_hash b = h"
  by (auto simp: db_block_by_hash_def find_Some_iff)

lemma saturating_le_tip:
  "unat (row_block_no l) = tip rows \<Longrightarrow> saturating_add (row_block_no b) k \<le> row_block_no l
    \<longleftrightarrow> min (unat (row_block_no b) + unat k) (2 ^ 32 - 1) \<le> tip rows"
  by (simp add: word_le_nat_alt unat_saturating_add)

text \<open>The database's answer on a well-formed chain, case by case.\<close>

lemma from_db_answer:
  assumes "chain_ok rows"
  shows "get_stable_block_by_hash_from_db src (Some rows) h t =
    (case db_block_by_hash rows h of
       None \<Rightarrow> Inl (ByHashNotFound h)
     | Some b \<Rightarrow> if \<not> is_stable_block_time_valid src b t then Inl (TimestampOutOfRange b)
        else if \<not> confirmed src rows b then Inl (NotStableYet b) else Inr b)"
proof -
  obtain l where l: "db_latest_block_info rows = Some l" "unat (row_block_no l) = tip rows"
    using latest_exists [OF assms] by blast
  show ?thesis
    unfolding get_stable_block_by_hash_from_db_def
    by (auto simp: l(1) confirmed_def saturating_le_tip [OF l(2)] dest: by_hash_in split: option.split)
qed

lemma fill_block_cache_ok:
  assumes "chain_ok rows" "confirmed src rows b"
  obtains cache where "fill_block_cache src (Some rows) b = Inr cache" "cache_ok src rows cache"
proof -
  obtain l where l: "db_latest_block_info rows = Some l" "unat (row_block_no l) = tip rows"
    using latest_exists [OF assms(1)] by blast
  define to_no where "to_no = min (saturating_add (row_block_no b) (ucast (cache_size src))) (saturating_sub (row_block_no l) (security_parameter src))"
  have "confirmed src rows c" if "c \<in> set (db_blocks_by_numbers rows (row_block_no b) to_no)" "row_block_no b < to_no" for c
  proof -
    have c: "c \<in> set rows" "row_block_no c \<le> to_no" using that(1) by (auto simp: db_blocks_by_numbers_def)
    have "unat to_no \<le> tip rows - unat (security_parameter src)"
      by (simp add: to_no_def min_def word_le_nat_alt unat_saturating_sub l(2))
    moreover have "0 < unat to_no" using that(2) by (simp add: word_less_nat_alt)
    ultimately show ?thesis using c by (auto simp: confirmed_def word_le_nat_alt)
  qed
  then have "cache_ok src rows (if row_block_no b < to_no then db_blocks_by_numbers rows (row_block_no b) to_no else [b])"
    using assms(2) by (auto simp: cache_ok_def)
  moreover have "fill_block_cache src (Some rows) b = Inr (if row_block_no b < to_no then db_blocks_by_numbers rows (row_block_no b) to_no else [b])"
    by (simp add: fill_block_cache_def query_def ok_or_def l(1) to_no_def Let_def)
  ultimately show ?thesis using that by blast
qed

text \<open>The answer of the source in terms of the chain alone.\<close>

definition stable_answer :: "block_source \<Rightarrow> block_row list \<Rightarrow> block_hash \<Rightarrow> int \<Rightarrow> StableBlockByHashResult" where
  "stable_answer src rows h t =
    (case db_block_by_hash rows h of
       None \<Rightarrow> BlockNotFound
     | Some b \<Rightarrow> if \<not> is_stable_block_time_valid src b t then BlockTimestampOutRange (mainchain_block b)
        else if \<not> confirmed src rows b then NotEnoughConfirmations (mainchain_block b)
        else BlockStable (mainchain_block b))"

lemma cached_block:
  assumes "chain_ok rows" "cache_ok src rows cache" "find_by_hash cache h = Some b"
  shows "confirmed src rows b" "db_block_by_hash rows h = Some b"
proof -
  have b: "b \<in> set cache" "row_hash b = h" using assms(3) by (auto simp: find_by_hash_def find_Some_iff)
  then show "confirmed src rows b" using assms(2) by (simp add: cache_ok_def)
  then show "db_block_by_hash rows h = Some b"
    using by_hash_found [OF assms(1), of b] b(2) by (simp add: confirmed_def)
qed

lemma stable_block_answer:
  assumes "chain_ok rows" "cache_ok src rows cache"
  shows "fst (get_stable_block_by_hash src (Some rows) h t cache) = Inr (stable_answer src rows h t)"
    and "cache_ok src rows (snd (get_stable_block_by_hash src (Some rows) h t cache))"
proof -
  have "fst (get_stable_block_by_hash src (Some rows) h t cache) = Inr (stable_answer src rows h t) \<and>
    cache_ok src rows (snd (get_stable_block_by_hash src (Some rows) h t cache))"
  proof (cases "get_stable_block_by_hash_from_cache src cache h t")
    case (Some b)
    then have f: "find_by_hash cache h = Some b" and v: "is_stable_block_time_valid src b t"
      by (auto simp: get_stable_block_by_hash_from_cache_def split: option.splits if_splits)
    show ?thesis
      using cached_block [OF assms f] v assms(2) by (simp add: get_stable_block_by_hash_def Some stable_answer_def)
  next
    case None
    show ?thesis
    proof (cases "\<exists>b. db_block_by_hash rows h = Some b \<and> is_stable_block_time_valid src b t \<and> confirmed src rows b")
      case True
      then obtain b where b: "db_block_by_hash rows h = Some b" "is_stable_block_time_valid src b t" "confirmed src rows b" by blast
      obtain cache' where "fill_block_cache src (Some rows) b = Inr cache'" "cache_ok src rows cache'"
        using fill_block_cache_ok [OF assms(1) b(3)] by blast
      then show ?thesis
        using b by (simp add: get_stable_block_by_hash_def None from_db_answer [OF assms(1)] stable_answer_def)
    next
      case False
      then show ?thesis
        using assms(2)
        by (auto simp: get_stable_block_by_hash_def None from_db_answer [OF assms(1)] stable_answer_def split: option.split)
    qed
  qed
  then show "fst (get_stable_block_by_hash src (Some rows) h t cache) = Inr (stable_answer src rows h t)"
    and "cache_ok src rows (snd (get_stable_block_by_hash src (Some rows) h t cache))" by auto
qed

lemma block_by_hash_answer:
  assumes "chain_ok rows" "cache_ok src rows cache"
  shows "source_get_block_by_hash (Some rows) h cache = Inr (map_option mainchain_block (db_block_by_hash rows h))"
  using cached_block(2) [OF assms, of h]
  by (simp add: source_get_block_by_hash_def query_def split: option.split)

section \<open>The header\<close>

text \<open>A header carries the reference back, whatever other items it has, and two references are an error.\<close>

definition no_reference :: "mc_digest_item list \<Rightarrow> bool" where
  "no_reference ds \<longleftrightarrow> (\<forall>i d. PreRuntimeDigest i d \<in> set ds \<longrightarrow> i \<noteq> MC_HASH_DIGEST_ID)"

lemma digest_loop_skip: "no_reference ds \<Longrightarrow> digest_loop (ds @ es) found = digest_loop es found"
  by (induction ds found rule: digest_loop.induct) (auto simp: no_reference_def)

lemma reference_read_back:
  assumes "no_reference ds" "no_reference es" "length h = 32"
  shows "value_from_digest (ds @ from_mc_block_hash h @ es) = Inr h"
    and "value_from_digest (ds @ from_mc_block_hash h @ es @ from_mc_block_hash h') = Inl MultipleHashes"
  using assms digest_loop_skip [OF assms(2), of "[]"]
  by (simp_all add: value_from_digest_def digest_loop_skip from_mc_block_hash_def ok_or_def)

section \<open>The cache\<close>

text \<open>
  The tables grow by Cardano's chain selection: confirmed blocks stay, and the tip does
  not get lower.  The source answers queries in between, with a database that may be
  unreachable; the state is the tables and the cache.
\<close>

definition tables_extend :: "block_source \<Rightarrow> block_row list \<Rightarrow> block_row list \<Rightarrow> bool" where
  "tables_extend src rows rows' \<longleftrightarrow> chain_ok rows' \<and> tip rows \<le> tip rows' \<and> (\<forall>b \<in> set rows. confirmed src rows b \<longrightarrow> b \<in> set rows')"

inductive block_source_step :: "block_source \<Rightarrow> block_row list \<times> block_row list \<Rightarrow> block_row list \<times> block_row list \<Rightarrow> bool"
  for src :: block_source where
  tables_grow: "tables_extend src rows rows' \<Longrightarrow> block_source_step src (rows, cache) (rows', cache)"
| source_asked: "block_source_step src (rows, cache) (rows, snd (get_stable_block_for src (Some rows) h ts cache))"
| database_down: "block_source_step src (rows, cache) (rows, snd (get_stable_block_for src None h ts cache))"

definition block_source_init :: "block_row list \<times> block_row list \<Rightarrow> bool" where
  "block_source_init s \<longleftrightarrow> chain_ok (fst s) \<and> snd s = []"

definition block_source_inv :: "block_source \<Rightarrow> block_row list \<times> block_row list \<Rightarrow> bool" where
  "block_source_inv src s \<longleftrightarrow> chain_ok (fst s) \<and> cache_ok src (fst s) (snd s)"

lemma cache_ok_extend: "cache_ok src rows cache \<Longrightarrow> tables_extend src rows rows' \<Longrightarrow> cache_ok src rows' cache"
  unfolding cache_ok_def tables_extend_def confirmed_def by (meson le_trans)

lemma query_keeps_cache_ok:
  "chain_ok rows \<Longrightarrow> cache_ok src rows cache \<Longrightarrow> cache_ok src rows (snd (get_stable_block_for src (Some rows) h ts cache))"
  using stable_block_answer(2) by (auto simp: get_stable_block_for_def split: sum.split)

lemma database_down_keeps_cache: "snd (get_stable_block_for src None h ts cache) = cache"
  by (simp add: get_stable_block_for_def get_stable_block_by_hash_def get_stable_block_by_hash_from_db_def split: sum.split option.split)

interpretation sb: transition_invariant block_source_init "block_source_step src" "block_source_inv src" for src
proof
  fix s s' :: "block_row list \<times> block_row list"
  show "block_source_init s \<Longrightarrow> block_source_inv src s" by (simp add: block_source_init_def block_source_inv_def cache_ok_def)
  assume inv: "block_source_inv src s" and "block_source_step src s s'"
  from this(2) show "block_source_inv src s'"
  proof cases
    case (tables_grow rows rows' cache)
    then show ?thesis using inv cache_ok_extend [OF _ tables_grow(3)] by (auto simp: block_source_inv_def tables_extend_def)
  next
    case (source_asked rows cache h ts)
    then show ?thesis using inv by (simp add: block_source_inv_def query_keeps_cache_ok)
  next
    case (database_down rows cache h ts)
    then show ?thesis using inv by (simp add: block_source_inv_def database_down_keeps_cache)
  qed
qed

lemma stable_block_for_answer:
  assumes "chain_ok rows" "cache_ok src rows cache"
  shows "fst (get_stable_block_for src (Some rows) h ts cache) =
    bind_result (timestamp_to_db_type src ts) (\<lambda>t. Inr (stable_answer src rows h t))"
  using stable_block_answer(1) [OF assms] by (simp add: get_stable_block_for_def bind_result_def split: sum.split)

text \<open>
  C23: The cache never shows.  However the tables have grown and whatever was asked
  before, the answers on a stable block and on a block by its hash are those of the
  database alone.
\<close>

theorem stable_cache_transparent:
  assumes "reachable block_source_init (block_source_step src) (rows, cache)"
  shows "fst (get_stable_block_for src (Some rows) h ts cache) = fst (get_stable_block_for src (Some rows) h ts []) \<and>
    source_get_block_by_hash (Some rows) h cache = source_get_block_by_hash (Some rows) h []"
proof -
  have c: "chain_ok rows" "cache_ok src rows cache" using sb.reachable_inv [OF assms] by (simp_all add: block_source_inv_def)
  have e: "cache_ok src rows []" by (simp add: cache_ok_def)
  show ?thesis
    by (simp only: stable_block_for_answer [OF c] stable_block_for_answer [OF c(1) e] block_by_hash_answer [OF c] block_by_hash_answer [OF c(1) e])
qed

section \<open>Verification\<close>

text \<open>What an accepted reference is, for one attempt on a well-formed view.\<close>

definition reference_ok :: "block_source \<Rightarrow> block_row list \<Rightarrow> mc_digest_item list \<Rightarrow> bool \<Rightarrow> u64 \<Rightarrow> block_hash \<Rightarrow> McHashInherentDataProvider \<Rightarrow> bool" where
  "reference_ok src rows parent_digest genesis ts h p \<longleftrightarrow>
    (\<exists>b \<in> set rows. row_hash b = h \<and> mc_block p = mainchain_block b \<and>
      min (unat (row_block_no b) + unat (security_parameter src)) (2 ^ 32 - 1) \<le> tip rows \<and>
      uint ts - max_slot_boundary src \<le> int (row_time b) \<and> int (row_time b) \<le> uint ts - min_slot_boundary src \<and>
      (if genesis then previous_mc_block p = None
       else \<exists>b' \<in> set rows. value_from_digest parent_digest = Inr (row_hash b') \<and>
         previous_mc_block p = Some (mainchain_block b') \<and> row_block_no b' \<le> row_block_no b))"

lemma stable_answer_iff:
  assumes "chain_ok rows"
  shows "stable_answer src rows h t = BlockStable m \<longleftrightarrow>
    (\<exists>b \<in> set rows. row_hash b = h \<and> m = mainchain_block b \<and> is_stable_block_time_valid src b t \<and> confirmed src rows b)"
proof
  assume "stable_answer src rows h t = BlockStable m"
  then show "\<exists>b \<in> set rows. row_hash b = h \<and> m = mainchain_block b \<and> is_stable_block_time_valid src b t \<and> confirmed src rows b"
    using by_hash_in [of rows h] by (auto simp: stable_answer_def split: option.splits if_splits)
next
  assume "\<exists>b \<in> set rows. row_hash b = h \<and> m = mainchain_block b \<and> is_stable_block_time_valid src b t \<and> confirmed src rows b"
  then obtain b where b: "b \<in> set rows" "row_hash b = h" "m = mainchain_block b" "is_stable_block_time_valid src b t" "confirmed src rows b"
    by blast
  then show "stable_answer src rows h t = BlockStable m"
    using by_hash_found [OF assms b(1)] by (simp add: stable_answer_def)
qed

lemma classified_stable:
  assumes "chain_ok rows" "cache_ok src rows cache" "uint ts \<le> db_time_limit src"
  shows "classify_block_hash h ts (db_data_source src (Some rows) now cache) = Inr (Stable b) \<longleftrightarrow>
    stable_answer src rows h (uint ts) = BlockStable b"
  using assms(3)
  by (cases "stable_answer src rows h (uint ts)")
    (simp_all add: classify_block_hash_def db_data_source_def stable_block_for_answer [OF assms(1,2)] timestamp_to_db_type_def
      source_result_def bind_result_Inr_iff split: sum.split)

lemma source_block_by_hash:
  "chain_ok rows \<Longrightarrow> cache_ok src rows cache \<Longrightarrow>
    ds_block_by_hash (db_data_source src (Some rows) now cache) h = Inr (map_option mainchain_block (db_block_by_hash rows h))"
  by (simp add: db_data_source_def block_by_hash_answer)

lemma new_verification_Inr:
  assumes "slot_timestamp slot dur = Some ts"
  shows "new_verification pd pslot slot h dur ds = Inr p \<longleftrightarrow>
    (\<exists>m. classify_block_hash h ts ds = Inr (Stable m) \<and> mc_block p = m \<and>
      (if pslot = None then previous_mc_block p = None
       else \<exists>ph q. value_from_digest pd = Inr ph \<and> ds_block_by_hash ds ph = Inr (Some q) \<and>
         mc_number q \<le> mc_number m \<and> previous_mc_block p = Some q))"
proof (cases "classify_block_hash h ts ds")
  case (Inl e)
  then show ?thesis by (simp add: new_verification_def assms ok_or_def)
next
  case (Inr c)
  show ?thesis
  proof (cases c)
    case (Stable m)
    show ?thesis
      by (cases p) (auto simp: new_verification_def assms Inr Stable ok_or_def source_result_def bind_result_def split: sum.split option.split)
  qed (simp_all add: new_verification_def assms ok_or_def Inr)
qed

lemma verification_iff:
  assumes "chain_ok rows" "cache_ok src rows cache" "slot_timestamp slot dur = Some ts" "uint ts \<le> db_time_limit src"
  shows "new_verification pd pslot slot h dur (db_data_source src (Some rows) now cache) = Inr p
    \<longleftrightarrow> reference_ok src rows pd (pslot = None) ts h p"
proof -
  have par: "(\<exists>ph q. value_from_digest pd = Inr ph \<and> map_option mainchain_block (db_block_by_hash rows ph) = Some q \<and>
      mc_number q \<le> n \<and> previous_mc_block p = Some q) \<longleftrightarrow>
    (\<exists>b' \<in> set rows. value_from_digest pd = Inr (row_hash b') \<and> previous_mc_block p = Some (mainchain_block b') \<and> row_block_no b' \<le> n)"
    (is "?l = ?r") for n
  proof
    assume ?l
    then obtain ph b' where "value_from_digest pd = Inr ph" "db_block_by_hash rows ph = Some b'" "row_block_no b' \<le> n"
      "previous_mc_block p = Some (mainchain_block b')" by auto
    then show ?r using by_hash_in by blast
  next
    assume ?r
    then obtain b' where b: "b' \<in> set rows" "value_from_digest pd = Inr (row_hash b')" "row_block_no b' \<le> n"
      "previous_mc_block p = Some (mainchain_block b')" by blast
    then show ?l using by_hash_found [OF assms(1) b(1)] by simp
  qed
  show ?thesis
    unfolding new_verification_Inr [OF assms(3)] classified_stable [OF assms(1,2,4)] source_block_by_hash [OF assms(1,2)]
      stable_answer_iff [OF assms(1)] reference_ok_def sum.inject par
    by (auto simp: is_stable_block_time_valid_def confirmed_def min_block_allowed_time_def max_allowed_block_time_def) blast
qed

text \<open>
  C13: What a node accepts, over all the attempts it may make.  An accepted reference was,
  in the view of one of the attempts, a block of the chain with that hash and with the
  confirmations of the security parameter, of a time in the window before the slot of
  the verified block; unless the parent is the genesis, it does not go back behind
  the block the parent refers to, which the same view has.
\<close>

theorem verified_reference_sound:
  assumes views: "\<And>j. reachable block_source_init (block_source_step src) (rows j, cache j)"
    and accepted: "verify_reference retries i pd pslot slot h dur (\<lambda>j. db_data_source src (Some (rows j)) (now j) (cache j)) = Inr p"
  shows "\<exists>j ts. i \<le> j \<and> j \<le> i + retries \<and> slot_timestamp slot dur = Some ts \<and> reference_ok src (rows j) pd (pslot = None) ts h p"
proof -
  let ?ds = "\<lambda>j. db_data_source src (Some (rows j)) (now j) (cache j)"
  from accepted have "\<exists>j. i \<le> j \<and> j \<le> i + retries \<and> new_verification pd pslot slot h dur (?ds j) = Inr p"
  proof (induction retries arbitrary: i)
    case (Suc retries)
    show ?case
    proof (cases "new_verification pd pslot slot h dur (?ds i) = Inr p")
      case False
      then have "verify_reference retries (Suc i) pd pslot slot h dur ?ds = Inr p"
        using Suc.prems by (auto split: sum.splits McHashInherentError.splits)
      from Suc.IH [OF this] obtain j where "Suc i \<le> j" "j \<le> Suc i + retries" "new_verification pd pslot slot h dur (?ds j) = Inr p" by blast
      then show ?thesis by (intro exI [of _ j]) simp
    qed (intro exI [of _ i], simp)
  qed auto
  then obtain j where j: "i \<le> j" "j \<le> i + retries" "new_verification pd pslot slot h dur (?ds j) = Inr p" by blast
  have ok: "chain_ok (rows j)" "cache_ok src (rows j) (cache j)" using sb.reachable_inv [OF views] by (simp_all add: block_source_inv_def)
  obtain ts where ts: "slot_timestamp slot dur = Some ts"
    using j(3) by (cases "slot_timestamp slot dur") (auto simp: new_verification_def ok_or_def)
  have "uint ts \<le> db_time_limit src"
    using j(3) ts
    by (auto simp: new_verification_def ok_or_def classify_block_hash_def db_data_source_def stable_block_for_answer [OF ok]
        timestamp_to_db_type_def source_result_def split: if_splits)
  then show ?thesis using j ts verification_iff [OF ok ts] by blast
qed

section \<open>Proposals\<close>

lemma latest_block_found:
  assumes "get_latest_block src (Some rows) n t = Inr (Some b)"
  shows "b \<in> set rows" "row_block_no b \<le> n" "is_stable_block_time_valid src b t"
proof -
  obtain lo hi where "db_highest_block rows n (min_block_allowed_time src t) lo (max_allowed_block_time src t) hi = Some b"
    using assms by (auto simp: get_latest_block_def query_def bind_result_Inr_iff Let_def)
  from highest_Some(1) [OF this [unfolded db_highest_block_def]]
  show "b \<in> set rows" "row_block_no b \<le> n" "is_stable_block_time_valid src b t"
    by (auto simp: is_stable_block_time_valid_def)
qed

lemma latest_stable_found:
  assumes "get_latest_stable_block_for src (Some rows) ts = Inr (Some m)" "chain_ok rows"
    and "unat (security_parameter src) + unat (block_stability_margin src) \<le> tip rows"
  obtains b where "b \<in> set rows" "m = mainchain_block b" "is_stable_block_time_valid src b (uint ts)" "uint ts \<le> db_time_limit src"
    "unat (row_block_no b) + unat (security_parameter src) + unat (block_stability_margin src) \<le> tip rows"
proof -
  obtain l where l: "db_latest_block_info rows = Some l" "unat (row_block_no l) = tip rows" using latest_exists [OF assms(2)] by blast
  have "unat (row_block_no l) < 2 ^ LENGTH(32)" by (rule unsigned_less)
  then have off: "unat (security_parameter src + block_stability_margin src) = unat (security_parameter src) + unat (block_stability_margin src)"
    using assms(3) l(2) by (intro word_add_unat) simp
  have lim: "uint ts \<le> db_time_limit src"
    using assms(1) by (auto simp: get_latest_stable_block_for_def timestamp_to_db_type_def split: if_splits)
  then obtain b where b: "get_latest_block src (Some rows) (saturating_sub (row_block_no l) (security_parameter src + block_stability_margin src)) (uint ts) = Inr (Some b)"
      "m = mainchain_block b"
    using assms(1)
    by (auto simp: get_latest_stable_block_for_def timestamp_to_db_type_def get_latest_block_info_def query_def l(1) bind_result_Inr_iff
        Let_def)
  have "unat (row_block_no b) \<le> tip rows - (unat (security_parameter src) + unat (block_stability_margin src))"
    using latest_block_found(2) [OF b(1)] by (simp add: word_le_nat_alt unat_saturating_sub off l(2))
  then show ?thesis using that [OF latest_block_found(1) [OF b(1)] b(2) latest_block_found(3) [OF b(1)] lim] assms(3) by linarith
qed

text \<open>
  The bounds on slots in the query are there for its index only: where the slot of a
  block is the slot of its time, the answer is the highest block of the time window.
\<close>

lemma date_time_to_slot_mono:
  assumes "date_time_to_slot src dt = Inr s" "date_time_to_slot src dt' = Inr s'" "dt \<le> dt'"
    and "nat dt' + unat (first_slot_number (mainchain_epoch_config src)) < 2 ^ 64"
  shows "s \<le> s'"
proof -
  let ?c = "mainchain_epoch_config src"
  have pos: "0 \<le> dt" "0 \<le> dt'" using assms(1,3) by (auto simp: date_time_to_slot_def split: if_splits)
  have val: "unat (word_of_int d :: u64) = nat d" if "0 \<le> d" "d \<le> dt'" for d
  proof -
    have "nat dt' < 2 ^ 64" using assms(4) by linarith
    then have "d < 2 ^ LENGTH(64)" using that by simp
    then have "uint (word_of_int d :: u64) = d" using that(1) by (simp only: uint_word_of_int mod_pos_pos_trivial)
    then show ?thesis by (simp only: unat_eq_nat_uint)
  qed
  have slot: "unat r = unat (first_slot_number ?c) + (nat d - unat (first_epoch_timestamp_millis ?c)) div unat (slot_duration_millis ?c)"
    if "date_time_to_slot src d = Inr r" "0 \<le> d" "d \<le> dt'" for d r
  proof (cases "first_epoch_timestamp_millis ?c \<le> word_of_int d")
    case True
    let ?q = "(word_of_int d - first_epoch_timestamp_millis ?c) div slot_duration_millis ?c"
    have r: "r = first_slot_number ?c + ?q"
      using that(1,2) True by (auto simp: date_time_to_slot_def timestamp_to_mainchain_slot_number_def checked_sub_def checked_div_def split: if_splits)
    have q: "unat ?q = (nat d - unat (first_epoch_timestamp_millis ?c)) div unat (slot_duration_millis ?c)"
      using True val [OF that(2,3)] by (simp add: unat_div checked_sub_ge(2))
    also have "\<dots> \<le> nat d" by (rule order_trans [OF div_le_dividend diff_le_self])
    finally have "unat ?q \<le> nat dt'" using that(3) by linarith
    then show ?thesis unfolding r q [symmetric] using assms(4) by (intro word_add_unat) simp
  next
    case False
    then have "nat d < unat (first_epoch_timestamp_millis ?c)" using val [OF that(2,3)] by (simp add: word_le_nat_alt)
    then show ?thesis using that(1,2) False by (simp add: date_time_to_slot_def timestamp_to_mainchain_slot_number_def checked_sub_def)
  qed
  show ?thesis
    unfolding word_le_nat_alt slot [OF assms(1) pos(1) assms(3)] slot [OF assms(2) pos(2) order_refl]
    using assms(3) by (intro add_left_mono div_le_mono diff_le_mono nat_mono)
qed

lemma slot_bounds_redundant:
  assumes "get_latest_block src (Some rows) n t = Inr r"
    and slots: "\<forall>b \<in> set rows. date_time_to_slot src (int (row_time b)) = Inr (row_slot_no b)"
    and "nat t + unat (first_slot_number (mainchain_epoch_config src)) < 2 ^ 64" "0 \<le> min_slot_boundary src"
  shows "r = highest (filter (\<lambda>b. row_block_no b \<le> n \<and> is_stable_block_time_valid src b t) rows)"
proof -
  obtain lo hi where lh: "date_time_to_slot src (min_block_allowed_time src t) = Inr lo" "date_time_to_slot src (max_allowed_block_time src t) = Inr hi"
    and r: "r = db_highest_block rows n (min_block_allowed_time src t) lo (max_allowed_block_time src t) hi"
    using assms(1) by (auto simp: get_latest_block_def query_def bind_result_Inr_iff Let_def)
  have "lo \<le> row_slot_no b \<and> row_slot_no b \<le> hi" if "b \<in> set rows" "is_stable_block_time_valid src b t" for b
  proof -
    have b: "min_block_allowed_time src t \<le> int (row_time b)" "int (row_time b) \<le> max_allowed_block_time src t"
      using that(2) by (simp_all add: is_stable_block_time_valid_def)
    then have "nat (max_allowed_block_time src t) \<le> nat t" using assms(4) by (simp add: max_allowed_block_time_def)
    then show ?thesis
      using b assms(3) that(1) slots by (intro conjI date_time_to_slot_mono [OF lh(1) _ b(1)] date_time_to_slot_mono [OF _ lh(2) b(2)]) auto
  qed
  then show ?thesis unfolding r db_highest_block_def
    by (intro arg_cong [where f = highest] filter_cong refl) (auto simp: is_stable_block_time_valid_def)
qed

text \<open>The chosen block of a proposal, in terms of the proposer's chain.\<close>

definition proposal_of :: "block_row \<Rightarrow> block_row option \<Rightarrow> McHashInherentDataProvider" where
  "proposal_of b parent = (case parent of
      None \<Rightarrow> \<lparr>mc_block = mainchain_block b, previous_mc_block = None\<rparr>
    | Some q \<Rightarrow> \<lparr>mc_block = mainchain_block (if row_block_no q \<le> row_block_no b then b else q), previous_mc_block = Some (mainchain_block q)\<rparr>)"

lemma new_proposal_latest:
  assumes "new_proposal pd ds slot dur = Inr p" "slot_timestamp slot dur = Some ts"
  shows "\<exists>m. ds_latest_stable_block_for ds ts = Inr (Some m)"
proof (cases "ds_latest_stable_block_for ds ts")
  case (Inr r)
  then show ?thesis using assms by (cases r) (simp_all add: new_proposal_def ok_or_def source_result_def)
qed (use assms in \<open>simp add: new_proposal_def ok_or_def source_result_def\<close>)

lemma proposal_made:
  assumes "new_proposal pd (db_data_source src (Some rows) now cache) slot dur = Inr p" "chain_ok rows" "cache_ok src rows cache"
    and "unat (security_parameter src) + unat (block_stability_margin src) \<le> tip rows"
  obtains ts b q where "slot_timestamp slot dur = Some ts" "uint ts \<le> db_time_limit src" "b \<in> set rows"
    "is_stable_block_time_valid src b (uint ts)"
    "unat (row_block_no b) + unat (security_parameter src) + unat (block_stability_margin src) \<le> tip rows"
    "p = proposal_of b q"
    "case value_from_digest pd of Inl _ \<Rightarrow> q = None | Inr ph \<Rightarrow> (\<exists>r \<in> set rows. q = Some r \<and> row_hash r = ph)"
proof -
  let ?ds = "db_data_source src (Some rows) now cache"
  obtain ts where ts: "slot_timestamp slot dur = Some ts"
    using assms(1) by (cases "slot_timestamp slot dur") (auto simp: new_proposal_def ok_or_def)
  obtain m where m: "get_latest_stable_block_for src (Some rows) ts = Inr (Some m)"
    using new_proposal_latest [OF assms(1) ts] by (auto simp: db_data_source_def)
  obtain b where b: "b \<in> set rows" "m = mainchain_block b" "is_stable_block_time_valid src b (uint ts)" "uint ts \<le> db_time_limit src"
    "unat (row_block_no b) + unat (security_parameter src) + unat (block_stability_margin src) \<le> tip rows"
    using latest_stable_found [OF m assms(2,4)] by blast
  have latest: "ds_latest_stable_block_for ?ds ts = Inr (Some (mainchain_block b))" using m b(2) by (simp add: db_data_source_def)
  note simps = new_proposal_def ts ok_or_def latest source_result_def source_block_by_hash [OF assms(2,3)]
  show ?thesis
  proof (cases "value_from_digest pd")
    case (Inl e)
    then show ?thesis using assms(1) by (intro that [OF ts b(4,1,3,5), of None]) (simp_all add: simps proposal_of_def)
  next
    case (Inr ph)
    then obtain q where q: "db_block_by_hash rows ph = Some q" using assms(1) by (cases "db_block_by_hash rows ph") (simp_all add: simps)
    then have "p = proposal_of b (Some q)" using assms(1) Inr by (auto simp: simps proposal_of_def split: if_splits)
    then show ?thesis using Inr by_hash_in [OF q] by (intro that [OF ts b(4,1,3,5), of "Some q"]) simp_all
  qed
qed

text \<open>The parent of a verified block is the genesis, or the node accepted its reference.\<close>

definition parent_accepted :: "mc_digest_item list \<Rightarrow> u64 option \<Rightarrow> u64 \<Rightarrow> u64 \<Rightarrow> McHashDataSource \<Rightarrow> bool" where
  "parent_accepted pd pslot slot dur ds = (case (pslot, value_from_digest pd) of
      (None, Inl _) \<Rightarrow> True
    | (Some ps, Inr ph) \<Rightarrow> ps \<le> slot \<and> (case slot_timestamp ps dur of
          Some ts \<Rightarrow> (case ds_stable_block_for ds ph ts of Inr (BlockStable _) \<Rightarrow> True | _ \<Rightarrow> False)
        | None \<Rightarrow> False)
    | _ \<Rightarrow> False)"

lemma slot_timestamp_mono:
  assumes "slot_timestamp s dur = Some ts" "slot_timestamp s' dur = Some ts'" "s \<le> s'"
  shows "uint ts \<le> uint ts'"
proof -
  have "unat dur * unat s \<le> unat dur * unat s'" using assms(3) by (simp add: word_le_nat_alt)
  then have "unat ts \<le> unat ts'" using assms(1,2) by (simp only: slot_timestamp_def checked_mul_Some)
  then show ?thesis by (simp only: word_le_nat_alt [symmetric] word_le_def)
qed

definition chosen :: "block_row \<Rightarrow> block_row option \<Rightarrow> block_row" where
  "chosen b parent = (case parent of None \<Rightarrow> b | Some q \<Rightarrow> if row_block_no q \<le> row_block_no b then b else q)"

lemma proposal_of_fields [simp]:
  "mc_block (proposal_of b q) = mainchain_block (chosen b q)" "previous_mc_block (proposal_of b q) = map_option mainchain_block q"
  by (simp_all add: proposal_of_def chosen_def split: option.split)

text \<open>The views of two nodes agree on what a hash stands for.\<close>

definition same_hashes :: "block_row list \<Rightarrow> block_row list \<Rightarrow> bool" where
  "same_hashes rows rows' \<longleftrightarrow> (\<forall>b \<in> set rows. \<forall>b' \<in> set rows'. row_hash b = row_hash b' \<longrightarrow> b = b')"

lemma parent_reference:
  assumes "chain_ok rows'" "cache_ok src rows' cache'"
    and "parent_accepted pd pslot slot dur (db_data_source src (Some rows') now cache')"
    and "slot_timestamp slot dur = Some ts"
    and "case value_from_digest pd of Inl _ \<Rightarrow> q = None | Inr ph \<Rightarrow> (\<exists>r \<in> set rows. q = Some r \<and> row_hash r = ph)"
    and "same_hashes rows rows'"
  shows "q = None \<longleftrightarrow> pslot = None"
    and "q = Some r \<Longrightarrow> value_from_digest pd = Inr (row_hash r) \<and> r \<in> set rows \<and> confirmed src rows' r \<and> int (row_time r) \<le> uint ts - min_slot_boundary src"
proof -
  show "q = None \<longleftrightarrow> pslot = None"
    using assms(3,5) by (auto simp: parent_accepted_def split: option.splits sum.splits)
  assume q: "q = Some r"
  then have d: "value_from_digest pd = Inr (row_hash r)" and r: "r \<in> set rows" using assms(5) by (auto split: sum.splits)
  obtain ps ts0 m where ps: "ps \<le> slot" "slot_timestamp ps dur = Some ts0"
      "fst (get_stable_block_for src (Some rows') (row_hash r) ts0 cache') = Inr (BlockStable m)"
    using assms(3) d
    by (auto simp: parent_accepted_def db_data_source_def split: option.splits sum.splits StableBlockByHashResult.splits)
  then have "stable_answer src rows' (row_hash r) (uint ts0) = BlockStable m"
    by (auto simp: stable_block_for_answer [OF assms(1,2)] timestamp_to_db_type_def split: if_splits)
  then obtain r' where r': "r' \<in> set rows'" "row_hash r' = row_hash r" "is_stable_block_time_valid src r' (uint ts0)" "confirmed src rows' r'"
    unfolding stable_answer_iff [OF assms(1)] by blast
  then have "r = r'" using assms(6) r by (auto simp: same_hashes_def)
  with r' d r slot_timestamp_mono [OF ps(2) assms(4) ps(1)]
  show "value_from_digest pd = Inr (row_hash r) \<and> r \<in> set rows \<and> confirmed src rows' r \<and> int (row_time r) \<le> uint ts - min_slot_boundary src"
    by (simp add: is_stable_block_time_valid_def max_allowed_block_time_def)
qed

lemma proposal_attempt:
  assumes ok: "chain_ok rows" "chain_ok rows'" "cache_ok src rows' cache'"
    and b: "b \<in> set rows" "is_stable_block_time_valid src b (uint ts)"
    and ts: "slot_timestamp slot dur = Some ts" "uint ts \<le> db_time_limit src"
    and parent: "parent_accepted pd pslot slot dur (db_data_source src (Some rows') now cache')"
      "case value_from_digest pd of Inl _ \<Rightarrow> q = None | Inr ph \<Rightarrow> (\<exists>r \<in> set rows. q = Some r \<and> row_hash r = ph)"
    and hashes: "same_hashes rows rows'"
  shows "confirmed src rows' (chosen b q) \<Longrightarrow>
      new_verification pd pslot slot (row_hash (chosen b q)) dur (db_data_source src (Some rows') now cache') = Inr (proposal_of b q)"
    and "\<not> confirmed src rows' (chosen b q) \<Longrightarrow> is_cardano_tip_fresh src (Some rows') now = Inr False \<Longrightarrow>
      is_cardano_ok src (Some rows') now = Inr False \<Longrightarrow>
      new_verification pd pslot slot (row_hash (chosen b q)) dur (db_data_source src (Some rows') now cache') =
        Inl (AwaitingCardanoData (row_hash (chosen b q)))"
proof -
  let ?c = "chosen b q"
  note pr = parent_reference [OF ok(2,3) parent(1) ts(1) parent(2) hashes]
  have c: "?c \<in> set rows" and valid: "is_stable_block_time_valid src ?c (uint ts)"
  proof -
    have "?c \<in> set rows \<and> is_stable_block_time_valid src ?c (uint ts)"
    proof (cases "?c = b")
      case False
      then obtain r where r: "q = Some r" "\<not> row_block_no r \<le> row_block_no b" "?c = r"
        by (auto simp: chosen_def split: option.splits if_splits)
      note p = pr(2) [OF r(1)]
      then have "row_time b \<le> row_time r" using ok(1) b(1) r(2) by (auto simp: chain_ok_def)
      then show ?thesis
        using p r(3) b(2) by (simp add: is_stable_block_time_valid_def min_block_allowed_time_def max_allowed_block_time_def)
    qed (simp add: b)
    then show "?c \<in> set rows" "is_stable_block_time_valid src ?c (uint ts)" by simp_all
  qed
  show "new_verification pd pslot slot (row_hash ?c) dur (db_data_source src (Some rows') now cache') = Inr (proposal_of b q)"
    if "confirmed src rows' ?c"
  proof -
    have "reference_ok src rows' pd (pslot = None) ts (row_hash ?c) (proposal_of b q)"
      unfolding reference_ok_def
    proof (intro bexI [of _ ?c] conjI)
      show "if pslot = None then previous_mc_block (proposal_of b q) = None
        else \<exists>b' \<in> set rows'. value_from_digest pd = Inr (row_hash b') \<and>
          previous_mc_block (proposal_of b q) = Some (mainchain_block b') \<and> row_block_no b' \<le> row_block_no ?c"
        using pr by (cases q) (auto simp: confirmed_def chosen_def)
    qed (use that valid in \<open>auto simp: confirmed_def is_stable_block_time_valid_def min_block_allowed_time_def max_allowed_block_time_def\<close>)
    then show ?thesis unfolding verification_iff [OF ok(2,3) ts] .
  qed
  assume nc: "\<not> confirmed src rows' ?c" and stale: "is_cardano_tip_fresh src (Some rows') now = Inr False" "is_cardano_ok src (Some rows') now = Inr False"
  have "stable_answer src rows' (row_hash ?c) (uint ts) = BlockNotFound \<or>
    stable_answer src rows' (row_hash ?c) (uint ts) = NotEnoughConfirmations (mainchain_block ?c)"
  proof (cases "db_block_by_hash rows' (row_hash ?c)")
    case (Some c')
    have "?c = c'" using by_hash_in [OF Some] hashes c by (auto simp: same_hashes_def)
    with Some nc valid show ?thesis by (simp add: stable_answer_def)
  qed (simp add: stable_answer_def)
  then have "classify_block_hash (row_hash ?c) ts (db_data_source src (Some rows') now cache') = Inr AwaitingCardano"
    using ts(2) stale
    by (auto simp: classify_block_hash_def db_data_source_def stable_block_for_answer [OF ok(2,3)] timestamp_to_db_type_def source_result_def)
  then show "new_verification pd pslot slot (row_hash ?c) dur (db_data_source src (Some rows') now cache') =
        Inl (AwaitingCardanoData (row_hash ?c))"
    by (simp add: new_verification_def ts(1) ok_or_def)
qed

lemma verify_reference_retries:
  assumes "\<And>j. i \<le> j \<Longrightarrow> j < n \<Longrightarrow> new_verification pd pslot slot h dur (views j) = Inr p \<or> new_verification pd pslot slot h dur (views j) = Inl (AwaitingCardanoData h)"
    and "new_verification pd pslot slot h dur (views n) = Inr p" "i \<le> n" "n \<le> i + retries"
  shows "verify_reference retries i pd pslot slot h dur views = Inr p"
  using assms
proof (induction retries arbitrary: i)
  case (Suc retries)
  show ?case
  proof (cases "new_verification pd pslot slot h dur (views i) = Inr p")
    case False
    with Suc.prems(2,3) have "i < n" by (cases "i = n") auto
    with False Suc.prems(1) [of i] have "new_verification pd pslot slot h dur (views i) = Inl (AwaitingCardanoData h)" by simp
    moreover have "verify_reference retries (Suc i) pd pslot slot h dur views = Inr p"
      using Suc.prems \<open>i < n\<close> by (intro Suc.IH) auto
    ultimately show ?thesis by simp
  qed simp
qed simp


section \<open>An example\<close>

text \<open>Blocks every twenty seconds, two confirmations and a margin of one block.\<close>

definition sb_hash :: "nat \<Rightarrow> block_hash" where
  "sb_hash n = replicate 31 0 @ [of_nat n]"

definition sb_row :: "nat \<Rightarrow> block_row" where
  "sb_row n = \<lparr>row_block_no = of_nat n, row_hash = sb_hash n, row_epoch_no = 0, row_slot_no = of_nat (20 * n), row_time = 20000 * n\<rparr>"

definition sb_rows :: "nat \<Rightarrow> block_row list" where
  "sb_rows n = map sb_row [0..<Suc n]"

definition sb_source :: block_source where
  "sb_source = block_source_from_config 2 1 40000 20
    \<lparr>epoch_duration_millis = 432000000, slot_duration_millis = 1000, first_epoch_timestamp_millis = 0, first_epoch_number = 0, first_slot_number = 0\<rparr>
    1000000000000000"

definition sb_provider :: McHashInherentDataProvider where
  "sb_provider = \<lparr>mc_block = mainchain_block (sb_row 3), previous_mc_block = Some (mainchain_block (sb_row 1))\<rparr>"

lemma set_sb_rows: "set (sb_rows n) = sb_row ` {..n}"
  by (simp only: sb_rows_def set_map set_upt atLeast0LessThan lessThan_Suc_atMost)

lemma sb_hash_inject: "a \<le> 6 \<Longrightarrow> b \<le> 6 \<Longrightarrow> sb_hash a = sb_hash b \<longleftrightarrow> a = b"
  by (simp add: sb_hash_def word_unat_eq_iff unat_of_nat)

lemma unat_sb: "i \<le> 6 \<Longrightarrow> unat (row_block_no (sb_row i)) = i"
  by (simp add: sb_row_def unat_of_nat)

lemma sb_row_fields: "row_hash (sb_row i) = sb_hash i" "row_time (sb_row i) = 20000 * i"
  by (simp_all add: sb_row_def)

lemma sb_chain: "n \<le> 6 \<Longrightarrow> chain_ok (sb_rows n)"
  unfolding chain_ok_def set_sb_rows
  by (auto simp: word_le_nat_alt unat_sb sb_row_fields) (auto simp: sb_rows_def sb_row_fields comp_def distinct_map inj_on_def sb_hash_inject)

lemma sb_tip:
  assumes "n \<le> 6"
  shows "tip (sb_rows n) = n"
proof -
  have "(\<lambda>b. unat (row_block_no b)) ` set (sb_rows n) = {..n}"
    using assms by (simp add: set_sb_rows image_image unat_sb cong: image_cong_simp)
  then show ?thesis unfolding tip_def by (intro Max_eqI) auto
qed

lemma sb_parent: "value_from_digest (from_mc_block_hash (sb_hash n)) = Inr (sb_hash n)"
  by (simp add: value_from_digest_def from_mc_block_hash_def ok_or_def sb_hash_def)

lemma sb_rows_3: "sb_rows 3 = map sb_row [0, 1, 2, 3]" and sb_rows_6: "sb_rows 6 = map sb_row [0, 1, 2, 3, 4, 5, 6]"
  by (simp_all add: sb_rows_def upt_rec eval_nat_numeral)

lemma sb_latest: "db_latest_block_info (sb_rows 6) = Some (sb_row 6)"
  by (simp add: db_latest_block_info_def highest_def sb_rows_6 sb_row_def)

lemma sb_slots:
  "date_time_to_slot sb_source 0 = Inr 0" "date_time_to_slot sb_source 80000 = Inr 80"
  by (simp_all add: date_time_to_slot_def sb_source_def block_source_from_config_def timestamp_to_mainchain_slot_number_def
      checked_sub_def checked_div_def)

lemma sb_found: "db_highest_block (sb_rows 6) 3 0 0 80000 80 = Some (sb_row 3)"
  by (simp add: db_highest_block_def highest_def sb_rows_6 sb_row_def)

lemma sb_source_fields:
  "security_parameter sb_source = 2" "block_stability_margin sb_source = 1" "min_slot_boundary sb_source = 40000"
  "max_slot_boundary sb_source = 120000" "db_time_limit sb_source = 1000000000000000" "max_latest_block_age_seconds sb_source = 20"
  by (simp_all add: sb_source_def block_source_from_config_def saturating_mul_def)

lemma sb_timestamps: "slot_timestamp 20 6000 = Some 120000" "slot_timestamp 15 6000 = Some 90000"
  by (simp_all add: slot_timestamp_def checked_mul_def)

lemma sb_by_hash: "n \<le> 6 \<Longrightarrow> m \<le> n \<Longrightarrow> db_block_by_hash (sb_rows n) (sb_hash m) = Some (sb_row m)"
  using by_hash_found [OF sb_chain, of n "sb_row m"] by (simp add: set_sb_rows sb_row_fields)

lemma sb_proposal: "new_proposal (from_mc_block_hash (sb_hash 1)) (db_data_source sb_source (Some (sb_rows 6)) 150000 []) 20 6000 = Inr sb_provider"
proof -
  have "get_latest_block sb_source (Some (sb_rows 6)) 3 120000 = Inr (Some (sb_row 3))"
    by (simp add: get_latest_block_def min_block_allowed_time_def max_allowed_block_time_def sb_source_fields sb_slots sb_found query_def)
  then have "get_latest_stable_block_for sb_source (Some (sb_rows 6)) 120000 = Inr (Some (mainchain_block (sb_row 3)))"
    by (simp add: get_latest_stable_block_for_def timestamp_to_db_type_def get_latest_block_info_def query_def sb_latest ok_or_def
        sb_source_fields saturating_sub_def sb_row_def [of 6] Let_def)
  moreover have "source_get_block_by_hash (Some (sb_rows 6)) (sb_hash 1) [] = Inr (Some (mainchain_block (sb_row 1)))"
    by (simp add: source_get_block_by_hash_def find_by_hash_def query_def sb_by_hash)
  ultimately show ?thesis
    by (simp add: new_proposal_def sb_timestamps ok_or_def source_result_def sb_parent db_data_source_def sb_provider_def sb_row_def)
qed

lemma sb_reachable: "n \<le> 6 \<Longrightarrow> reachable block_source_init (block_source_step sb_source) (sb_rows n, [])"
  by (intro reachable_init) (simp add: block_source_init_def sb_chain)

lemma sb_confirmed: "m + 2 \<le> n \<Longrightarrow> n \<le> 6 \<Longrightarrow> confirmed sb_source (sb_rows n) (sb_row m)"
  by (simp add: confirmed_def set_sb_rows sb_source_fields sb_tip unat_sb)

lemma sb_same_hashes: "n \<le> 6 \<Longrightarrow> m \<le> 6 \<Longrightarrow> same_hashes (sb_rows n) (sb_rows m)"
  by (auto simp: same_hashes_def set_sb_rows sb_row_fields sb_hash_inject)

definition sb_views :: "nat \<Rightarrow> McHashDataSource" where
  "sb_views j = db_data_source sb_source (Some (sb_rows (if j = 0 then 3 else 5))) 900000 []"

lemma sb_parent_accepted: "parent_accepted (from_mc_block_hash (sb_hash 1)) (Some 15) 20 6000 (sb_views j)"
proof -
  have "fst (get_stable_block_for sb_source (Some (sb_rows n)) (sb_hash 1) 90000 []) = Inr (BlockStable (mainchain_block (sb_row 1)))"
    if "3 \<le> n" "n \<le> 6" for n
    using sb_confirmed [of 1 n] sb_by_hash [of n 1] that
    by (simp add: stable_block_for_answer sb_chain cache_ok_def timestamp_to_db_type_def sb_source_fields stable_answer_def
        is_stable_block_time_valid_def min_block_allowed_time_def max_allowed_block_time_def sb_row_fields)
  from this [of 3] this [of 5] show ?thesis
    by (simp add: parent_accepted_def sb_parent sb_timestamps sb_views_def db_data_source_def)
qed

theorem stable_cache_transparent_witness:
  "fst (get_stable_block_for sb_source (Some (sb_rows 6)) (sb_hash 3) 120000
      (snd (get_stable_block_for sb_source (Some (sb_rows 5)) (sb_hash 1) 90000 []))) = Inr (BlockStable (mainchain_block (sb_row 3)))"
proof -
  let ?cache = "snd (get_stable_block_for sb_source (Some (sb_rows 5)) (sb_hash 1) 90000 [])"
  have "tables_extend sb_source (sb_rows 5) (sb_rows 6)" by (auto simp: tables_extend_def sb_chain sb_tip set_sb_rows)
  then have "reachable block_source_init (block_source_step sb_source) (sb_rows 6, ?cache)"
    using sb_reachable [of 5] by (intro reachable_step [OF reachable_step [OF sb_reachable [of 5] source_asked] tables_grow]) simp_all
  from stable_cache_transparent [OF this, THEN conjunct1] show ?thesis
    using sb_confirmed [of 3 6] sb_by_hash [of 6 3]
    by (simp add: stable_block_for_answer sb_chain cache_ok_def timestamp_to_db_type_def sb_source_fields stable_answer_def
        is_stable_block_time_valid_def min_block_allowed_time_def max_allowed_block_time_def sb_row_fields)
qed

theorem verified_reference_sound_witness:
  "\<exists>ts. slot_timestamp 20 6000 = Some ts \<and> reference_ok sb_source (sb_rows 6) (from_mc_block_hash (sb_hash 1)) False ts (sb_hash 3) sb_provider"
proof -
  have "reference_ok sb_source (sb_rows 6) (from_mc_block_hash (sb_hash 1)) (Some (15 :: u64) = None) 120000 (sb_hash 3) sb_provider"
    unfolding reference_ok_def
    by (simp add: sb_provider_def sb_source_fields sb_tip unat_sb sb_row_fields sb_parent set_sb_rows word_le_nat_alt)
      (intro bexI [of _ 3] conjI bexI [of _ 1], simp_all)
  then have "verify_reference 60 0 (from_mc_block_hash (sb_hash 1)) (Some 15) 20 (sb_hash 3) 6000
      (\<lambda>j. db_data_source sb_source (Some (sb_rows 6)) 900000 []) = Inr sb_provider"
    by (intro verify_reference_retries [where n = 0])
      (simp_all add: verification_iff [OF sb_chain _ sb_timestamps(1)] cache_ok_def sb_source_fields)
  from verified_reference_sound [OF sb_reachable this] show ?thesis by auto
qed


end
