(* ===== verification/Candidate_Datums.thy ===== *)
theory Candidate_Datums
  imports Plutus Committee_Selection
begin

text \<open>
  The datums through which Cardano tells a partner chain its committee parameters
  (\<open>smart-contracts/plutus-data/src\<close>): the D-parameter, the list of permissioned
  candidates and the registration of a candidate, with their versions and the format
  of before there were versions.  Decoding returns \<open>None\<close> for every error; the source
  also gives a message.
\<close>

section \<open>Versioned datums\<close>

definition versioned_generic_datum :: "plutus \<Rightarrow> plutus \<Rightarrow> u64 \<Rightarrow> plutus" where
  "versioned_generic_datum datum appendix version = PlutusList [datum, appendix, PlutusInteger (uint version)]"

definition plutus_data_version_and_payload :: "plutus \<Rightarrow> (plutus \<times> plutus \<times> u64) option" where
  "plutus_data_version_and_payload d =
    (case as_list d of
       Some [datum, appendix, version] \<Rightarrow> map_option (\<lambda>v. (datum, appendix, v)) (as_u64 version)
     | _ \<Rightarrow> None)"

definition decode_versioned_datum :: "(plutus \<Rightarrow> 'a option) \<Rightarrow> (u64 \<Rightarrow> plutus \<Rightarrow> plutus \<Rightarrow> 'a option) \<Rightarrow> plutus \<Rightarrow> 'a option" where
  "decode_versioned_datum legacy versioned d =
    (case plutus_data_version_and_payload d of
       None \<Rightarrow> legacy d
     | Some (datum, appendix, version) \<Rightarrow> versioned version datum appendix)"

section \<open>The D-parameter\<close>

definition decode_d_param_legacy :: "plutus \<Rightarrow> (u16 \<times> u16) option" where
  "decode_d_param_legacy d =
    (case as_list d of
       Some [p, r] \<Rightarrow> (case (as_u16 p, as_u16 r) of (Some p, Some r) \<Rightarrow> Some (p, r) | _ \<Rightarrow> None)
     | _ \<Rightarrow> None)"

definition decode_d_param_versioned :: "u64 \<Rightarrow> plutus \<Rightarrow> plutus \<Rightarrow> (u16 \<times> u16) option" where
  "decode_d_param_versioned version datum appendix = (if version = 0 then decode_d_param_legacy appendix else None)"

definition decode_d_param :: "plutus \<Rightarrow> (u16 \<times> u16) option" where
  "decode_d_param = decode_versioned_datum decode_d_param_legacy decode_d_param_versioned"

definition d_parameter_to_plutus_data :: "u16 \<times> u16 \<Rightarrow> plutus" where
  "d_parameter_to_plutus_data d =
    versioned_generic_datum (PlutusConstr 0 []) (PlutusList [PlutusInteger (uint (fst d)), PlutusInteger (uint (snd d))]) 0"

section \<open>Keys of a candidate\<close>

definition AURA :: "u8 list" where "AURA = [0x61, 0x75, 0x72, 0x61]"

definition GRANDPA :: "u8 list" where "GRANDPA = [0x67, 0x72, 0x61, 0x6e]"

definition find_key :: "CandidateKeys \<Rightarrow> u8 list \<Rightarrow> u8 list option" where
  "find_key keys i = map_of keys i"

definition find_or_empty :: "CandidateKeys \<Rightarrow> u8 list \<Rightarrow> u8 list" where
  "find_or_empty keys i = (case find_key keys i of Some b \<Rightarrow> b | None \<Rightarrow> [])"

definition has_only_aura_and_grandpa_keys :: "CandidateKeys \<Rightarrow> bool" where
  "has_only_aura_and_grandpa_keys keys \<longleftrightarrow> length keys = 2 \<and> find_key keys AURA \<noteq> None \<and> find_key keys GRANDPA \<noteq> None"

definition decode_candidate_key :: "plutus \<Rightarrow> (u8 list \<times> u8 list) option" where
  "decode_candidate_key d =
    (case as_list d of
       Some [i, b] \<Rightarrow> (case (as_byte_string i, as_byte_string b) of
           (Some i, Some b) \<Rightarrow> if length i = 4 then Some (i, b) else None
         | _ \<Rightarrow> None)
     | _ \<Rightarrow> None)"

definition decode_candidate_keys :: "plutus \<Rightarrow> CandidateKeys option" where
  "decode_candidate_keys d = (case as_list d of Some ds \<Rightarrow> those (map decode_candidate_key ds) | None \<Rightarrow> None)"

definition candidate_keys_to_plutus :: "CandidateKeys \<Rightarrow> plutus" where
  "candidate_keys_to_plutus keys = PlutusList (map (\<lambda>(i, b). PlutusList [PlutusByteString i, PlutusByteString b]) keys)"

section \<open>Permissioned candidates\<close>

datatype PermissionedCandidateDatums =
    PermissionedV0 "(u8 list \<times> u8 list \<times> u8 list) list"
  | PermissionedV1 "(u8 list \<times> CandidateKeys) list"

definition decode_legacy_candidate_datum :: "plutus \<Rightarrow> (u8 list \<times> u8 list \<times> u8 list) option" where
  "decode_legacy_candidate_datum d =
    (case as_list d of
       Some [sc, aura, grandpa] \<Rightarrow> (case (as_byte_string sc, as_byte_string aura, as_byte_string grandpa) of
           (Some sc, Some aura, Some grandpa) \<Rightarrow> Some (sc, aura, grandpa)
         | _ \<Rightarrow> None)
     | _ \<Rightarrow> None)"

definition decode_v1_candidate_datum :: "plutus \<Rightarrow> (u8 list \<times> CandidateKeys) option" where
  "decode_v1_candidate_datum d =
    (case as_list d of
       Some [sc, keys] \<Rightarrow> (case (as_byte_string sc, decode_candidate_keys keys) of
           (Some sc, Some keys) \<Rightarrow> Some (sc, keys)
         | _ \<Rightarrow> None)
     | _ \<Rightarrow> None)"

definition decode_permissioned_legacy :: "plutus \<Rightarrow> PermissionedCandidateDatums option" where
  "decode_permissioned_legacy d =
    (case as_list d of Some ds \<Rightarrow> map_option PermissionedV0 (those (map decode_legacy_candidate_datum ds)) | None \<Rightarrow> None)"

definition decode_v1_appendix :: "plutus \<Rightarrow> PermissionedCandidateDatums option" where
  "decode_v1_appendix d =
    (case as_list d of Some ds \<Rightarrow> map_option PermissionedV1 (those (map decode_v1_candidate_datum ds)) | None \<Rightarrow> None)"

definition decode_permissioned :: "plutus \<Rightarrow> PermissionedCandidateDatums option" where
  "decode_permissioned = decode_versioned_datum decode_permissioned_legacy (\<lambda>version datum appendix.
    if version = 0 then decode_permissioned_legacy appendix
    else if version = 1 then decode_v1_appendix appendix
    else None)"

fun permissioned_data :: "PermissionedCandidateDatums \<Rightarrow> PermissionedCandidateData list" where
  "permissioned_data (PermissionedV0 cs) =
    map (\<lambda>(sc, aura, grandpa). \<lparr>sidechain_public_key = sc, candidate_keys = [(AURA, aura), (GRANDPA, grandpa)]\<rparr>) cs"
| "permissioned_data (PermissionedV1 cs) = map (\<lambda>(sc, keys). \<lparr>sidechain_public_key = sc, candidate_keys = keys\<rparr>) cs"

definition candidates_to_plutus_data_v0 :: "PermissionedCandidateData list \<Rightarrow> plutus" where
  "candidates_to_plutus_data_v0 cs =
    versioned_generic_datum (PlutusConstr 0 [])
      (PlutusList (map (\<lambda>c. PlutusList (PlutusByteString (sidechain_public_key c) # map (\<lambda>(i, b). PlutusByteString b) (candidate_keys c))) cs)) 0"

definition candidates_to_plutus_data_v1 :: "PermissionedCandidateData list \<Rightarrow> plutus" where
  "candidates_to_plutus_data_v1 cs =
    versioned_generic_datum (PlutusConstr 0 [])
      (PlutusList (map (\<lambda>c. PlutusList [PlutusByteString (sidechain_public_key c), candidate_keys_to_plutus (candidate_keys c)]) cs)) 1"

definition permissioned_candidates_to_plutus_data :: "PermissionedCandidateData list \<Rightarrow> plutus" where
  "permissioned_candidates_to_plutus_data cs =
    (if list_all (\<lambda>c. has_only_aura_and_grandpa_keys (candidate_keys c)) cs then candidates_to_plutus_data_v0 cs
     else candidates_to_plutus_data_v1 cs)"

section \<open>Registrations\<close>

record AdaBasedStaking =
  pool_pub_key :: "u8 list"
  pool_signature :: "u8 list"

record CandidateRegistration =
  stake_ownership :: AdaBasedStaking
  partner_chain_pub_key :: "u8 list"
  partner_chain_signature :: "u8 list"
  own_pkh :: "u8 list"
  input_utxo :: candidate_utxo
  owner_keys :: CandidateKeys

text \<open>A datum of version 0 carries the two keys, one of version 1 a list of keys.\<close>

datatype RegisterValidatorDatum =
    RegistrationV0 AdaBasedStaking "u8 list" "u8 list" candidate_utxo "u8 list" "u8 list" "u8 list"
  | RegistrationV1 AdaBasedStaking "u8 list" "u8 list" candidate_utxo "u8 list" CandidateKeys

definition sized :: "nat \<Rightarrow> u8 list \<Rightarrow> u8 list option" where
  "sized n b = (if length b = n then Some b else None)"

text \<open>The fields of the first alternative of a datum, of a sufficient number.\<close>

definition fields_at_least :: "nat \<Rightarrow> plutus \<Rightarrow> plutus list option" where
  "fields_at_least n d = (case as_constr d of Some (a, fs) \<Rightarrow> if a = 0 \<and> n \<le> length fs then Some fs else None | None \<Rightarrow> None)"

definition decode_ada_based_staking_datum :: "plutus \<Rightarrow> AdaBasedStaking option" where
  "decode_ada_based_staking_datum d =
    Option.bind (fields_at_least 2 d) (\<lambda>fs.
    Option.bind (Option.bind (as_byte_string (fs ! 0)) (sized 32)) (\<lambda>pub_key.
    Option.bind (Option.bind (as_byte_string (fs ! 1)) (sized 64)) (\<lambda>signature.
    Some \<lparr>pool_pub_key = pub_key, pool_signature = signature\<rparr>)))"

definition decode_tx_hash_datum :: "plutus \<Rightarrow> u8 list option" where
  "decode_tx_hash_datum d = Option.bind (fields_at_least 1 d) (\<lambda>fs. Option.bind (as_byte_string (fs ! 0)) (sized 32))"

definition decode_utxo_id_datum :: "plutus \<Rightarrow> candidate_utxo option" where
  "decode_utxo_id_datum d =
    Option.bind (fields_at_least 2 d) (\<lambda>fs.
    Option.bind (decode_tx_hash_datum (fs ! 0)) (\<lambda>tx_hash.
    Option.bind (as_u16 (fs ! 1)) (\<lambda>index. Some \<lparr>utxo_tx_hash = tx_hash, utxo_index = index\<rparr>)))"

definition decode_legacy_register_validator_datum :: "plutus \<Rightarrow> RegisterValidatorDatum option" where
  "decode_legacy_register_validator_datum d =
    Option.bind (fields_at_least 7 d) (\<lambda>fs.
    Option.bind (decode_ada_based_staking_datum (fs ! 0)) (\<lambda>staking.
    Option.bind (as_byte_string (fs ! 1)) (\<lambda>key.
    Option.bind (as_byte_string (fs ! 2)) (\<lambda>signature.
    Option.bind (decode_utxo_id_datum (fs ! 3)) (\<lambda>utxo.
    Option.bind (Option.bind (as_byte_string (fs ! 4)) (sized 28)) (\<lambda>pkh.
    Option.bind (as_byte_string (fs ! 5)) (\<lambda>aura.
    Option.bind (as_byte_string (fs ! 6)) (\<lambda>grandpa.
    Some (RegistrationV0 staking key signature utxo pkh aura grandpa)))))))))"

definition decode_v0_register_validator_datum :: "plutus \<Rightarrow> plutus \<Rightarrow> RegisterValidatorDatum option" where
  "decode_v0_register_validator_datum datum appendix =
    Option.bind (fields_at_least 6 appendix) (\<lambda>fs.
    Option.bind (decode_ada_based_staking_datum (fs ! 0)) (\<lambda>staking.
    Option.bind (as_byte_string (fs ! 1)) (\<lambda>key.
    Option.bind (as_byte_string (fs ! 2)) (\<lambda>signature.
    Option.bind (decode_utxo_id_datum (fs ! 3)) (\<lambda>utxo.
    Option.bind (as_byte_string (fs ! 4)) (\<lambda>aura.
    Option.bind (as_byte_string (fs ! 5)) (\<lambda>grandpa.
    Option.bind (Option.bind (as_byte_string datum) (sized 28)) (\<lambda>pkh.
    Some (RegistrationV0 staking key signature utxo pkh aura grandpa)))))))))"

definition decode_v1_register_validator_datum :: "plutus \<Rightarrow> plutus \<Rightarrow> RegisterValidatorDatum option" where
  "decode_v1_register_validator_datum datum appendix =
    Option.bind (fields_at_least 5 appendix) (\<lambda>fs.
    if length fs \<noteq> 5 then None
    else Option.bind (decode_ada_based_staking_datum (fs ! 0)) (\<lambda>staking.
    Option.bind (as_byte_string (fs ! 1)) (\<lambda>key.
    Option.bind (as_byte_string (fs ! 2)) (\<lambda>signature.
    Option.bind (decode_utxo_id_datum (fs ! 3)) (\<lambda>utxo.
    Option.bind (decode_candidate_keys (fs ! 4)) (\<lambda>keys.
    Option.bind (Option.bind (as_byte_string datum) (sized 28)) (\<lambda>pkh.
    Some (RegistrationV1 staking key signature utxo pkh keys))))))))"

definition decode_registration :: "plutus \<Rightarrow> RegisterValidatorDatum option" where
  "decode_registration = decode_versioned_datum decode_legacy_register_validator_datum (\<lambda>version datum appendix.
    if version = 0 then decode_v0_register_validator_datum datum appendix
    else if version = 1 then decode_v1_register_validator_datum datum appendix
    else None)"

definition stake_ownership_to_plutus_data :: "AdaBasedStaking \<Rightarrow> plutus" where
  "stake_ownership_to_plutus_data s = PlutusConstr 0 [PlutusByteString (pool_pub_key s), PlutusByteString (pool_signature s)]"

definition utxo_id_to_plutus_data :: "candidate_utxo \<Rightarrow> plutus" where
  "utxo_id_to_plutus_data u =
    PlutusConstr 0 [PlutusConstr 0 [PlutusByteString (utxo_tx_hash u)], PlutusInteger (uint (utxo_index u))]"

fun register_validator_to_plutus_data :: "RegisterValidatorDatum \<Rightarrow> plutus" where
  "register_validator_to_plutus_data (RegistrationV0 staking key signature utxo pkh aura grandpa) =
    versioned_generic_datum (PlutusByteString pkh)
      (PlutusConstr 0 [stake_ownership_to_plutus_data staking, PlutusByteString key, PlutusByteString signature,
        utxo_id_to_plutus_data utxo, PlutusByteString aura, PlutusByteString grandpa]) 0"
| "register_validator_to_plutus_data (RegistrationV1 staking key signature utxo pkh keys) =
    versioned_generic_datum (PlutusByteString pkh)
      (PlutusConstr 0 [stake_ownership_to_plutus_data staking, PlutusByteString key, PlutusByteString signature,
        utxo_id_to_plutus_data utxo, candidate_keys_to_plutus keys]) 1"

definition candidate_registration_to_plutus_data :: "CandidateRegistration \<Rightarrow> plutus" where
  "candidate_registration_to_plutus_data r = register_validator_to_plutus_data
    (if has_only_aura_and_grandpa_keys (owner_keys r)
     then RegistrationV0 (stake_ownership r) (partner_chain_pub_key r) (partner_chain_signature r) (input_utxo r) (own_pkh r)
       (find_or_empty (owner_keys r) AURA) (find_or_empty (owner_keys r) GRANDPA)
     else RegistrationV1 (stake_ownership r) (partner_chain_pub_key r) (partner_chain_signature r) (input_utxo r) (own_pkh r) (owner_keys r))"

fun candidate_registration :: "RegisterValidatorDatum \<Rightarrow> CandidateRegistration" where
  "candidate_registration (RegistrationV0 staking key signature utxo pkh aura grandpa) =
    \<lparr>stake_ownership = staking, partner_chain_pub_key = key, partner_chain_signature = signature, own_pkh = pkh,
     input_utxo = utxo, owner_keys = [(AURA, aura), (GRANDPA, grandpa)]\<rparr>"
| "candidate_registration (RegistrationV1 staking key signature utxo pkh keys) =
    \<lparr>stake_ownership = staking, partner_chain_pub_key = key, partner_chain_signature = signature, own_pkh = pkh,
     input_utxo = utxo, owner_keys = keys\<rparr>"

section \<open>Round trips\<close>

lemma those_map: "(\<And>x. x \<in> set xs \<Longrightarrow> f x = Some (h x)) \<Longrightarrow> those (map f xs) = Some (map h xs)"
  by (induction xs) auto

lemma versioned_payload [simp]:
  "decode_versioned_datum legacy versioned (versioned_generic_datum datum appendix version) = versioned version datum appendix"
  by (simp add: decode_versioned_datum_def plutus_data_version_and_payload_def versioned_generic_datum_def as_u64_uint)

lemma d_param_roundtrip: "decode_d_param (d_parameter_to_plutus_data d) = Some d"
  by (cases d) (simp add: decode_d_param_def d_parameter_to_plutus_data_def decode_d_param_versioned_def decode_d_param_legacy_def as_u16_uint)

lemma key_types: "AURA \<noteq> GRANDPA" "length AURA = 4" "length GRANDPA = 4"
  by (simp_all add: AURA_def GRANDPA_def)

lemma decode_keys_roundtrip:
  assumes "\<forall>k \<in> set keys. length (fst k) = 4"
  shows "decode_candidate_keys (candidate_keys_to_plutus keys) = Some keys"
proof -
  have "those (map (\<lambda>k. decode_candidate_key (case k of (i, b) \<Rightarrow> PlutusList [PlutusByteString i, PlutusByteString b])) keys) = Some (map (\<lambda>k. k) keys)"
    using assms by (intro those_map) (auto simp: decode_candidate_key_def)
  then show ?thesis by (simp add: decode_candidate_keys_def candidate_keys_to_plutus_def comp_def)
qed

text \<open>The two keys in the order of version 0.\<close>

definition standard_keys :: "CandidateKeys \<Rightarrow> CandidateKeys" where
  "standard_keys keys =
    (if has_only_aura_and_grandpa_keys keys then [(AURA, find_or_empty keys AURA), (GRANDPA, find_or_empty keys GRANDPA)] else keys)"

lemma two_keys:
  assumes "has_only_aura_and_grandpa_keys keys"
  obtains a g where "keys = [(AURA, a), (GRANDPA, g)] \<or> keys = [(GRANDPA, g), (AURA, a)]"
proof -
  obtain x y where xy: "keys = [x, y]"
    using assms by (auto simp: has_only_aura_and_grandpa_keys_def length_Suc_conv numeral_2_eq_2)
  obtain i b j c where ij: "x = (i, b)" "y = (j, c)" by (metis surj_pair)
  have "(i = AURA \<or> j = AURA) \<and> (i = GRANDPA \<or> j = GRANDPA)"
    using assms by (auto simp: has_only_aura_and_grandpa_keys_def find_key_def xy ij split: if_splits)
  then show ?thesis using that key_types(1) unfolding xy ij by metis
qed

lemma standard_keys_mset: "mset (standard_keys keys) = mset keys"
proof (cases "has_only_aura_and_grandpa_keys keys")
  case True
  from two_keys [OF this] obtain a g where "keys = [(AURA, a), (GRANDPA, g)] \<or> keys = [(GRANDPA, g), (AURA, a)]" by blast
  then show ?thesis using True key_types(1) by (auto simp: standard_keys_def find_or_empty_def find_key_def)
qed (simp add: standard_keys_def)

definition registration_ok :: "CandidateRegistration \<Rightarrow> bool" where
  "registration_ok r \<longleftrightarrow> length (pool_pub_key (stake_ownership r)) = 32 \<and> length (pool_signature (stake_ownership r)) = 64 \<and>
    length (own_pkh r) = 28 \<and> length (utxo_tx_hash (input_utxo r)) = 32 \<and> (\<forall>k \<in> set (owner_keys r). length (fst k) = 4)"

lemma decode_staking_roundtrip:
  "length (pool_pub_key s) = 32 \<Longrightarrow> length (pool_signature s) = 64 \<Longrightarrow>
    decode_ada_based_staking_datum (stake_ownership_to_plutus_data s) = Some s"
  by (simp add: decode_ada_based_staking_datum_def stake_ownership_to_plutus_data_def fields_at_least_def sized_def)

lemma decode_utxo_roundtrip: "length (utxo_tx_hash u) = 32 \<Longrightarrow> decode_utxo_id_datum (utxo_id_to_plutus_data u) = Some u"
  by (simp add: decode_utxo_id_datum_def utxo_id_to_plutus_data_def decode_tx_hash_datum_def fields_at_least_def sized_def as_u16_uint)

text \<open>
  C36: A registration is read back from the datum it is written as, up to the order of
  the keys: a candidate with exactly the two standard keys is written in version 0 and
  read back with the block production key first, every other one in version 1 with
  its keys as they are.
\<close>

theorem registration_datum_roundtrip:
  assumes "registration_ok r"
  shows "map_option candidate_registration (decode_registration (candidate_registration_to_plutus_data r)) =
      Some (r\<lparr>owner_keys := standard_keys (owner_keys r)\<rparr>) \<and> mset (standard_keys (owner_keys r)) = mset (owner_keys r)"
proof -
  note simps = candidate_registration_to_plutus_data_def decode_registration_def decode_v0_register_validator_datum_def
    decode_v1_register_validator_datum_def fields_at_least_def sized_def decode_staking_roundtrip decode_utxo_roundtrip
    decode_keys_roundtrip standard_keys_def
  have "map_option candidate_registration (decode_registration (candidate_registration_to_plutus_data r)) =
      Some (r\<lparr>owner_keys := standard_keys (owner_keys r)\<rparr>)"
    using assms by (cases "has_only_aura_and_grandpa_keys (owner_keys r)") (auto simp: registration_ok_def simps)
  then show ?thesis by (simp add: standard_keys_mset)
qed

section \<open>The list of permissioned candidates\<close>

lemma permissioned_v1_roundtrip:
  assumes "\<forall>c \<in> set cs. \<forall>k \<in> set (candidate_keys c). length (fst k) = 4"
  shows "map_option permissioned_data (decode_permissioned (candidates_to_plutus_data_v1 cs)) = Some cs"
proof -
  have "those (map (\<lambda>c. decode_v1_candidate_datum (PlutusList [PlutusByteString (sidechain_public_key c), candidate_keys_to_plutus (candidate_keys c)])) cs) =
    Some (map (\<lambda>c. (sidechain_public_key c, candidate_keys c)) cs)"
    using assms by (intro those_map) (auto simp: decode_v1_candidate_datum_def decode_keys_roundtrip)
  moreover have "map (\<lambda>c :: PermissionedCandidateData. \<lparr>sidechain_public_key = sidechain_public_key c, candidate_keys = candidate_keys c\<rparr>) cs = cs"
    by (rule map_idI) simp
  ultimately show ?thesis
    by (simp add: decode_permissioned_def candidates_to_plutus_data_v1_def decode_v1_appendix_def comp_def)
qed

lemma permissioned_v0_read:
  assumes "\<forall>c \<in> set cs. length (candidate_keys c) = 2"
  shows "map_option permissioned_data (decode_permissioned (candidates_to_plutus_data_v0 cs)) =
    Some (map (\<lambda>c. c\<lparr>candidate_keys := [(AURA, snd (candidate_keys c ! 0)), (GRANDPA, snd (candidate_keys c ! 1))]\<rparr>) cs)"
proof -
  have "those (map (\<lambda>c. decode_legacy_candidate_datum
      (PlutusList (PlutusByteString (sidechain_public_key c) # map (\<lambda>(i, b). PlutusByteString b) (candidate_keys c)))) cs) =
    Some (map (\<lambda>c. (sidechain_public_key c, snd (candidate_keys c ! 0), snd (candidate_keys c ! 1))) cs)"
  proof (rule those_map)
    fix c assume "c \<in> set cs"
    with assms obtain x y where "candidate_keys c = [x, y]" by (auto simp: length_Suc_conv numeral_2_eq_2)
    then show "decode_legacy_candidate_datum
        (PlutusList (PlutusByteString (sidechain_public_key c) # map (\<lambda>(i, b). PlutusByteString b) (candidate_keys c))) =
      Some (sidechain_public_key c, snd (candidate_keys c ! 0), snd (candidate_keys c ! 1))"
      by (cases x; cases y) (simp add: decode_legacy_candidate_datum_def)
  qed
  then show ?thesis
    by (simp add: decode_permissioned_def candidates_to_plutus_data_v0_def decode_permissioned_legacy_def comp_def)
qed

text \<open>
  C37: A list of permissioned candidates is read back as it was written, with one
  exception: when every candidate has exactly the two standard keys, the bytes are
  written in the order of the list but read back in the standard order, so that a
  candidate whose keys are listed in the other order gets them swapped.
\<close>

theorem permissioned_datum_roundtrip:
  assumes "\<forall>c \<in> set cs. \<forall>k \<in> set (candidate_keys c). length (fst k) = 4"
  shows "map_option permissioned_data (decode_permissioned (permissioned_candidates_to_plutus_data cs)) = Some cs \<longleftrightarrow>
    (\<forall>c \<in> set cs. has_only_aura_and_grandpa_keys (candidate_keys c)) \<longrightarrow> (\<forall>c \<in> set cs. map fst (candidate_keys c) = [AURA, GRANDPA])"
proof (cases "\<forall>c \<in> set cs. has_only_aura_and_grandpa_keys (candidate_keys c)")
  case True
  let ?h = "\<lambda>c :: PermissionedCandidateData. c\<lparr>candidate_keys := [(AURA, snd (candidate_keys c ! 0)), (GRANDPA, snd (candidate_keys c ! 1))]\<rparr>"
  have enc: "permissioned_candidates_to_plutus_data cs = candidates_to_plutus_data_v0 cs"
    using True by (simp add: permissioned_candidates_to_plutus_data_def list_all_iff)
  have same: "?h c = c \<longleftrightarrow> map fst (candidate_keys c) = [AURA, GRANDPA]" if "c \<in> set cs" for c
  proof -
    obtain a g where "candidate_keys c = [(AURA, a), (GRANDPA, g)] \<or> candidate_keys c = [(GRANDPA, g), (AURA, a)]"
      using two_keys True \<open>c \<in> set cs\<close> by blast
    then show ?thesis using key_types(1) by (cases c) auto
  qed
  have read: "map_option permissioned_data (decode_permissioned (candidates_to_plutus_data_v0 cs)) = Some (map ?h cs)"
    using True by (intro permissioned_v0_read) (simp add: has_only_aura_and_grandpa_keys_def)
  have "map ?h cs = cs \<longleftrightarrow> (\<forall>c \<in> set cs. ?h c = c)" by (simp add: list_eq_iff_nth_eq all_set_conv_all_nth)
  also have "\<dots> \<longleftrightarrow> (\<forall>c \<in> set cs. map fst (candidate_keys c) = [AURA, GRANDPA])" using same by blast
  finally show ?thesis unfolding enc read option.inject using True by simp
next
  case False
  then show ?thesis
    using permissioned_v1_roundtrip [OF assms] by (auto simp: permissioned_candidates_to_plutus_data_def list_all_iff)
qed

theorem registration_datum_roundtrip_witness:
  "map_option (\<lambda>d. owner_keys (candidate_registration d)) (decode_registration (candidate_registration_to_plutus_data
    \<lparr>stake_ownership = \<lparr>pool_pub_key = replicate 32 1, pool_signature = replicate 64 2\<rparr>, partner_chain_pub_key = [3],
     partner_chain_signature = [4], own_pkh = replicate 28 5, input_utxo = \<lparr>utxo_tx_hash = replicate 32 6, utxo_index = 7\<rparr>,
     owner_keys = [(GRANDPA, [8]), (AURA, [9])]\<rparr>)) = Some [(AURA, [9]), (GRANDPA, [8])]"
  (is "map_option _ (decode_registration (candidate_registration_to_plutus_data ?r)) = _")
proof -
  have "registration_ok ?r" by (simp add: registration_ok_def key_types)
  from arg_cong [OF conjunct1 [OF registration_datum_roundtrip [OF this]], of "map_option owner_keys"] show ?thesis
    using key_types(1) by (simp add: option.map_comp comp_def standard_keys_def has_only_aura_and_grandpa_keys_def find_key_def find_or_empty_def)
qed

theorem permissioned_datum_roundtrip_witness:
  "map_option permissioned_data (decode_permissioned (permissioned_candidates_to_plutus_data
    [\<lparr>sidechain_public_key = [1], candidate_keys = [(GRANDPA, [2]), (AURA, [3])]\<rparr>]))
    \<noteq> Some [\<lparr>sidechain_public_key = [1], candidate_keys = [(GRANDPA, [2]), (AURA, [3])]\<rparr>]"
  using permissioned_datum_roundtrip [of "[\<lparr>sidechain_public_key = [1], candidate_keys = [(GRANDPA, [2]), (AURA, [3])]\<rparr>]"] key_types
  by (simp add: has_only_aura_and_grandpa_keys_def find_key_def)

end
