(* ===== verification/Spec2Isabelle.thy ===== *)
theory Spec2Isabelle
  imports Federated_Authority Throttle Consensus_Engine CNight_Source Midnight_Pallet CNight_Observation C2M_Bridge Bridge_Source Authority_Observation Committee_Pallet Stable_Blocks Candidate_Datums
begin

text \<open>
  A verification library for the Midnight node: the runtime pallets, the host side of
  the ledger they call, the parts of the partner-chains toolkit they build on, and
  the data sources that feed them with observations of Cardano.  Paths are
  relative to \<open>src/\<close>.

  \<^bold>\<open>The program.\<close>  A node produces and imports blocks.  The runtime holds the root of
  a ledger that lives on the host side; the Midnight pallet passes transactions to
  the host functions, which decode them, gate the memo-capable encoding by a block
  height, verify, apply and report them.  Other pallets turn observations of
  Cardano into system transactions of that ledger: the cNIGHT observation pallet
  tracks holders of the token for their dust, and the bridge pallets pay out
  transfers.  The committee pallet selects block producers from candidates on
  Cardano, and the federated authority pallets let two governance bodies, whose
  members are observed on Cardano, dispatch privileged calls together.  Inherent
  data providers read the observations from a database of the main chain.

  \<^bold>\<open>The theories.\<close>  Each holds the state of its component as a record, its data as
  datatypes, one definition per operation with the name it has in the source, and
  the lemmas and properties of the component.

  \<^item> \<open>Prelude\<close>: machine integers, results, the transactional layer around a call, sorted
    lists, computations with state and failure, and the locale of transition
    systems with an invariant, which the components' step relations interpret.
  \<^item> \<open>Ledger_Errors\<close>, \<open>Ledger_State\<close>, \<open>Unshielded_Utxos\<close> and \<open>Ledger_Bridge\<close>: the host side
    of the ledger (\<open>ledger/src\<close>, \<open>ledger/helpers/src/versions/common\<close>), from the error
    codes and the wrapper that accumulates the fullness of a block to the report
    of unshielded outputs and the host functions with their caches.  The lemmas
    show that the gate of the memo encoding has no gap, that a cached verdict is
    that of a fresh verification, that a failed application changes nothing, and
    what validation promises of the application.
  \<^item> \<open>Midnight_Pallet\<close>: the pallets \<open>pallets/midnight\<close> and \<open>pallets/midnight-system\<close>, with the
    chain of blocks they produce: finalization does not panic, blocks stay within
    the limits, and memos appear only from the activation height on.
  \<^item> \<open>Inherents\<close> and \<open>System_Executor\<close>: the locales of pallets driven by inherent data and
    of the executor of system transactions, interpreted by the pallets.
  \<^item> \<open>Cardano_Position\<close>, \<open>CNight_Window\<close>, \<open>CNight_Source\<close> and \<open>CNight_Observation\<close>: positions and
    events of the observation (\<open>primitives/cnight-observation\<close>), the database source
    and the cached source (\<open>primitives/mainchain-follower\<close>) and the pallet
    (\<open>pallets/cnight-observation\<close>).  Pages of observations deliver every event once,
    the cached source answers like the database, and the events sent to the
    ledger create and destroy exactly the owners the pallet stores.
  \<^item> \<open>C2M_Bridge\<close> and \<open>Bridge_Source\<close>: the token bridge pallet, its handler
    \<open>pallets/c2m-bridge\<close>, and the source of transfers with its cache
    (\<open>data-sources/db-sync/src/bridge\<close>).  Transfers arrive once and in order, payouts
    need approvals, and below, on the ledger, no more is paid out than arrived.
  \<^item> \<open>Federated_Authority\<close> and \<open>Authority_Observation\<close>: motions and their approvals, and the
    observation of the bodies' members, up to the handlers of the runtime.
  \<^item> \<open>System_Parameters\<close>, \<open>Committee_Selection\<close> and \<open>Committee_Pallet\<close>: the D-parameter, the
    selection algorithms and the validation of candidates, and the pallet that
    passes committees to the session machinery.  Seats are shared as documented,
    members are valid candidates, committees serve in the order of selection.
  \<^item> \<open>Plutus\<close> and \<open>Candidate_Datums\<close>: Plutus data, and the datums that carry the parameters
    and candidates of a selection (\<open>smart-contracts/plutus-data\<close>), written and read
    back in every version.
  \<^item> \<open>Mainchain_Epochs\<close>: the epochs and slots of Cardano (\<open>sidechain/domain\<close>) and of the
    partner chain (\<open>sidechain/sidechain-slots\<close>, \<open>sidechain/pallet\<close>), and the checks of
    their configuration the node makes (\<open>node/src/cfg/midnight_cfg\<close>).  Epochs of times
    and of slots agree, and the boundaries of the two chains do up to an offset.
  \<^item> \<open>Stable_Blocks\<close>: the source of stable blocks of Cardano with its cache
    (\<open>data-sources/db-sync/src/block\<close>) and the reference to such a block that every
    header carries (\<open>sidechain/sidechain-mc-hash\<close>), with the retries of the node.  An
    accepted reference is stable and does not go back, and an honest one is accepted
    as soon as a node has caught up.
  \<^item> \<open>Consensus_Engine\<close> and \<open>Throttle\<close>: the transition of the consensus engine, and the
    limit on the bytes an account submits in a window.

  \<^bold>\<open>Foreign code.\<close>  The ledger library, the Substrate pallets and their storage layers,
  databases, cryptography, encodings and random generators are fields of a
  configuration record; what the code relies on is a named predicate over it,
  with an instance that satisfies it for the witnesses.  Release builds do not
  check overflow, so arithmetic wraps; a panic is the value \<open>None\<close>.

  \<^bold>\<open>Recursion.\<close>  Loops recurse over their input, or over a bound that the source itself
  computes, such as the retries of \<open>Stable_Blocks\<close>.  One definition has fuel: \<open>pages\<close> of
  \<open>CNight_Window\<close>, which follows the requests of successive blocks, and a page more than
  there are events in the range is enough, which the property on it proves.

  \<^bold>\<open>Not modelled.\<close>  The node's binary, its command line, configuration, networking and
  RPC servers, the chain specification and genesis tools, and the command line
  tools for Cardano are input and output around libraries.  Weights, logs,
  metrics and benchmarks have no effect on the state.  The translation of ledger
  states between versions of the ledger is a traversal of that library's data.
  Versions 7 and 8 of the host functions are the versions a chain has left
  behind; version 9 shares its code with them and is the one modelled.  The queries
  that collect the candidates of a selection, the search for blocks, the weighted
  authority sets of BEEFY and the relay are left out; what the selection does with
  its inputs does not depend on them.
\<close>

section \<open>The bridge on the ledger\<close>


text \<open>The concrete library, with the system transactions of the bridge in place of those of cNIGHT.\<close>

definition bx_enc :: "SystemTransaction \<Rightarrow> u8 list option" where
  "bx_enc tx = (case tx of
     UnlockToTreasury v \<Rightarrow> Some (enc_list enc_nat [0, unat v])
   | DistributeReserve v \<Rightarrow> Some (enc_list enc_nat [1, unat v])
   | DistributeNight CardanoBridge [out] \<Rightarrow> Some (enc_list enc_nat
       ([2, unat (instruction_amount out)] @ map unat (instruction_target out @ instruction_nonce out)))
   | _ \<Rightarrow> None)"

definition bx_dec :: "u8 list \<Rightarrow> SystemTransaction option" where
  "bx_dec b = (case dec_list dec_nat b of
     Some (k # v # rest, _) \<Rightarrow>
       Some (if k = 0 then UnlockToTreasury (word_of_nat v) else if k = 1 then DistributeReserve (word_of_nat v)
         else DistributeNight CardanoBridge [\<lparr>instruction_amount = word_of_nat v,
           instruction_target = map word_of_nat (take 32 rest), instruction_nonce = map word_of_nat (drop 32 rest)\<rparr>])
   | _ \<Rightarrow> None)"

definition bx_cfg :: "(u8, u8, u8, u8 list, weight) midnight_config" where
  "bx_cfg = mx_cfg\<lparr>ledger_lib := lx_lib\<lparr>serialize_system := bx_enc, deserialize_system := bx_dec\<rparr>\<rparr>"

definition bx_ledger_env :: "(u8, u8, u8, u8 list, (u8, u8, u8 list, weight) runtime, system_error dispatch_error) c2m_env" where
  "bx_ledger_env = \<lparr>c2m_lib = ledger_lib bx_cfg, blake2_256 = id, c2m_parent_hash = replicate 32 0,
     c2m_executor = execute_system_transaction bx_cfg, min_bridge_amount = (\<lambda>_. Inr 10)\<rparr>"

lemma bx_dec_enc: "bridge_tx tx \<Longrightarrow> \<exists>b. bx_enc tx = Some b \<and> bx_dec b = Some tx"
  using dec_enc_list [of dec_nat enc_nat _ "[]"]
  by (auto simp: bridge_tx_def bx_enc_def bx_dec_def comp_def map_idI
      split: SystemTransaction.splits ClaimKind.splits list.splits)

lemma bx_laws: "system_laws (ledger_lib bx_cfg)"
  using bx_dec_enc by (simp add: system_laws_def bx_cfg_def)

lemma bx_ledger:
  "ledger_apply_system_tx (ledger_lib bx_cfg) (ledger_new 5) tx tb = Inr \<lparr>state = 5, block_fullness = cost_zero\<lparr>block_usage := 1\<rparr>\<rparr>"
  by (simp add: ledger_apply_system_tx_def prevalidate_post_block_update_def bx_cfg_def lx_lib_def ledger_new_def
      cost_le_def cost_zero_def Let_def)

lemma bx_encode: "encode_key (ledger_lib bx_cfg) k = Some k"
  by (simp add: bx_cfg_def lx_lib_sels)

lemma bx_accepting: "accepting bx_ledger_env (rt mx_open)"
proof -
  have kind: "bx_dec b = Some tx \<Longrightarrow> \<exists>ty. get_system_tx_type tx = Inr ty" for b tx
    by (auto simp: bx_dec_def get_system_tx_type_def split: option.splits prod.splits list.splits)
  have ledger: "get_ledger (ledger_lib bx_cfg) [5] lx_host = Inr (ledger_new 5)"
    by (simp add: get_ledger_def bx_cfg_def lx_lib_sels lx_host_def)
  show ?thesis
    unfolding accepting_def
  proof (intro allI impI)
    fix b assume "deserialize_system (c2m_lib bx_ledger_env) b \<noteq> None"
    then obtain tx where "bx_dec b = Some tx"
      by (auto simp: bx_ledger_env_def bx_cfg_def)
    moreover from this obtain ty where "get_system_tx_type tx = Inr ty"
      using kind by blast
    ultimately have "deserialize_system (ledger_lib bx_cfg) b = Some tx" "get_system_tx_type tx = Inr ty"
      by (simp_all add: bx_cfg_def)
    then show "is_ok (fst (c2m_executor bx_ledger_env b (rt mx_open)))"
      using ledger
      by (simp add: bx_ledger_env_def execute_system_transaction_def run_system_transaction_def mut_ledger_state_def
          apply_system_transaction_def mx_open_def mx_genesis_def bx_ledger bx_encode serialize_root_def
          st_bind_def st_lift_def st_read_def st_modify_def st_return_def ok_or_def deposit_applied_def)
  qed
qed


end
